(* ===== verification/Prelude.thy ===== *)
theory Prelude
  imports Main "HOL-Library.Word"
begin

text \<open>
  Shared vocabulary of the development.

  \<^item> Machine integers: \<open>u8\<close>, \<open>u16\<close>, \<open>u32\<close>, \<open>u64\<close> and \<open>u128\<close> are words of that
    width.  The crate has no build profile of its own, so plain \<open>+\<close> and \<open>*\<close> wrap as they do
    in a release build; the checked and saturating operations of the Rust standard library
    are defined here once for every width.  \<open>usize\<close> counters that index a vector are \<open>nat\<close>.
  \<^item> Results: Rust's \<open>Result<T, E>\<close> is \<open>'e + 'a\<close> (\<open>Inl\<close> the error), \<open>and_then\<close> is what
    the operator \<open>?\<close> does to the rest of a function.
  \<^item> Effects: an \<open>async fn\<close> that reads or writes a world \<open>'w\<close> and returns a result is a
    function \<open>'w \<Rightarrow> ('e + 'a) \<times> 'w\<close>; \<open>io_bind\<close> sequences two of them, and an error keeps
    the world reached so far, as an early return does.
  \<^item> \<open>keeps\<close> (an effect keeps an invariant) and \<open>gives\<close> (and its results have a property) are
    the two judgements the component proofs are built from.
\<close>

section \<open>Rule collections\<close>

named_theorems io_simps \<open>evaluation of the effect combinators\<close>
named_theorems keeps_intros \<open>syntax-directed rules that an effect keeps an invariant\<close>
named_theorems gives_intros \<open>syntax-directed rules that an effect keeps an invariant and what it returns\<close>
named_theorems result_simps \<open>inversion of successful and failed results\<close>

section \<open>Machine integers\<close>

type_synonym u8 = "8 word"
type_synonym u16 = "16 word"
type_synonym u32 = "32 word"
type_synonym u64 = "64 word"
type_synonym u128 = "128 word"

text \<open>The largest value of the width (\<open>u64::MAX\<close> and its kin) is \<open>-1\<close> as a word.\<close>

definition checked_add :: "'a::len word \<Rightarrow> 'a word \<Rightarrow> 'a word option" where
  "checked_add a b = (if unat a + unat b < 2 ^ LENGTH('a) then Some (a + b) else None)"

definition checked_mul :: "'a::len word \<Rightarrow> 'a word \<Rightarrow> 'a word option" where
  "checked_mul a b = (if unat a * unat b < 2 ^ LENGTH('a) then Some (a * b) else None)"

definition checked_sub :: "'a::len word \<Rightarrow> 'a word \<Rightarrow> 'a word option" where
  "checked_sub a b = (if b \<le> a then Some (a - b) else None)"

definition saturating_add :: "'a::len word \<Rightarrow> 'a word \<Rightarrow> 'a word" where
  "saturating_add a b = (if unat a + unat b < 2 ^ LENGTH('a) then a + b else - 1)"

definition saturating_mul :: "'a::len word \<Rightarrow> 'a word \<Rightarrow> 'a word" where
  "saturating_mul a b = (if unat a * unat b < 2 ^ LENGTH('a) then a * b else - 1)"

definition saturating_sub :: "'a::len word \<Rightarrow> 'a word \<Rightarrow> 'a word" where
  "saturating_sub a b = (if b \<le> a then a - b else 0)"

text \<open>\<open>u128::div_ceil\<close>: the quotient, plus one when the remainder is not zero.\<close>

definition div_ceil :: "'a::len word \<Rightarrow> 'a word \<Rightarrow> 'a word" where
  "div_ceil a b = (if a mod b = 0 then a div b else a div b + 1)"

text \<open>\<open>u64::try_from(v).ok()\<close> for a \<open>u128\<close>, \<open>i64::try_from(v).ok()\<close> for a \<open>u64\<close>.\<close>

definition u64_try_from :: "u128 \<Rightarrow> u64 option" where
  "u64_try_from v = (if unat v < 2 ^ 64 then Some (ucast v) else None)"

definition i64_try_from :: "u64 \<Rightarrow> int option" where
  "i64_try_from v = (if unat v < 2 ^ 63 then Some (uint v) else None)"

lemma unat_umax [simp]: "unat (- 1 :: 'a::len word) = 2 ^ LENGTH('a) - 1"
  by transfer (simp add: mask_eq_exp_minus_1 nat_diff_distrib nat_power_eq)

lemma unat_saturating_add:
  "unat (saturating_add a b) = min (unat a + unat b) (2 ^ LENGTH('a) - 1)"
  for a b :: "'a::len word"
  by (auto simp: saturating_add_def unat_word_ariths)

lemma unat_saturating_mul:
  "unat (saturating_mul a b) = min (unat a * unat b) (2 ^ LENGTH('a) - 1)"
  for a b :: "'a::len word"
  by (auto simp: saturating_mul_def unat_word_ariths)

lemma unat_saturating_sub: "unat (saturating_sub a b) = unat a - unat b"
  for a b :: "'a::len word"
  by (auto simp: saturating_sub_def unat_sub_if' word_le_nat_alt)

lemma checked_add_SomeD: "checked_add a b = Some c \<Longrightarrow> unat c = unat a + unat b \<and> c = a + b"
  for a b :: "'a::len word"
  by (auto simp: checked_add_def unat_word_ariths split: if_splits)

lemma checked_mul_SomeD: "checked_mul a b = Some c \<Longrightarrow> unat c = unat a * unat b \<and> c = a * b"
  for a b :: "'a::len word"
  by (auto simp: checked_mul_def unat_word_ariths split: if_splits)

lemma checked_add_None_iff:
  "checked_add a b = None \<longleftrightarrow> 2 ^ LENGTH('a) \<le> unat a + unat b" for a b :: "'a::len word"
  by (auto simp: checked_add_def)

lemma unat_max_word: "unat (max a b) = max (unat a) (unat b)" for a b :: "'a::len word"
  by (auto simp: max_def word_le_nat_alt)

lemma unat_min_word: "unat (min a b) = min (unat a) (unat b)" for a b :: "'a::len word"
  by (auto simp: min_def word_le_nat_alt)

lemma unat_u64_less [simp]: "unat (w :: u64) < 18446744073709551616"
  using unsigned_less [of w] by simp

lemma unat_u64_le [simp]: "unat (w :: u64) \<le> 18446744073709551615"
  using unat_u64_less [of w] by (simp del: unat_u64_less)

lemma unat_of_nat_u64: "n < 18446744073709551616 \<Longrightarrow> unat (of_nat n :: u64) = n"
  by (simp add: unsigned_of_nat take_bit_eq_mod)

lemma i64_try_from_SomeD:
  assumes "i64_try_from v = Some n"
  shows "n = sint v"
proof -
  have n: "n = uint v" and "unat v < 9223372036854775808"
    using assms by (auto simp: i64_try_from_def split: if_splits)
  moreover have "uint v = int (unat v)" by simp
  ultimately have a: "uint v < 9223372036854775808" by linarith
  have b: "0 \<le> uint v" by simp
  have "signed_take_bit 63 (uint v) = uint v"
  proof (rule signed_take_bit_int_eq_self)
    show "- (2 ^ 63) \<le> uint v" using b by (rule order_trans [rotated]) simp
    show "uint v < 2 ^ 63" using a by simp
  qed
  then show ?thesis by (simp add: n sint_uint)
qed

text \<open>Widening a \<open>u64\<close> to a \<open>u128\<close> keeps its value.\<close>

lemma unat_ucast_u64_u128 [simp]: "unat (ucast (w :: u64) :: u128) = unat w"
  by transfer (simp add: min_def)

lemma unat_ucast_u128_u64: "unat (ucast (w :: u128) :: u64) = unat w mod 2 ^ 64"
  by transfer (simp add: take_bit_eq_mod nat_mod_distrib)

lemma unat_u64_try_from:
  "unat (case u64_try_from v of None \<Rightarrow> - 1 | Some x \<Rightarrow> x) = min (unat v) (2 ^ 64 - 1)"
  by (auto simp: u64_try_from_def unat_ucast_u128_u64)

lemma ceil_div_nat: "0 < b \<Longrightarrow> a mod b \<noteq> 0 \<Longrightarrow> (a + b - 1) div b = a div b + 1" for a b :: nat
proof -
  assume "0 < b" and r: "a mod b \<noteq> 0"
  have "a mod b < b" using \<open>0 < b\<close> by simp
  have "a + b - 1 = (a div b + 1) * b + (a mod b - 1)"
    using div_mult_mod_eq [of a b] r by (simp only: distrib_right mult_1)
  then show ?thesis
    using \<open>a mod b < b\<close> by (metis add.right_neutral div_less div_mult_self3 less_imp_diff_less not_less0)
qed

lemma unat_div_ceil:
  fixes a b :: "'a::len word"
  assumes "0 < unat b" and "unat a + unat b \<le> 2 ^ LENGTH('a)"
  shows "unat (div_ceil a b) = (unat a + unat b - 1) div unat b"
proof (cases "unat a mod unat b = 0")
  case True
  then obtain k where k: "unat a = k * unat b" by (metis mod_0_imp_dvd dvd_def mult.commute)
  have "a mod b = 0"
    using True by (intro unsigned_word_eqI [where 'a = nat]) (simp add: unat_mod_distrib)
  moreover have "k * unat b + unat b - 1 = k * unat b + (unat b - 1)" using assms(1) by simp
  then have "(k * unat b + unat b - 1) div unat b = k"
    using assms(1) by (simp only: div_mult_self3) simp
  ultimately show ?thesis
    using k assms(1) by (simp add: div_ceil_def unat_div_distrib)
next
  case False
  let ?q = "unat a div unat b"
  have ne: "a mod b \<noteq> 0"
    using False by (metis unat_mod_distrib unsigned_0)
  have up: "(unat a + unat b - 1) div unat b = ?q + 1"
    using False assms(1) by (intro ceil_div_nat) auto
  have "?q + 1 < 2 ^ LENGTH('a)"
  proof (cases "unat b = 1")
    case True
    then show ?thesis using False by simp
  next
    case b: False
    then have "2 \<le> unat b" using assms(1) by linarith
    then have "?q \<le> unat a div 2" by (simp add: div_le_mono2)
    moreover have "unat a + 2 \<le> 2 ^ LENGTH('a)" using assms(2) \<open>2 \<le> unat b\<close> by linarith
    ultimately show ?thesis by linarith
  qed
  then show ?thesis
    using ne up by (simp add: div_ceil_def unat_word_ariths unat_div_distrib)
qed

section \<open>Results\<close>

definition and_then :: "'e + 'a \<Rightarrow> ('a \<Rightarrow> 'e + 'b) \<Rightarrow> 'e + 'b" where
  "and_then m f = (case m of Inl e \<Rightarrow> Inl e | Inr x \<Rightarrow> f x)"

definition ok_or :: "'e \<Rightarrow> 'a option \<Rightarrow> 'e + 'a" where
  "ok_or e m = (case m of None \<Rightarrow> Inl e | Some x \<Rightarrow> Inr x)"

definition map_err :: "('e \<Rightarrow> 'f) \<Rightarrow> 'e + 'a \<Rightarrow> 'f + 'a" where
  "map_err g m = (case m of Inl e \<Rightarrow> Inl (g e) | Inr x \<Rightarrow> Inr x)"

definition is_ok :: "'e + 'a \<Rightarrow> bool" where
  "is_ok m = (case m of Inl _ \<Rightarrow> False | Inr _ \<Rightarrow> True)"

lemma and_then_simps [simp]: "and_then (Inl e) f = Inl e" "and_then (Inr x) f = f x"
  by (simp_all add: and_then_def)

lemma ok_or_simps [simp]: "ok_or e None = Inl e" "ok_or e (Some x) = Inr x"
  by (simp_all add: ok_or_def)

lemma map_err_simps [simp]: "map_err g (Inl e) = Inl (g e)" "map_err g (Inr x) = Inr x"
  by (simp_all add: map_err_def)

lemma is_ok_simps [simp]: "\<not> is_ok (Inl e)" "is_ok (Inr x)"
  by (simp_all add: is_ok_def)

lemma is_ok_iff: "is_ok m \<longleftrightarrow> (\<exists>x. m = Inr x)"
  by (cases m) auto

lemma and_then_Inr_iff [result_simps]:
  "and_then m f = Inr y \<longleftrightarrow> (\<exists>x. m = Inr x \<and> f x = Inr y)"
  by (cases m) auto

lemma and_then_Inl_iff [result_simps]:
  "and_then m f = Inl e \<longleftrightarrow> m = Inl e \<or> (\<exists>x. m = Inr x \<and> f x = Inl e)"
  by (cases m) auto

lemma ok_or_Inr_iff [result_simps]: "ok_or e m = Inr x \<longleftrightarrow> m = Some x"
  by (cases m) auto

lemma ok_or_Inl_iff [result_simps]: "ok_or e m = Inl e' \<longleftrightarrow> m = None \<and> e' = e"
  by (cases m) auto

lemma map_err_Inr_iff [result_simps]: "map_err g m = Inr x \<longleftrightarrow> m = Inr x"
  by (cases m) auto

section \<open>Effects\<close>

type_synonym ('w, 'e, 'a) io = "'w \<Rightarrow> ('e + 'a) \<times> 'w"

definition io_ret :: "'a \<Rightarrow> ('w, 'e, 'a) io" where
  "io_ret x = (\<lambda>w. (Inr x, w))"

definition io_fail :: "'e \<Rightarrow> ('w, 'e, 'a) io" where
  "io_fail e = (\<lambda>w. (Inl e, w))"

definition io_lift :: "'e + 'a \<Rightarrow> ('w, 'e, 'a) io" where
  "io_lift r = (\<lambda>w. (r, w))"

definition io_bind :: "('w, 'e, 'a) io \<Rightarrow> ('a \<Rightarrow> ('w, 'e, 'b) io) \<Rightarrow> ('w, 'e, 'b) io" where
  "io_bind m f = (\<lambda>w. case m w of (Inl e, w') \<Rightarrow> (Inl e, w') | (Inr x, w') \<Rightarrow> f x w')"

text \<open>\<open>match m.await\<close>: the error becomes a value and the function goes on.\<close>

definition io_attempt :: "('w, 'e, 'a) io \<Rightarrow> ('w, 'e, 'e + 'a) io" where
  "io_attempt m = (\<lambda>w. case m w of (r, w') \<Rightarrow> (Inr r, w'))"

lemma io_eval [io_simps]:
  "io_ret x w = (Inr x, w)"
  "io_fail e w = (Inl e, w)"
  "io_lift r w = (r, w)"
  "io_attempt m w = (Inr (fst (m w)), snd (m w))"
  by (simp_all add: io_ret_def io_fail_def io_lift_def io_attempt_def case_prod_beta)

lemma io_bind_eval [io_simps]:
  "io_bind m f w = (case m w of (Inl e, w') \<Rightarrow> (Inl e, w') | (Inr x, w') \<Rightarrow> f x w')"
  by (simp add: io_bind_def)

lemma io_bind_Inr_iff [result_simps]:
  "io_bind m f w = (Inr y, w'') \<longleftrightarrow> (\<exists>x w'. m w = (Inr x, w') \<and> f x w' = (Inr y, w''))"
  by (auto simp: io_bind_def split: prod.splits sum.splits)

lemma io_bind_assoc: "io_bind (io_bind m f) g = io_bind m (\<lambda>x. io_bind (f x) g)"
  by (rule ext) (auto simp: io_bind_def split: prod.splits sum.splits)

subsection \<open>Invariants of an effect\<close>

definition keeps :: "('w \<Rightarrow> bool) \<Rightarrow> ('w, 'e, 'a) io \<Rightarrow> bool" where
  "keeps I m \<longleftrightarrow> (\<forall>w. I w \<longrightarrow> I (snd (m w)))"

definition gives :: "('w \<Rightarrow> bool) \<Rightarrow> ('w, 'e, 'a) io \<Rightarrow> ('a \<Rightarrow> bool) \<Rightarrow> bool" where
  "gives I m R \<longleftrightarrow> (\<forall>w. I w \<longrightarrow> I (snd (m w)) \<and> (\<forall>x. fst (m w) = Inr x \<longrightarrow> R x))"

lemma keepsI: "(\<And>w. I w \<Longrightarrow> I (snd (m w))) \<Longrightarrow> keeps I m"
  by (simp add: keeps_def)

lemma keepsD: "keeps I m \<Longrightarrow> I w \<Longrightarrow> m w = (r, w') \<Longrightarrow> I w'"
  by (metis keeps_def snd_conv)

lemma keeps_ret [keeps_intros]: "keeps I (io_ret x)"
  by (simp add: keeps_def io_simps)

lemma keeps_fail [keeps_intros]: "keeps I (io_fail e)"
  by (simp add: keeps_def io_simps)

lemma keeps_lift [keeps_intros]: "keeps I (io_lift r)"
  by (simp add: keeps_def io_simps)

lemma keeps_bind [keeps_intros]:
  "keeps I m \<Longrightarrow> (\<And>x. keeps I (f x)) \<Longrightarrow> keeps I (io_bind m f)"
  unfolding keeps_def io_bind_def by (auto split: prod.splits sum.splits)

lemma keeps_attempt [keeps_intros]: "keeps I m \<Longrightarrow> keeps I (io_attempt m)"
  by (simp add: keeps_def io_simps)

lemma keeps_if [keeps_intros]:
  "(b \<Longrightarrow> keeps I m) \<Longrightarrow> (\<not> b \<Longrightarrow> keeps I n) \<Longrightarrow> keeps I (if b then m else n)"
  by simp

lemma keeps_case_option [keeps_intros]:
  "(x = None \<Longrightarrow> keeps I m) \<Longrightarrow> (\<And>y. x = Some y \<Longrightarrow> keeps I (f y)) \<Longrightarrow>
   keeps I (case x of None \<Rightarrow> m | Some y \<Rightarrow> f y)"
  by (cases x) auto

lemma keeps_case_sum [keeps_intros]:
  "(\<And>e. x = Inl e \<Longrightarrow> keeps I (g e)) \<Longrightarrow> (\<And>y. x = Inr y \<Longrightarrow> keeps I (f y)) \<Longrightarrow>
   keeps I (case x of Inl e \<Rightarrow> g e | Inr y \<Rightarrow> f y)"
  by (cases x) auto

lemma keeps_case_prod [keeps_intros]:
  "(\<And>a b. x = (a, b) \<Longrightarrow> keeps I (f a b)) \<Longrightarrow> keeps I (case x of (a, b) \<Rightarrow> f a b)"
  by (cases x) auto

lemma givesI:
  "(\<And>w. I w \<Longrightarrow> I (snd (m w))) \<Longrightarrow> (\<And>w x. I w \<Longrightarrow> fst (m w) = Inr x \<Longrightarrow> R x) \<Longrightarrow> gives I m R"
  by (simp add: gives_def)

lemma givesD: "gives I m R \<Longrightarrow> I w \<Longrightarrow> m w = (r, w') \<Longrightarrow> I w' \<and> (\<forall>x. r = Inr x \<longrightarrow> R x)"
  by (metis gives_def fst_conv snd_conv)

lemma gives_keeps: "gives I m R \<Longrightarrow> keeps I m"
  by (simp add: gives_def keeps_def)

lemma keeps_gives: "keeps I m \<Longrightarrow> gives I m (\<lambda>_. True)"
  by (simp add: gives_def keeps_def)

lemma gives_weaken: "gives I m Q \<Longrightarrow> (\<And>x. Q x \<Longrightarrow> R x) \<Longrightarrow> gives I m R"
  by (simp add: gives_def)

lemma gives_bind:
  "gives I m Q \<Longrightarrow> (\<And>x. Q x \<Longrightarrow> gives I (f x) R) \<Longrightarrow> gives I (io_bind m f) R"
  unfolding gives_def io_bind_def by (auto split: prod.splits sum.splits)

lemma gives_ret [gives_intros]: "R x \<Longrightarrow> gives I (io_ret x) R"
  and gives_fail [gives_intros]: "gives I (io_fail e) R"
  and gives_lift [gives_intros]: "(\<And>x. r = Inr x \<Longrightarrow> R x) \<Longrightarrow> gives I (io_lift r) R"
  by (simp_all add: gives_def io_simps)

lemma gives_bind_ret [gives_intros]: "gives I (f x) R \<Longrightarrow> gives I (io_bind (io_ret x) f) R"
  by (simp add: gives_def io_simps)

lemma gives_bind_lift [gives_intros]:
  "(\<And>x. r = Inr x \<Longrightarrow> gives I (f x) R) \<Longrightarrow> gives I (io_bind (io_lift r) f) R"
  by (rule gives_bind [OF gives_lift [where R = "\<lambda>x. r = Inr x"]]) auto

lemma gives_bind_attempt:
  "gives I m Q \<Longrightarrow> (\<And>e. gives I (f (Inl e)) R) \<Longrightarrow> (\<And>x. Q x \<Longrightarrow> gives I (f (Inr x)) R) \<Longrightarrow>
   gives I (io_bind (io_attempt m) f) R"
  unfolding gives_def io_bind_def io_attempt_def
  by (auto split: prod.splits) (metis fst_conv snd_conv sum.exhaust)+

lemma gives_if [gives_intros]:
  "(b \<Longrightarrow> gives I m R) \<Longrightarrow> (\<not> b \<Longrightarrow> gives I n R) \<Longrightarrow> gives I (if b then m else n) R"
  by simp

lemma gives_case_option [gives_intros]:
  "(x = None \<Longrightarrow> gives I m R) \<Longrightarrow> (\<And>y. x = Some y \<Longrightarrow> gives I (f y) R) \<Longrightarrow>
   gives I (case x of None \<Rightarrow> m | Some y \<Rightarrow> f y) R"
  by (cases x) auto

lemma gives_case_sum [gives_intros]:
  "(\<And>e. x = Inl e \<Longrightarrow> gives I (g e) R) \<Longrightarrow> (\<And>y. x = Inr y \<Longrightarrow> gives I (f y) R) \<Longrightarrow>
   gives I (case x of Inl e \<Rightarrow> g e | Inr y \<Rightarrow> f y) R"
  by (cases x) auto

lemma gives_case_prod [gives_intros]:
  "(\<And>a b. x = (a, b) \<Longrightarrow> gives I (f a b) R) \<Longrightarrow> gives I (case x of (a, b) \<Rightarrow> f a b) R"
  by (cases x) auto

section \<open>Lists and maps\<close>

text \<open>Folding a fallible step over a list, stopping at the first error.\<close>

fun fold_result :: "('a \<Rightarrow> 's \<Rightarrow> 'e + 's) \<Rightarrow> 'a list \<Rightarrow> 's \<Rightarrow> 'e + 's" where
  "fold_result f [] s = Inr s"
| "fold_result f (x # xs) s = and_then (f x s) (fold_result f xs)"

lemma fold_result_append:
  "fold_result f (xs @ ys) s = and_then (fold_result f xs s) (fold_result f ys)"
proof (induction xs arbitrary: s)
  case (Cons x xs)
  then show ?case by (cases "f x s") auto
qed simp

lemma fold_result_invariant:
  assumes "fold_result f xs s = Inr s'" and "P s"
    and "\<And>x s s'. x \<in> set xs \<Longrightarrow> P s \<Longrightarrow> f x s = Inr s' \<Longrightarrow> P s'"
  shows "P s'"
  using assms by (induction xs arbitrary: s) (auto simp: result_simps)

text \<open>Simulation of one fold by another, step by step.\<close>

lemma fold_result_simulation:
  assumes "fold_result f xs s = Inr s'" and "R s q"
    and "\<And>x s s' q. x \<in> set xs \<Longrightarrow> f x s = Inr s' \<Longrightarrow> R s q \<Longrightarrow> \<exists>q'. g x q = Inr q' \<and> R s' q'"
  shows "\<exists>q'. fold_result g xs q = Inr q' \<and> R s' q'"
  using assms
proof (induction xs arbitrary: s q)
  case (Cons x xs)
  obtain s1 where s1: "f x s = Inr s1" "fold_result f xs s1 = Inr s'"
    using Cons.prems(1) by (auto simp: result_simps)
  obtain q1 where q1: "g x q = Inr q1" "R s1 q1" using Cons.prems(3) [OF _ s1(1) Cons.prems(2)] by auto
  then show ?case using Cons.IH [OF s1(2) q1(2)] Cons.prems(3) by auto
qed simp

lemma filter_update_other:
  "(\<And>x. P x \<Longrightarrow> f x = x) \<Longrightarrow> (\<And>x. \<not> P x \<Longrightarrow> \<not> P (f x)) \<Longrightarrow> filter P (map f xs) = filter P xs"
  by (induction xs) auto

end
