(* ===== verification/Text.thy ===== *)
theory Text
  imports Prelude
begin

text \<open>
  Rust strings.  A \<open>&str\<close> is its UTF-8 byte sequence, here a \<open>string\<close> whose characters are
  the bytes, so \<open>length\<close> is \<open>str::len\<close>.  Defined here is what the crate uses of the standard
  library on text: \<open>trim\<close> (every Unicode white space character, in its UTF-8 encoding),
  \<open>split_once\<close>, \<open>strip_prefix\<close>, \<open>chars().take(n)\<close>, the decimal \<open>Display\<close> and \<open>FromStr\<close>
  of \<open>u64\<close>, zero padding and the \<open>Debug\<close> form of a string.  The lemmas at the end are the
  round trip between printing and reading decimals.
\<close>

section \<open>Character classes\<close>

definition byte_of :: "char \<Rightarrow> nat" where
  "byte_of c = of_char c"

definition is_ascii_digit :: "char \<Rightarrow> bool" where
  "is_ascii_digit c \<longleftrightarrow> 48 \<le> byte_of c \<and> byte_of c \<le> 57"

definition is_ascii_alphanumeric :: "char \<Rightarrow> bool" where
  "is_ascii_alphanumeric c \<longleftrightarrow> is_ascii_digit c \<or>
     65 \<le> byte_of c \<and> byte_of c \<le> 90 \<or> 97 \<le> byte_of c \<and> byte_of c \<le> 122"

text \<open>UTF-8 continuation bytes are \<open>10xxxxxx\<close>.\<close>

definition is_continuation :: "char \<Rightarrow> bool" where
  "is_continuation c \<longleftrightarrow> 128 \<le> byte_of c \<and> byte_of c < 192"

section \<open>White space\<close>

text \<open>
  The Unicode \<open>White_Space\<close> characters by the length of their encoding: U+0009 to U+000D and
  U+0020; U+0085 and U+00A0; U+1680, U+2000 to U+200A, U+2028, U+2029, U+202F, U+205F, U+3000.
\<close>

definition ws1 :: "char \<Rightarrow> bool" where
  "ws1 a \<longleftrightarrow> 9 \<le> byte_of a \<and> byte_of a \<le> 13 \<or> byte_of a = 32"

definition ws2 :: "char \<Rightarrow> char \<Rightarrow> bool" where
  "ws2 a b \<longleftrightarrow> byte_of a = 194 \<and> (byte_of b = 133 \<or> byte_of b = 160)"

definition ws3 :: "char \<Rightarrow> char \<Rightarrow> char \<Rightarrow> bool" where
  "ws3 a b c \<longleftrightarrow>
     byte_of a = 225 \<and> byte_of b = 154 \<and> byte_of c = 128 \<or>
     byte_of a = 226 \<and> byte_of b = 128 \<and>
       (128 \<le> byte_of c \<and> byte_of c \<le> 138 \<or> byte_of c = 168 \<or> byte_of c = 169 \<or> byte_of c = 175) \<or>
     byte_of a = 226 \<and> byte_of b = 129 \<and> byte_of c = 159 \<or>
     byte_of a = 227 \<and> byte_of b = 128 \<and> byte_of c = 128"

fun trim_start :: "string \<Rightarrow> string" where
  "trim_start (a # b # c # s) =
     (if ws1 a then trim_start (b # c # s)
      else if ws2 a b then trim_start (c # s)
      else if ws3 a b c then trim_start s
      else a # b # c # s)"
| "trim_start [a, b] = (if ws1 a then trim_start [b] else if ws2 a b then [] else [a, b])"
| "trim_start [a] = (if ws1 a then [] else [a])"
| "trim_start [] = []"

text \<open>The same from the right, on the reversed string.\<close>

fun trim_start_rev :: "string \<Rightarrow> string" where
  "trim_start_rev (a # b # c # s) =
     (if ws1 a then trim_start_rev (b # c # s)
      else if ws2 b a then trim_start_rev (c # s)
      else if ws3 c b a then trim_start_rev s
      else a # b # c # s)"
| "trim_start_rev [a, b] = (if ws1 a then trim_start_rev [b] else if ws2 b a then [] else [a, b])"
| "trim_start_rev [a] = (if ws1 a then [] else [a])"
| "trim_start_rev [] = []"

definition trim :: "string \<Rightarrow> string" where
  "trim s = rev (trim_start_rev (rev (trim_start s)))"

section \<open>Pieces of a string\<close>

definition strip_prefix :: "string \<Rightarrow> string \<Rightarrow> string option" where
  "strip_prefix p s = (if take (length p) s = p then Some (drop (length p) s) else None)"

definition starts_with :: "string \<Rightarrow> string \<Rightarrow> bool" where
  "starts_with p s \<longleftrightarrow> take (length p) s = p"

fun split_once :: "string \<Rightarrow> string \<Rightarrow> (string \<times> string) option" where
  "split_once d [] = (if d = [] then Some ([], []) else None)"
| "split_once d (c # s) =
     (if starts_with d (c # s) then Some ([], drop (length d) (c # s))
      else map_option (\<lambda>(a, b). (c # a, b)) (split_once d s))"

text \<open>\<open>s.split(c)\<close> for a one-byte separator: always at least one piece.\<close>

fun split_char :: "char \<Rightarrow> string \<Rightarrow> string list" where
  "split_char d [] = [[]]"
| "split_char d (c # s) =
     (if c = d then [] # split_char d s
      else (case split_char d s of [] \<Rightarrow> [[c]] | p # ps \<Rightarrow> (c # p) # ps))"

text \<open>\<open>s.chars().take(n).collect()\<close>: a character is a leading byte and its continuations.\<close>

fun take_chars :: "nat \<Rightarrow> string \<Rightarrow> string" where
  "take_chars 0 s = []"
| "take_chars (Suc n) [] = []"
| "take_chars (Suc n) (c # s) =
     c # takeWhile is_continuation s @ take_chars n (dropWhile is_continuation s)"

section \<open>Numbers in text\<close>

definition digit_char :: "nat \<Rightarrow> char" where
  "digit_char n = char_of (48 + n)"

fun show_nat :: "nat \<Rightarrow> string" where
  "show_nat n = (if n < 10 then [digit_char n] else show_nat (n div 10) @ [digit_char (n mod 10)])"

declare show_nat.simps [simp del]

definition hex_char :: "nat \<Rightarrow> char" where
  "hex_char n = (if n < 10 then char_of (48 + n) else char_of (87 + n))"

text \<open>Padding with zeros to a width: on the left (\<open>{:09}\<close>) and on the right (\<open>{:0<9}\<close>).\<close>

definition pad_left0 :: "nat \<Rightarrow> string \<Rightarrow> string" where
  "pad_left0 k s = replicate (k - length s) CHR ''0'' @ s"

definition pad_right0 :: "nat \<Rightarrow> string \<Rightarrow> string" where
  "pad_right0 k s = s @ replicate (k - length s) CHR ''0''"

definition digits_val :: "string \<Rightarrow> nat" where
  "digits_val s = foldl (\<lambda>a c. a * 10 + (byte_of c - 48)) 0 s"

text \<open>\<open>u64::from_str\<close>: an optional plus sign, then one or more digits below \<open>2^64\<close>.\<close>

definition u64_from_str :: "string \<Rightarrow> u64 option" where
  "u64_from_str s =
     (let t = (case s of c # r \<Rightarrow> if c = CHR ''+'' then r else s | [] \<Rightarrow> [])
      in if t \<noteq> [] \<and> list_all is_ascii_digit t \<and> digits_val t < 2 ^ 64
         then Some (of_nat (digits_val t)) else None)"

text \<open>
  The \<open>Debug\<close> form of a string, used in error messages only: quotes, backslashes and ASCII
  control characters are escaped; other bytes are copied.
\<close>

definition debug_char :: "char \<Rightarrow> string" where
  "debug_char c =
     (let n = byte_of c in
      if n = 34 then [CHR 0x5C, CHR 0x22]
      else if n = 92 then [CHR 0x5C, CHR 0x5C]
      else if n = 0 then [CHR 0x5C, CHR ''0'']
      else if n = 9 then [CHR 0x5C, CHR ''t'']
      else if n = 10 then [CHR 0x5C, CHR ''n'']
      else if n = 13 then [CHR 0x5C, CHR ''r'']
      else if n < 32 \<or> n = 127 then
        [CHR 0x5C, CHR ''u'', CHR 0x7B] @
        (if n < 16 then [hex_char n] else [hex_char (n div 16), hex_char (n mod 16)]) @ [CHR 0x7D]
      else [c])"

definition str_debug :: "string \<Rightarrow> string" where
  "str_debug s = [CHR 0x22] @ concat (map debug_char s) @ [CHR 0x22]"

section \<open>Lemmas\<close>

lemma byte_of_digit_char: "n < 10 \<Longrightarrow> byte_of (digit_char n) = 48 + n"
  by (simp add: byte_of_def digit_char_def of_char_of)

lemma is_ascii_digit_digit_char: "n < 10 \<Longrightarrow> is_ascii_digit (digit_char n)"
  by (simp add: is_ascii_digit_def byte_of_digit_char)

lemma is_ascii_digit_0 [simp]: "is_ascii_digit CHR ''0''"
  by (simp add: is_ascii_digit_def byte_of_def)

lemma is_ascii_digit_no_space:
  assumes "is_ascii_digit c"
  shows "\<not> ws1 c" and "\<not> ws2 c d" and "\<not> ws2 d c" and "\<not> ws3 c d e" and "\<not> ws3 d e c"
  using assms unfolding is_ascii_digit_def ws1_def ws2_def ws3_def by linarith+

lemma digits_val_append: "digits_val (s @ t) = digits_val s * 10 ^ length t + digits_val t"
proof -
  have key: "foldl (\<lambda>a c. a * 10 + (byte_of c - 48)) a t = a * 10 ^ length t + digits_val t" for a
  proof (induction t rule: rev_induct)
    case Nil
    then show ?case by (simp add: digits_val_def)
  next
    case (snoc c t)
    then show ?case by (simp add: digits_val_def algebra_simps)
  qed
  show ?thesis
    using key [of "digits_val s"] by (simp only: digits_val_def foldl_append)
qed

lemma digits_val_Nil [simp]: "digits_val [] = 0"
  by (simp add: digits_val_def)

lemma digits_val_single: "digits_val [c] = byte_of c - 48"
  by (simp add: digits_val_def)

lemma digits_val_zeros [simp]: "digits_val (replicate k CHR ''0'') = 0"
proof (induction k)
  case (Suc k)
  have "replicate (Suc k) CHR ''0'' = replicate k CHR ''0'' @ [CHR ''0'']"
    by (simp add: replicate_append_same)
  then show ?case
    using Suc by (simp only: digits_val_append) (simp add: digits_val_single byte_of_def)
qed simp

lemma digits_val_show_nat [simp]: "digits_val (show_nat n) = n"
proof (induction n rule: show_nat.induct)
  case (1 n)
  then show ?case
    by (subst show_nat.simps)
       (auto simp: digits_val_append digits_val_single byte_of_digit_char)
qed

lemma show_nat_digits: "list_all is_ascii_digit (show_nat n)"
proof (induction n rule: show_nat.induct)
  case (1 n)
  then show ?case by (subst show_nat.simps) (auto simp: is_ascii_digit_digit_char)
qed

lemma show_nat_nonempty [simp]: "show_nat n \<noteq> []"
  by (subst show_nat.simps) simp

lemma length_show_nat: "0 < k \<Longrightarrow> n < 10 ^ k \<Longrightarrow> length (show_nat n) \<le> k"
proof (induction n arbitrary: k rule: show_nat.induct)
  case (1 n)
  show ?case
  proof (cases "n < 10")
    case True
    then show ?thesis using 1 by (subst show_nat.simps) simp
  next
    case False
    obtain j where j: "k = Suc j" using 1 by (cases k) auto
    have "0 < j" using False 1 j by (cases j) auto
    moreover have "n div 10 < 10 ^ j" using 1 j by (auto simp: div_less_iff_less_mult mult.commute)
    ultimately have "length (show_nat (n div 10)) \<le> j" using 1 False by blast
    then show ?thesis using False j by (subst show_nat.simps) simp
  qed
qed

lemma digits_val_bound: "list_all is_ascii_digit s \<Longrightarrow> digits_val s < 10 ^ length s"
proof (induction s rule: rev_induct)
  case (snoc c s)
  then have "byte_of c - 48 < 10" by (auto simp: is_ascii_digit_def)
  moreover have "digits_val s < 10 ^ length s" using snoc by simp
  ultimately have "digits_val s * 10 + (byte_of c - 48) < 10 ^ length s * 10" by linarith
  then show ?case by (simp add: digits_val_append digits_val_single mult.commute)
qed simp

lemma digits_val_pad_right0: "digits_val (pad_right0 k s) = digits_val s * 10 ^ (k - length s)"
  by (simp add: pad_right0_def digits_val_append)

lemma pad_right0_digits: "list_all is_ascii_digit s \<Longrightarrow> list_all is_ascii_digit (pad_right0 k s)"
  by (auto simp: pad_right0_def list_all_iff)

lemma digits_val_pad_left0 [simp]: "digits_val (pad_left0 k s) = digits_val s"
  by (simp add: pad_left0_def digits_val_append)

lemma length_pad_left0: "length s \<le> k \<Longrightarrow> length (pad_left0 k s) = k"
  by (simp add: pad_left0_def)

lemma pad_left0_digits: "list_all is_ascii_digit s \<Longrightarrow> list_all is_ascii_digit (pad_left0 k s)"
  by (auto simp: pad_left0_def list_all_iff)

lemma split_once_char:
  "c \<notin> set s \<Longrightarrow> split_once [c] (s @ c # t) = Some (s, t)"
  by (induction s) (auto simp: starts_with_def)

lemma split_once_char_none: "c \<notin> set s \<Longrightarrow> split_once [c] s = None"
  by (induction s) (auto simp: starts_with_def)

text \<open>A string that starts and ends with characters that are no part of a white space
  encoding is left as it is.\<close>

lemma trim_start_id:
  assumes "is_ascii_digit a"
  shows "trim_start (a # s) = a # s"
proof (cases s)
  case (Cons b t)
  then show ?thesis
    using is_ascii_digit_no_space [OF assms] by (cases t) simp_all
qed (use is_ascii_digit_no_space [OF assms] in simp)

lemma trim_start_rev_id:
  assumes "is_ascii_digit a"
  shows "trim_start_rev (a # s) = a # s"
proof (cases s)
  case (Cons b t)
  then show ?thesis
    using is_ascii_digit_no_space [OF assms] by (cases t) simp_all
qed (use is_ascii_digit_no_space [OF assms] in simp)

lemma trim_digit_ends:
  assumes "is_ascii_digit a" and "is_ascii_digit b"
  shows "trim (a # s @ [b]) = a # s @ [b]"
  using assms by (simp add: trim_def trim_start_id trim_start_rev_id)

lemma u64_from_str_digits:
  assumes "list_all is_ascii_digit s" and "s \<noteq> []" and "digits_val s < 2 ^ 64"
  shows "u64_from_str s = Some (of_nat (digits_val s))"
proof -
  obtain c r where s: "s = c # r" using assms(2) by (cases s) auto
  then have "is_ascii_digit c" using assms(1) by simp
  then have "c \<noteq> CHR ''+''" by (auto simp: is_ascii_digit_def byte_of_def)
  then show ?thesis using assms s by (simp add: u64_from_str_def)
qed

lemma u64_from_str_digits_None:
  assumes "list_all is_ascii_digit s" and "2 ^ 64 \<le> digits_val s"
  shows "u64_from_str s = None"
proof (cases s)
  case (Cons c r)
  then have "is_ascii_digit c" using assms(1) by simp
  then have "c \<noteq> CHR ''+''" by (auto simp: is_ascii_digit_def byte_of_def)
  then show ?thesis using assms Cons by (simp add: u64_from_str_def)
qed (simp add: u64_from_str_def)

lemma length_take_chars: "length (take_chars n s) \<le> length s"
proof (induction n s rule: take_chars.induct)
  case (3 n c s)
  have "length (takeWhile is_continuation s) + length (dropWhile is_continuation s) = length s"
    by (metis length_append takeWhile_dropWhile_id)
  then show ?case using 3 by simp
qed simp_all

lemma take_chars_prefix: "\<exists>t. s = take_chars n s @ t"
proof (induction n s rule: take_chars.induct)
  case (3 n c s)
  then obtain t where "dropWhile is_continuation s = take_chars n (dropWhile is_continuation s) @ t"
    by blast
  then have "s = takeWhile is_continuation s @ take_chars n (dropWhile is_continuation s) @ t"
    by (metis takeWhile_dropWhile_id)
  then show ?case by auto
qed auto

section \<open>Trimming twice\<close>

lemma trim_start_idem [simp]: "trim_start (trim_start s) = trim_start s"
  by (induction s rule: trim_start.induct) auto

lemma trim_start_rev_idem [simp]: "trim_start_rev (trim_start_rev s) = trim_start_rev s"
  by (induction s rule: trim_start_rev.induct) auto

lemma trim_start_rev_suffix: "\<exists>u. s = u @ trim_start_rev s"
proof (induction s rule: trim_start_rev.induct)
  case (1 a b c s)
  then show ?case by (auto intro: exI [of _ "[]"] exI [of _ "[a]"] exI [of _ "[a, b]"] exI [of _ "[a, b, c]"]) (metis append_Cons append_Nil)+
qed auto

lemma trim_start_length: "length (trim_start s) \<le> length s"
  by (induction s rule: trim_start.induct) auto

lemma trim_start_fixed:
  "trim_start (a # b # c # s) = a # b # c # s \<longleftrightarrow> \<not> ws1 a \<and> \<not> ws2 a b \<and> \<not> ws3 a b c"
  "trim_start [a, b] = [a, b] \<longleftrightarrow> \<not> ws1 a \<and> \<not> ws2 a b" "trim_start [a] = [a] \<longleftrightarrow> \<not> ws1 a"
  using trim_start_length [of "b # c # s"] trim_start_length [of "c # s"] trim_start_length [of s]
  by (auto dest: arg_cong [where f = length])

lemma trim_start_prefix:
  assumes "trim_start (p @ u) = p @ u"
  shows "trim_start p = p"
proof (cases p rule: trim_start.cases)
  case (1 a b c s)
  then show ?thesis using assms by (simp add: trim_start_fixed del: trim_start.simps)
next
  case (2 a b)
  then show ?thesis using assms by (cases u) (auto simp: trim_start_fixed simp del: trim_start.simps)
next
  case (3 a)
  then show ?thesis
    using assms by (cases u rule: trim_start.cases) (auto simp: trim_start_fixed simp del: trim_start.simps)
qed simp

lemma trim_trim [simp]: "trim (trim s) = trim s"
proof -
  obtain u where u: "rev (trim_start s) = u @ trim_start_rev (rev (trim_start s))"
    using trim_start_rev_suffix by blast
  then have "trim_start s = trim s @ rev u" unfolding trim_def by (metis rev_append rev_rev_ident)
  then have "trim_start (trim s) = trim s" using trim_start_prefix by (metis trim_start_idem)
  moreover have "trim_start_rev (rev (trim s)) = rev (trim s)" by (simp add: trim_def)
  ultimately show ?thesis by (simp add: trim_def [of "trim s"])
qed

end
