(* ===== verification/Errors.thy ===== *)
theory Errors
  imports Text
begin

text \<open>
  The states of a payment (\<open>PaymentState\<close> of \<open>src/src/state.rs\<close>, with its names and its
  transition table) and the crate's error type (\<open>src/src/error.rs\<close>) with the text that
  \<open>Display\<close> prints for it.  Both are enumerations that every other component uses.
\<close>

section \<open>Payment states\<close>

datatype payment_state = Pending | Detected | Funded | Swept | Settled | Failed | Expired

fun as_str :: "payment_state \<Rightarrow> string" where
  "as_str Pending = ''pending''"
| "as_str Detected = ''detected''"
| "as_str Funded = ''funded''"
| "as_str Swept = ''swept''"
| "as_str Settled = ''settled''"
| "as_str Failed = ''failed''"
| "as_str Expired = ''expired''"

definition is_active :: "payment_state \<Rightarrow> bool" where
  "is_active s \<longleftrightarrow> s \<in> {Pending, Detected, Funded, Swept}"

fun can_transition :: "payment_state \<Rightarrow> payment_state \<Rightarrow> bool" where
  "can_transition Pending t = (t = Detected \<or> t = Expired \<or> t = Failed)"
| "can_transition Detected t = (t = Funded \<or> t = Failed)"
| "can_transition Funded t = (t = Swept \<or> t = Failed)"
| "can_transition Swept t = (t = Settled \<or> t = Failed)"
| "can_transition Failed t = (t = Detected \<or> t = Funded \<or> t = Swept)"
| "can_transition Expired t = (t = Detected)"
| "can_transition Settled t = False"

text \<open>The derived \<open>Debug\<close> form of a state, used by one error message.\<close>

fun state_debug :: "payment_state \<Rightarrow> string" where
  "state_debug Pending = ''Pending''"
| "state_debug Detected = ''Detected''"
| "state_debug Funded = ''Funded''"
| "state_debug Swept = ''Swept''"
| "state_debug Settled = ''Settled''"
| "state_debug Failed = ''Failed''"
| "state_debug Expired = ''Expired''"

lemma can_transition_Failed_iff: "can_transition s Failed \<longleftrightarrow> is_active s"
  by (cases s) (simp_all add: is_active_def)

lemma no_self_loop: "\<not> can_transition s s"
  by (cases s) simp_all

lemma as_str_inject: "as_str s = as_str t \<longleftrightarrow> s = t"
  by (cases s; cases t) simp_all

section \<open>Errors\<close>

datatype error =
    ErrChain string
  | ErrStore string
  | ErrCrypto string
  | ErrConfig string
  | InvalidTransition payment_state payment_state
  | NotFound string
  | Conflict string
  | Insufficient string
  | EventMissing string

fun error_display :: "error \<Rightarrow> string" where
  "error_display (ErrChain m) = ''chain: '' @ m"
| "error_display (ErrStore m) = ''store: '' @ m"
| "error_display (ErrCrypto m) = ''crypto: '' @ m"
| "error_display (ErrConfig m) = ''config: '' @ m"
| "error_display (InvalidTransition from to) =
     ''invalid state transition '' @ state_debug from @ '' -> '' @ state_debug to"
| "error_display (NotFound i) = ''payment '' @ i @ '' not found''"
| "error_display (Conflict i) = ''concurrent update of payment '' @ i"
| "error_display (Insufficient m) = ''insufficient funds: '' @ m"
| "error_display (EventMissing e) = ''expected event '' @ e @ '' not found in finalized block''"

type_synonym 'a res = "error + 'a"

end
