(* ===== verification/Units.thy ===== *)
theory Units
  imports Errors
begin

text \<open>
  \<open>src/src/units.rs\<close>: rao and TAO conversion, fee margins and slippage limits, all in integer
  arithmetic.  The intermediate products of the source are \<open>u128\<close> and are \<open>u128\<close> here.
  The theorems give the exact value of every function as a natural number, the round trip of
  the decimal format, and the one place where the sum \<open>BPS + bps\<close> wraps before it is widened.
\<close>

definition RAO_PER_TAO :: u64 where
  "RAO_PER_TAO = 1000000000"

definition BPS :: u64 where
  "BPS = 10000"

definition parse_amount :: "string \<Rightarrow> u64 res" where
  "parse_amount s0 =
     (let bad = ErrConfig (''invalid amount '' @ str_debug s0);
          s = trim s0;
          (int, frac) = (case split_once ''.'' s of None \<Rightarrow> (s, []) | Some p \<Rightarrow> p)
      in if int = [] \<and> frac = [] \<or> length frac > 9 \<or> \<not> list_all is_ascii_digit (int @ frac)
         then Inl bad
         else and_then (if int = [] then Inr 0 else ok_or bad (u64_from_str int)) (\<lambda>i.
              and_then (ok_or bad (u64_from_str (pad_right0 9 frac))) (\<lambda>frac_rao.
              ok_or bad (Option.bind (checked_mul i RAO_PER_TAO) (\<lambda>v. checked_add v frac_rao)))))"

definition format_amount :: "u64 \<Rightarrow> string" where
  "format_amount rao =
     show_nat (unat (rao div RAO_PER_TAO)) @ ''.'' @
     pad_left0 9 (show_nat (unat (rao mod RAO_PER_TAO)))"

definition add_bps_ceil :: "u64 \<Rightarrow> u64 \<Rightarrow> u64" where
  "add_bps_ceil val bps =
     (let v = (ucast val :: u128) * ucast (BPS + bps)
      in case u64_try_from (div_ceil v (ucast BPS)) of None \<Rightarrow> - 1 | Some x \<Rightarrow> x)"

definition funding_needed :: "u64 \<Rightarrow> u64 \<Rightarrow> u64 \<Rightarrow> u64 \<Rightarrow> u64" where
  "funding_needed fees margin_bps existential_deposit current_free =
     saturating_sub (saturating_add (add_bps_ceil fees margin_bps) existential_deposit) current_free"

definition buy_limit_price :: "u64 \<Rightarrow> u64 \<Rightarrow> u64" where
  "buy_limit_price current_price slippage_bps = max (add_bps_ceil current_price slippage_bps) 1"

definition alpha_value_in_tao :: "u64 \<Rightarrow> u64 \<Rightarrow> u64" where
  "alpha_value_in_tao alpha price =
     (case u64_try_from ((ucast alpha :: u128) * ucast price div ucast RAO_PER_TAO) of
        None \<Rightarrow> - 1 | Some x \<Rightarrow> x)"

definition spendable :: "u64 \<Rightarrow> u64 \<Rightarrow> u64 \<Rightarrow> u64" where
  "spendable free fee_reserve existential_deposit =
     saturating_sub (saturating_sub free fee_reserve) existential_deposit"

section \<open>Values\<close>

lemma unat_mul_u64: "unat ((ucast (a :: u64) :: u128) * ucast (b :: u64)) = unat a * unat b"
proof -
  have "unat a * unat b < 2 ^ 64 * 2 ^ 64"
    using unat_u64_less [of a] unat_u64_less [of b] by (intro mult_strict_mono') auto
  then show ?thesis by (simp add: unat_word_ariths)
qed

lemma unat_BPS [simp]: "unat BPS = 10000"
  by (simp add: BPS_def)

lemma unat_BPS_add: "unat bps + 10000 < 2 ^ 64 \<Longrightarrow> unat (BPS + bps) = 10000 + unat bps"
  by (simp add: BPS_def unat_word_ariths)

text \<open>The exact value, for every margin up to \<open>u64::MAX - 10000\<close>: the rounded-up product,
  saturated at \<open>u64::MAX\<close>.\<close>

lemma unat_add_bps_ceil:
  assumes "unat bps + 10000 < 2 ^ 64"
  shows "unat (add_bps_ceil val bps) =
           min ((unat val * (10000 + unat bps) + 9999) div 10000) (2 ^ 64 - 1)"
proof -
  let ?v = "(ucast val :: u128) * ucast (BPS + bps)"
  have v: "unat ?v = unat val * (10000 + unat bps)"
    using assms by (simp add: unat_mul_u64 unat_BPS_add)
  have "unat val * (10000 + unat bps) \<le> (2 ^ 64 - 1) * (2 ^ 64 - 1)"
    using unat_u64_less [of val] assms by (intro mult_le_mono) auto
  then have "unat (div_ceil ?v (ucast BPS)) = (unat val * (10000 + unat bps) + 9999) div 10000"
    by (subst unat_div_ceil) (simp_all add: v)
  then show ?thesis
    by (simp add: add_bps_ceil_def Let_def unat_u64_try_from)
qed

lemma add_bps_ceil_ge:
  assumes "unat bps + 10000 < 2 ^ 64"
  shows "val \<le> add_bps_ceil val bps"
proof -
  have "unat val * 10000 \<le> unat val * (10000 + unat bps)" by simp
  then have "unat val \<le> (unat val * (10000 + unat bps) + 9999) div 10000"
    by (simp add: less_eq_div_iff_mult_less_eq trans_le_add1 del: mult_le_mono2)
  then show ?thesis
    using unat_u64_less [of val] by (simp add: word_le_nat_alt unat_add_bps_ceil [OF assms])
qed

lemma RAO_PER_TAO_pos: "unat RAO_PER_TAO = 1000000000"
  by (simp add: RAO_PER_TAO_def)

lemma unat_div_mod_RAO:
  "unat (rao div RAO_PER_TAO) = unat rao div 1000000000"
  "unat (rao mod RAO_PER_TAO) = unat rao mod 1000000000"
  by (simp_all add: unat_div_distrib unat_mod_distrib RAO_PER_TAO_pos)

lemma frac_shape:
  defines "f \<equiv> \<lambda>rao. pad_left0 9 (show_nat (unat (rao mod RAO_PER_TAO)))"
  shows "length (f rao) = 9" and "list_all is_ascii_digit (f rao)"
    and "digits_val (f rao) = unat rao mod 1000000000"
proof -
  have "length (show_nat (unat (rao mod RAO_PER_TAO))) \<le> 9"
    by (rule length_show_nat) (simp_all add: unat_div_mod_RAO)
  then show "length (f rao) = 9" by (simp add: f_def length_pad_left0)
qed (simp_all add: f_def pad_left0_digits show_nat_digits unat_div_mod_RAO)

lemma dot_not_digit: "list_all is_ascii_digit s \<Longrightarrow> CHR ''.'' \<notin> set s"
  by (auto simp: list_all_iff is_ascii_digit_def byte_of_def)

lemma trim_format_amount: "trim (format_amount rao) = format_amount rao"
proof -
  let ?i = "show_nat (unat (rao div RAO_PER_TAO))"
  let ?f = "pad_left0 9 (show_nat (unat (rao mod RAO_PER_TAO)))"
  obtain a i' where i: "?i = a # i'" by (cases ?i) auto
  obtain f' b where f: "?f = f' @ [b]"
    using frac_shape(1) [of rao] by (cases ?f rule: rev_cases) auto
  have "is_ascii_digit a" "is_ascii_digit b"
    using show_nat_digits [of "unat (rao div RAO_PER_TAO)"] frac_shape(2) [of rao] i f by simp_all
  then have "trim (a # (i' @ ''.'' @ f') @ [b]) = a # (i' @ ''.'' @ f') @ [b]"
    by (rule trim_digit_ends)
  then show ?thesis by (simp add: format_amount_def i f)
qed

text \<open>C25: printing an amount and reading it back gives the same number of rao, for every
  \<open>u64\<close>: \<open>parse_amount\<close> inverts \<open>format_amount\<close>.\<close>

theorem parse_format_amount: "parse_amount (format_amount rao) = Inr rao"
proof -
  let ?i = "show_nat (unat (rao div RAO_PER_TAO))"
  let ?f = "pad_left0 9 (show_nat (unat (rao mod RAO_PER_TAO)))"
  have sp: "split_once ''.'' (format_amount rao) = Some (?i, ?f)"
    using split_once_char [OF dot_not_digit [OF show_nat_digits]] by (simp add: format_amount_def)
  have i: "u64_from_str ?i = Some (rao div RAO_PER_TAO)"
    using unat_u64_less [of "rao div RAO_PER_TAO"]
    by (subst u64_from_str_digits) (simp_all add: show_nat_digits)
  have f: "u64_from_str (pad_right0 9 ?f) = Some (rao mod RAO_PER_TAO)"
    using frac_shape [of rao] by (simp add: pad_right0_def u64_from_str_digits flip: unat_div_mod_RAO)
      (subst u64_from_str_digits, auto)
  have "unat rao div 1000000000 * 1000000000 + unat rao mod 1000000000 = unat rao" by simp
  moreover have "unat rao div 1000000000 * 1000000000 < 18446744073709551616"
    using unat_u64_less [of rao] div_times_less_eq_dividend [of "unat rao" 1000000000] by linarith
  ultimately have
    "Option.bind (checked_mul (rao div RAO_PER_TAO) RAO_PER_TAO)
       (\<lambda>v. checked_add v (rao mod RAO_PER_TAO)) = Some rao"
    by (simp add: checked_mul_def checked_add_def unat_div_mod_RAO RAO_PER_TAO_pos 
        unat_word_ariths(1,2) div_mult_mod_eq)
  then show ?thesis
    using frac_shape(1,2) [of rao]
    by (simp add: parse_amount_def Let_def trim_format_amount sp i f show_nat_digits)
qed

text \<open>What \<open>parse_amount\<close> splits a text into: the part before and after the first dot.\<close>

definition amount_parts :: "string \<Rightarrow> string \<times> string" where
  "amount_parts s = (case split_once ''.'' (trim s) of None \<Rightarrow> (trim s, []) | Some p \<Rightarrow> p)"

lemma of_nat_u64_result:
  "(if n < 2 ^ 64 then Inr (of_nat n :: u64) else Inl e) = Inr x \<longleftrightarrow> unat x = n"
proof (cases "n < 2 ^ 64")
  case True
  then have "unat (of_nat n :: u64) = n" by (simp add: unat_of_nat_u64)
  then show ?thesis using True by (auto intro: unsigned_word_eqI [where 'a = nat])
next
  case False
  then show ?thesis using unat_u64_less [of x] by auto
qed

lemma amount_parts_value:
  assumes "list_all is_ascii_digit ip" and "list_all is_ascii_digit frac" and "length frac \<le> 9"
  shows "and_then (if ip = [] then Inr 0 else ok_or bad (u64_from_str ip)) (\<lambda>i.
         and_then (ok_or bad (u64_from_str (pad_right0 9 frac))) (\<lambda>frac_rao.
         ok_or bad (Option.bind (checked_mul i RAO_PER_TAO) (\<lambda>v. checked_add v frac_rao)))) =
         (let n = digits_val ip * 1000000000 + digits_val frac * 10 ^ (9 - length frac)
          in if n < 2 ^ 64 then Inr (of_nat n :: u64) else Inl bad)"
proof -
  let ?f = "digits_val frac * 10 ^ (9 - length frac)"
  have "digits_val (pad_right0 9 frac) < 10 ^ length (pad_right0 9 frac)"
    using assms(2) by (intro digits_val_bound pad_right0_digits)
  moreover have "length (pad_right0 9 frac) = 9" using assms(3) by (simp add: pad_right0_def)
  ultimately have fb: "?f < 1000000000" by (simp add: digits_val_pad_right0)
  have "pad_right0 9 frac \<noteq> []" by (auto simp: pad_right0_def)
  then have f: "u64_from_str (pad_right0 9 frac) = Some (of_nat ?f)"
    using fb pad_right0_digits [OF assms(2), of 9]
    by (subst u64_from_str_digits) (simp_all add: digits_val_pad_right0)
  have uf: "unat (of_nat ?f :: u64) = ?f" using fb by (intro unat_of_nat_u64) linarith
  show ?thesis
  proof (cases "digits_val ip < 2 ^ 64")
    case True
    then have i: "(if ip = [] then Inr 0 else ok_or bad (u64_from_str ip)) = Inr (of_nat (digits_val ip))"
      using assms(1) by (simp add: u64_from_str_digits)
    have ui: "unat (of_nat (digits_val ip) :: u64) = digits_val ip"
      using True by (simp add: unat_of_nat_u64)
    show ?thesis
      using uf ui by (simp add: i f checked_mul_def checked_add_def RAO_PER_TAO_def Let_def
          unat_word_ariths(1,2) Option.bind_eq_None_conv)
  next
    case False
    then have "ip \<noteq> []" by auto
    then show ?thesis
      using False assms(1) by (simp add: u64_from_str_digits_None Let_def)
  qed
qed

lemma parse_amount_iff:
  "parse_amount s = Inr x \<longleftrightarrow>
     (let (ip, frac) = amount_parts s in
      ip @ frac \<noteq> [] \<and> length frac \<le> 9 \<and>
      list_all is_ascii_digit ip \<and> list_all is_ascii_digit frac \<and>
      unat x = digits_val ip * 10 ^ 9 + digits_val frac * 10 ^ (9 - length frac))"
proof -
  obtain ip frac where p: "amount_parts s = (ip, frac)" by force
  let ?n = "digits_val ip * 1000000000 + digits_val frac * 10 ^ (9 - length frac)"
  show ?thesis
    using amount_parts_value [of ip frac "ErrConfig (''invalid amount '' @ str_debug s)"] p
      of_nat_u64_result [of ?n "ErrConfig (''invalid amount '' @ str_debug s)" x]
    by (auto simp: parse_amount_def amount_parts_def Let_def split: if_splits)
qed

text \<open>C26: \<open>parse_amount\<close> accepts exactly the decimals with at most nine fraction digits whose
  value fits, and returns that value: the text before the dot in whole units plus the text
  after it, scaled to nine digits.\<close>

theorem parse_amount_spec:
  "parse_amount s = Inr x \<longleftrightarrow>
     (let (ip, frac) = amount_parts s in
      ip @ frac \<noteq> [] \<and> length frac \<le> 9 \<and>
      list_all is_ascii_digit ip \<and> list_all is_ascii_digit frac \<and>
      unat x = digits_val ip * 10 ^ 9 + digits_val frac * 10 ^ (9 - length frac))"
  by (rule parse_amount_iff)

section \<open>Fees, prices and reserves\<close>

text \<open>The margin arithmetic is exact: for every margin that does not overflow \<open>BPS + bps\<close>
  the result is the product rounded up and saturated at \<open>u64::MAX\<close>, and never below the
  value itself.\<close>

theorem add_bps_ceil_exact:
  assumes "unat bps + 10000 < 2 ^ 64"
  shows "unat (add_bps_ceil val bps) =
           min ((unat val * (10000 + unat bps) + 9999) div 10000) (2 ^ 64 - 1) \<and>
         val \<le> add_bps_ceil val bps"
  using unat_add_bps_ceil [OF assms] add_bps_ceil_ge [OF assms] by blast

theorem add_bps_ceil_exact_witness:
  "unat (5000 :: u64) + 10000 < 2 ^ 64 \<and> unat (add_bps_ceil 1001 5000) = 1502"
  using add_bps_ceil_exact [of 5000 1001] by simp



text \<open>What the treasury sends is exactly what is missing: together with what the wallet
  holds it covers the fees with their margin plus the existential deposit, nothing is sent to
  a wallet that already holds that much, and no more than the difference is sent.\<close>

theorem funding_needed_covers:
  assumes "unat margin + 10000 < 2 ^ 64"
    and "(unat fees * (10000 + unat margin) + 9999) div 10000 + unat ed < 2 ^ 64"
  shows "unat (funding_needed fees margin ed free) =
           (unat fees * (10000 + unat margin) + 9999) div 10000 + unat ed - unat free \<and>
         (funding_needed fees margin ed free = 0 \<longleftrightarrow>
           (unat fees * (10000 + unat margin) + 9999) div 10000 + unat ed \<le> unat free) \<and>
         unat fees + unat ed \<le> unat free + unat (funding_needed fees margin ed free)"
proof -
  let ?t = "(unat fees * (10000 + unat margin) + 9999) div 10000"
  have v: "unat (funding_needed fees margin ed free) = ?t + unat ed - unat free"
    using assms by (simp add: funding_needed_def unat_saturating_sub unat_saturating_add unat_add_bps_ceil)
  have "unat fees \<le> ?t"
    using add_bps_ceil_ge [OF assms(1), of fees] assms(2)
    by (simp add: word_le_nat_alt unat_add_bps_ceil [OF assms(1)])
  moreover have "funding_needed fees margin ed free = 0 \<longleftrightarrow> unat (funding_needed fees margin ed free) = 0"
    by (simp add: unat_eq_zero)
  ultimately show ?thesis using v by simp
qed

theorem funding_needed_covers_witness:
  "unat (5000 :: u64) + 10000 < 2 ^ 64 \<and>
   (unat (200000 :: u64) * (10000 + unat (5000 :: u64)) + 9999) div 10000 + unat (500 :: u64) < 2 ^ 64 \<and>
   unat (funding_needed 200000 5000 500 300000) = 500"
  using funding_needed_covers [of 5000 200000 500 300000] by simp

text \<open>The worst price a purchase accepts is at least one rao and at least the current
  price, and exceeds it by no more than the slippage rounded up.\<close>

theorem buy_limit_price_bounds:
  assumes "unat slippage + 10000 < 2 ^ 64"
  shows "1 \<le> buy_limit_price price slippage \<and> price \<le> buy_limit_price price slippage \<and>
         unat (buy_limit_price price slippage) \<le>
           max 1 ((unat price * (10000 + unat slippage) + 9999) div 10000)"
  using add_bps_ceil_ge [OF assms, of price]
  by (auto simp: buy_limit_price_def unat_max_word unat_add_bps_ceil [OF assms] le_max_iff_disj)

theorem buy_limit_price_bounds_witness:
  "unat (100 :: u64) + 10000 < 2 ^ 64 \<and> 20000000 \<le> buy_limit_price 20000000 100 \<and>
   unat (buy_limit_price 20000000 100) \<le> 20200000"
  using buy_limit_price_bounds [of 100 20000000] by simp

text \<open>What a budgeted job may spend leaves the fee reserve and the existential deposit in
  the treasury: the three add up to the free balance unless nothing may be spent at all.\<close>

theorem spendable_keeps_reserve:
  "unat (spendable free reserve ed) = unat free - unat reserve - unat ed \<and>
   (spendable free reserve ed = 0 \<or>
    unat (spendable free reserve ed) + unat reserve + unat ed = unat free)"
proof -
  have "unat (spendable free reserve ed) = unat free - unat reserve - unat ed"
    by (simp add: spendable_def unat_saturating_sub)
  then show ?thesis by (auto simp: unat_eq_zero [symmetric])
qed

end
