(* ===== verification/Chain_Calls.thy ===== *)
theory Chain_Calls
  imports Units
begin

unbundle bit_operations_syntax

text \<open>
  The data model and the pure functions of the chain client, \<open>src/src/chain.rs\<close>: the calls the
  crate submits with their pallet, name, arguments, amount and expected event, the journal
  entry \<open>PendingTx\<close>, prepared and finalized transactions, the numbers read from events,
  network names, URL redaction and fixed-point prices; and \<open>Action\<close> of
  \<open>src/src/engine.rs\<close>, the reason a journaled extrinsic was sent.  An \<open>AccountId32\<close> is its
  32 bytes.
\<close>

type_synonym account_id = "u8 list"

section \<open>Calls and events the crate relies on\<close>

definition PALLET :: string where
  "PALLET = ''SubtensorModule''"

definition REQUIRED_CALLS :: "(string \<times> string \<times> string list) list" where
  "REQUIRED_CALLS =
     [(''Balances'', ''transfer_keep_alive'', [''dest'', ''value'']),
      (''Balances'', ''transfer_all'', [''dest'', ''keep_alive'']),
      (PALLET, ''transfer_stake'',
        [''destination_coldkey'', ''hotkey'', ''origin_netuid'', ''destination_netuid'', ''alpha_amount'']),
      (PALLET, ''move_stake'',
        [''origin_hotkey'', ''destination_hotkey'', ''origin_netuid'', ''destination_netuid'', ''alpha_amount'']),
      (PALLET, ''add_stake_limit'',
        [''hotkey'', ''netuid'', ''amount_staked'', ''limit_price'', ''allow_partial'']),
      (PALLET, ''burn_alpha'', [''hotkey'', ''amount'', ''netuid'']),
      (PALLET, ''recycle_alpha'', [''hotkey'', ''amount'', ''netuid'']),
      (PALLET, ''try_associate_hotkey'', [''hotkey''])]"

definition REQUIRED_EVENTS :: "(string \<times> string) list" where
  "REQUIRED_EVENTS =
     [(''Balances'', ''Transfer''),
      (PALLET, ''StakeTransferred''),
      (PALLET, ''StakeMoved''),
      (PALLET, ''StakeAdded''),
      (PALLET, ''AlphaBurned''),
      (PALLET, ''AlphaRecycled'')]"

text \<open>The arguments are in the order of the fields of the Rust variants: destination (coldkey),
  hotkeys, subnet, amount, and for \<open>AddStakeLimit\<close> the limit price and \<open>allow_partial\<close>.\<close>

datatype chain_call =
    TransferTao account_id u64
  | TransferAll account_id
  | TransferStake account_id account_id u16 u64
  | MoveStake account_id account_id u16 u64
  | AddStakeLimit account_id u16 u64 u64 bool
  | AssociateHotkey account_id
  | BurnAlpha account_id u16 u64
  | RecycleAlpha account_id u16 u64

fun call_name :: "chain_call \<Rightarrow> string" where
  "call_name (TransferTao _ _) = ''transfer_keep_alive''"
| "call_name (TransferAll _) = ''transfer_all''"
| "call_name (TransferStake _ _ _ _) = ''transfer_stake''"
| "call_name (MoveStake _ _ _ _) = ''move_stake''"
| "call_name (AddStakeLimit _ _ _ _ _) = ''add_stake_limit''"
| "call_name (BurnAlpha _ _ _) = ''burn_alpha''"
| "call_name (RecycleAlpha _ _ _) = ''recycle_alpha''"
| "call_name (AssociateHotkey _) = ''try_associate_hotkey''"

fun expected_event :: "chain_call \<Rightarrow> string \<times> string" where
  "expected_event (TransferTao _ _) = (''Balances'', ''Transfer'')"
| "expected_event (TransferAll _) = (''Balances'', ''Transfer'')"
| "expected_event (TransferStake _ _ _ _) = (PALLET, ''StakeTransferred'')"
| "expected_event (MoveStake _ _ _ _) = (PALLET, ''StakeMoved'')"
| "expected_event (AddStakeLimit _ _ _ _ _) = (PALLET, ''StakeAdded'')"
| "expected_event (BurnAlpha _ _ _) = (PALLET, ''AlphaBurned'')"
| "expected_event (RecycleAlpha _ _ _) = (PALLET, ''AlphaRecycled'')"
| "expected_event (AssociateHotkey _) = (''System'', ''ExtrinsicSuccess'')"

fun call_amount :: "chain_call \<Rightarrow> u64" where
  "call_amount (TransferTao _ a) = a"
| "call_amount (TransferStake _ _ _ a) = a"
| "call_amount (MoveStake _ _ _ a) = a"
| "call_amount (BurnAlpha _ _ a) = a"
| "call_amount (RecycleAlpha _ _ a) = a"
| "call_amount (AddStakeLimit _ _ t _ _) = t"
| "call_amount (TransferAll _) = 0"
| "call_amount (AssociateHotkey _) = 0"

text \<open>Dynamic argument values, as far as the payloads use them.\<close>

datatype scale_value = VBytes "u8 list" | VVariant string "scale_value list" | VU128 u128 | VBool bool

fun payload :: "chain_call \<Rightarrow> string \<times> string \<times> scale_value list" where
  "payload (TransferTao d a) =
     (''Balances'', call_name (TransferTao d a), [VVariant ''Id'' [VBytes d], VU128 (ucast a)])"
| "payload (TransferAll d) =
     (''Balances'', call_name (TransferAll d), [VVariant ''Id'' [VBytes d], VBool False])"
| "payload (TransferStake c h n a) =
     (PALLET, call_name (TransferStake c h n a),
      [VBytes c, VBytes h, VU128 (ucast n), VU128 (ucast n), VU128 (ucast a)])"
| "payload (MoveStake f t n a) =
     (PALLET, call_name (MoveStake f t n a),
      [VBytes f, VBytes t, VU128 (ucast n), VU128 (ucast n), VU128 (ucast a)])"
| "payload (AddStakeLimit h n t l p) =
     (PALLET, call_name (AddStakeLimit h n t l p),
      [VBytes h, VU128 (ucast n), VU128 (ucast t), VU128 (ucast l), VBool p])"
| "payload (AssociateHotkey h) = (PALLET, call_name (AssociateHotkey h), [VBytes h])"
| "payload (BurnAlpha h n a) =
     (PALLET, call_name (BurnAlpha h n a), [VBytes h, VU128 (ucast a), VU128 (ucast n)])"
| "payload (RecycleAlpha h n a) =
     (PALLET, call_name (RecycleAlpha h n a), [VBytes h, VU128 (ucast a), VU128 (ucast n)])"

section \<open>Actions, journal entries and transactions\<close>

datatype action =
    Fund
  | Sweep string
  | Consolidate string
  | ReturnDust
  | BuyStake u16 u64
  | Destroy u16 bool

fun action_name :: "action \<Rightarrow> string" where
  "action_name Fund = ''transfer_keep_alive''"
| "action_name (Sweep _) = ''transfer_stake''"
| "action_name (Consolidate _) = ''move_stake''"
| "action_name ReturnDust = ''transfer_all''"
| "action_name (BuyStake _ _) = ''add_stake_limit''"
| "action_name (Destroy _ recycle) = (if recycle then ''recycle_alpha'' else ''burn_alpha'')"

record tx_ref =
  tr_action :: string
  tr_tx_hash :: string
  tr_block_hash :: string
  tr_amount :: u64

record event_summary =
  es_names :: "(string \<times> string) list"
  es_failed :: bool
  es_stake_added :: "(u64 \<times> u64) option"
  es_alpha_destroyed :: "u64 option"
  es_stake_moved_tao :: "u64 option"
  es_transferred :: "u64 option"

definition empty_summary :: event_summary where
  "empty_summary = \<lparr>es_names = [], es_failed = False, es_stake_added = None,
     es_alpha_destroyed = None, es_stake_moved_tao = None, es_transferred = None\<rparr>"

definition summary_has :: "event_summary \<Rightarrow> string \<Rightarrow> string \<Rightarrow> bool" where
  "summary_has s pallet name \<longleftrightarrow> list_ex (\<lambda>(p, n). p = pallet \<and> n = name) (es_names s)"

record finalized_tx =
  ft_tx :: tx_ref
  ft_summary :: event_summary

record pending_tx =
  pd_action :: action
  pd_reservation :: "string option"
  pd_signer :: string
  pd_nonce :: u64
  pd_tx_hash :: string
  pd_birth_block :: u64
  pd_amount :: u64

record prepared_tx =
  pp_call :: chain_call
  pp_signer :: string
  pp_nonce :: u64
  pp_tx_hash :: string
  pp_birth_block :: u64
  pp_bytes :: "u8 list"

definition MORTALITY :: u64 where
  "MORTALITY = 64"

datatype pending_outcome = Wait | Dead | Included string event_summary

record stake_position =
  sp_hotkey :: account_id
  sp_netuid :: u16
  sp_alpha :: u64

section \<open>Networks and URLs\<close>

datatype network = Finney | Testnet | Local | Custom string

fun network_url :: "network \<Rightarrow> string" where
  "network_url Finney = ''wss://entrypoint-finney.opentensor.ai:443''"
| "network_url Testnet = ''wss://test.finney.opentensor.ai:443''"
| "network_url Local = ''ws://127.0.0.1:9944''"
| "network_url (Custom u) = u"

definition network_from_str :: "string \<Rightarrow> network res" where
  "network_from_str s =
     (if s = ''finney'' \<or> s = ''mainnet'' then Inr Finney
      else if s = ''test'' \<or> s = ''testnet'' then Inr Testnet
      else if s = ''local'' \<or> s = ''localnet'' then Inr Local
      else if starts_with ''ws://'' s \<or> starts_with ''wss://'' s then Inr (Custom s)
      else Inl (ErrConfig (''unknown network '' @ str_debug s)))"

text \<open>\<open>rest.split(['/', '?', '#']).next()\<close> and \<open>host.rsplit('@').next()\<close> always give a piece.\<close>

definition redact_url :: "string \<Rightarrow> string" where
  "redact_url url =
     (case split_once ''://'' url of
        None \<Rightarrow> ''<invalid url>''
      | Some (scheme, rest) \<Rightarrow>
          (let host = takeWhile (\<lambda>c. c \<notin> {CHR ''/'', CHR ''?'', CHR ''#''}) rest;
               host = rev (takeWhile (\<lambda>c. c \<noteq> CHR ''@'') (rev host))
           in scheme @ ''://'' @ host))"

text \<open>The signer of an extrinsic: only the \<open>Id\<close> variant (tag 0) of a \<open>MultiAddress\<close>.\<close>

fun signer_of :: "u8 list \<Rightarrow> account_id option" where
  "signer_of (t # rest) = (if t = 0 \<and> length rest = 32 then Some rest else None)"
| "signer_of [] = None"

definition fixed_bits_to_rao :: "u128 \<Rightarrow> u32 \<Rightarrow> u64" where
  "fixed_bits_to_rao bits frac =
     (let whole = drop_bit (unat frac) bits;
          part = bits AND (push_bit (unat frac) 1 - 1);
          rao = saturating_add (saturating_mul whole (ucast RAO_PER_TAO))
                  (drop_bit (unat frac) (part * ucast RAO_PER_TAO))
      in case u64_try_from rao of None \<Rightarrow> - 1 | Some x \<Rightarrow> x)"

section \<open>Properties\<close>

text \<open>What is submitted is what the runtime metadata was checked for: the pallet and the
  name of every payload are an entry of \<open>REQUIRED_CALLS\<close>, with one argument for every declared
  argument name, and the event the engine waits for is an entry of \<open>REQUIRED_EVENTS\<close>
  (association emits none).\<close>

theorem payload_matches_required:
  "\<exists>args. (fst (payload c), call_name c, args) \<in> set REQUIRED_CALLS \<and>
          fst (snd (payload c)) = call_name c \<and> length (snd (snd (payload c))) = length args \<and>
          (expected_event c \<in> set REQUIRED_EVENTS \<or> (\<exists>h. c = AssociateHotkey h))"
  by (cases c) (simp_all add: REQUIRED_CALLS_def REQUIRED_EVENTS_def PALLET_def)

lemma mask_part: "unat (bits AND (push_bit n 1 - 1)) = unat bits mod 2 ^ n" for bits :: u128
proof -
  have "(push_bit n 1 - 1 :: u128) = mask n" by (simp add: mask_eq_exp_minus_1 push_bit_eq_mult)
  then have "bits AND (push_bit n 1 - 1) = take_bit n bits" by (simp add: take_bit_eq_mask)
  moreover have "unat (take_bit n bits) = take_bit n (unat bits)" by (rule unsigned_take_bit_eq)
  ultimately show ?thesis by (simp add: take_bit_nat_def)
qed

lemma mult_div_split: "0 < k \<Longrightarrow> (w * k + p) * m div k = w * m + p * m div k" for k :: nat
  using div_mult_self1 [of k "p * m" "w * m"] by (simp add: algebra_simps)

text \<open>C28: the moving price (an \<open>I96F32\<close>, so 32 fraction bits) is converted exactly: the floor
  of the product with 1e9, saturated at \<open>u64::MAX\<close>; no intermediate step overflows.\<close>

theorem fixed_bits_to_rao_exact:
  "unat (fixed_bits_to_rao bits 32) = min (unat bits * 1000000000 div 2 ^ 32) (2 ^ 64 - 1)"
proof -
  let ?w = "unat bits div 2 ^ 32" and ?p = "unat bits mod 2 ^ 32"
  have lt: "unat bits < 2 ^ 128" using unsigned_less [of bits] by simp
  have w: "unat (drop_bit 32 bits) = ?w" by (simp only: unat_drop_bit_eq drop_bit_nat_def)
  have wb: "?w * 1000000000 < 2 ^ 128 - 2 ^ 64"
    using lt by (simp add: less_mult_imp_div_less)
  have p: "unat ((bits AND (push_bit 32 1 - 1)) * ucast RAO_PER_TAO) = ?p * 1000000000"
    by (simp only: unat_word_ariths(2) mask_part unat_ucast_u64_u128 RAO_PER_TAO_pos) simp
  have e: "unat bits * 1000000000 div 2 ^ 32 = ?w * 1000000000 + ?p * 1000000000 div 2 ^ 32"
    using mult_div_split [of "2 ^ 32" ?w ?p 1000000000] by (simp only: div_mult_mod_eq) simp
  have "unat (drop_bit 32 ((bits AND (push_bit 32 1 - 1)) * ucast RAO_PER_TAO)) =
          ?p * 1000000000 div 2 ^ 32"
    by (simp only: unat_drop_bit_eq drop_bit_nat_def p)
  moreover have "unat (saturating_mul (drop_bit 32 bits) (ucast RAO_PER_TAO)) = ?w * 1000000000"
    using wb by (simp only: unat_saturating_mul w unat_ucast_u64_u128 RAO_PER_TAO_pos) simp
  moreover have "?p * 1000000000 div 2 ^ 32 < 2 ^ 64" by (simp add: less_mult_imp_div_less)
  ultimately have "unat (saturating_add (saturating_mul (drop_bit 32 bits) (ucast RAO_PER_TAO))
      (drop_bit 32 ((bits AND (push_bit 32 1 - 1)) * ucast RAO_PER_TAO))) =
      unat bits * 1000000000 div 2 ^ 32"
    using wb by (simp only: unat_saturating_add e) simp
  moreover have "unat (32 :: u32) = 32" by simp
  ultimately show ?thesis
    by (simp only: fixed_bits_to_rao_def Let_def unat_u64_try_from)
qed

text \<open>A redacted URL shows a scheme and a host only: nothing after the host survives, and
  neither does a user or password in front of it.\<close>

theorem redact_url_hides:
  assumes "split_once ''://'' url = Some (scheme, rest)"
  shows "\<exists>host. redact_url url = scheme @ ''://'' @ host \<and>
           set host \<inter> {CHR ''/'', CHR ''?'', CHR ''#'', CHR ''@''} = {}"
proof -
  let ?h = "takeWhile (\<lambda>c. c \<notin> {CHR ''/'', CHR ''?'', CHR ''#''}) rest"
  let ?g = "rev (takeWhile (\<lambda>c. c \<noteq> CHR ''@'') (rev ?h))"
  have "set ?g \<subseteq> set ?h" by (auto dest: set_takeWhileD)
  then have "set ?g \<inter> {CHR ''/'', CHR ''?'', CHR ''#'', CHR ''@''} = {}"
    by (fastforce dest: set_takeWhileD)
  then show ?thesis using assms by (auto simp: redact_url_def Let_def)
qed

theorem redact_url_hides_witness:
  "split_once ''://'' ''wss://u:pw@h:443/x?key=abc'' = Some (''wss'', ''u:pw@h:443/x?key=abc'') \<and>
   redact_url ''wss://u:pw@h:443/x?key=abc'' = ''wss://h:443'' \<and>
   (\<exists>host. redact_url ''wss://u:pw@h:443/x?key=abc'' = ''wss'' @ ''://'' @ host \<and>
      set host \<inter> {CHR ''/'', CHR ''?'', CHR ''#'', CHR ''@''} = {})"
proof -
  have s: "split_once ''://'' ''wss://u:pw@h:443/x?key=abc'' = Some (''wss'', ''u:pw@h:443/x?key=abc'')"
    by (simp add: starts_with_def)
  show ?thesis
    using s redact_url_hides [OF s] by (simp add: redact_url_def)
qed

end
