(* ===== verification/Keys.thy ===== *)
theory Keys
  imports Chain_Calls
begin

text \<open>
  \<open>src/src/keys.rs\<close>: addresses, master keys, the keyring of versioned data keys, sealed
  secrets, payment wallets and deterministic derivation.

  The cryptography itself is third-party code (subxt, bip39, schnorrkel, chacha20poly1305,
  hex).  It is the record \<open>'k crypto\<close> of functions that every definition takes; \<open>'k\<close> is the
  type of key pairs.  What a theorem needs of it is stated in the predicates \<open>aead_correct\<close>
  and \<open>hex_correct\<close>: opening what was sealed under the same key, nonce and associated data
  gives the plaintext back, and hexadecimal decoding inverts encoding.  Random bytes (nonces,
  entropy) are arguments.
\<close>

record 'k crypto =
  cr_ss58_encode :: "account_id \<Rightarrow> string"
  cr_ss58_decode :: "string \<Rightarrow> string + account_id"
  cr_hex_encode :: "u8 list \<Rightarrow> string"
  cr_hex_decode :: "string \<Rightarrow> u8 list option"
  cr_encrypt :: "u8 list \<Rightarrow> u8 list \<Rightarrow> u8 list \<Rightarrow> u8 list \<Rightarrow> u8 list option"
  cr_decrypt :: "u8 list \<Rightarrow> u8 list \<Rightarrow> u8 list \<Rightarrow> u8 list \<Rightarrow> u8 list option"
  cr_mnemonic_of_entropy :: "u8 list \<Rightarrow> string + string"
  cr_keypair_of_phrase :: "string \<Rightarrow> string + 'k"
  cr_keypair_of_mini :: "u8 list \<Rightarrow> 'k option"
  cr_account_id :: "'k \<Rightarrow> account_id"
  cr_entropy_of_phrase :: "string \<Rightarrow> u8 list option"
  cr_pbkdf2 :: "u8 list \<Rightarrow> u8 list \<Rightarrow> nat \<Rightarrow> nat \<Rightarrow> u8 list option"
  cr_junction :: "string \<Rightarrow> bool \<times> u8 list"
  cr_mini_valid :: "u8 list \<Rightarrow> bool"
  cr_hard_derive :: "u8 list \<Rightarrow> u8 list \<Rightarrow> u8 list"
  cr_keypair_of_uri :: "string \<Rightarrow> 'k option"

section \<open>Addresses\<close>

definition ss58 :: "'k crypto \<Rightarrow> account_id \<Rightarrow> string" where
  "ss58 cr account = cr_ss58_encode cr account"

definition parse_ss58 :: "'k crypto \<Rightarrow> string \<Rightarrow> account_id res" where
  "parse_ss58 cr s =
     map_err (\<lambda>e. ErrConfig (''bad ss58 address '' @ str_debug s @ '': '' @ e)) (cr_ss58_decode cr s)"

section \<open>Bytes and text\<close>

definition bytes_of :: "string \<Rightarrow> u8 list" where
  "bytes_of s = map (\<lambda>c. of_nat (byte_of c)) s"

definition text_of :: "u8 list \<Rightarrow> string" where
  "text_of b = map (\<lambda>w. char_of (unat w)) b"

text \<open>\<open>String::from_utf8\<close>: well-formed UTF-8, without surrogates or overlong forms.\<close>

definition cont :: "u8 \<Rightarrow> bool" where
  "cont b \<longleftrightarrow> 128 \<le> unat b \<and> unat b < 192"

definition lead2 :: "u8 \<Rightarrow> bool" where
  "lead2 a \<longleftrightarrow> 194 \<le> unat a \<and> unat a \<le> 223"

definition lead3 :: "u8 \<Rightarrow> u8 \<Rightarrow> bool" where
  "lead3 a b \<longleftrightarrow> cont b \<and>
     (unat a = 224 \<and> 160 \<le> unat b \<or> 225 \<le> unat a \<and> unat a \<le> 236 \<or>
      unat a = 237 \<and> unat b \<le> 159 \<or> unat a = 238 \<or> unat a = 239)"

definition lead4 :: "u8 \<Rightarrow> u8 \<Rightarrow> bool" where
  "lead4 a b \<longleftrightarrow> cont b \<and>
     (unat a = 240 \<and> 144 \<le> unat b \<or> 241 \<le> unat a \<and> unat a \<le> 243 \<or> unat a = 244 \<and> unat b \<le> 143)"

fun utf8_valid :: "u8 list \<Rightarrow> bool" where
  "utf8_valid [] = True"
| "utf8_valid (a # s) =
     (if unat a < 128 then utf8_valid s
      else case s of
        [] \<Rightarrow> False
      | b # s' \<Rightarrow>
          if lead2 a then cont b \<and> utf8_valid s'
          else (case s' of
              [] \<Rightarrow> False
            | c # s'' \<Rightarrow>
                if lead3 a b then cont c \<and> utf8_valid s''
                else (case s'' of
                    [] \<Rightarrow> False
                  | d # s''' \<Rightarrow> lead4 a b \<and> cont c \<and> cont d \<and> utf8_valid s''')))"

definition from_utf8 :: "u8 list \<Rightarrow> string option" where
  "from_utf8 b = (if utf8_valid b then Some (text_of b) else None)"

section \<open>Master keys and sealed secrets\<close>

record sealed_secret =
  ss_v :: u8
  ss_nonce :: string
  ss_ct :: string
  ss_kid :: "string option"

text \<open>A \<open>MasterKey\<close> is its 32 bytes.\<close>

type_synonym master_key = "u8 list"

fun trim_start_0x :: "string \<Rightarrow> string" where
  "trim_start_0x (a # b # s) = (if a = CHR ''0'' \<and> b = CHR ''x'' then trim_start_0x s else a # b # s)"
| "trim_start_0x s = s"

definition master_from_hex :: "'k crypto \<Rightarrow> string \<Rightarrow> master_key res" where
  "master_from_hex cr s =
     (case cr_hex_decode cr (trim_start_0x (trim s)) of
        Some b \<Rightarrow> if length b = 32 then Inr b else Inl (ErrConfig ''master key must be 32 bytes of hex'')
      | None \<Rightarrow> Inl (ErrConfig ''master key must be 32 bytes of hex''))"

definition master_to_hex :: "'k crypto \<Rightarrow> master_key \<Rightarrow> string" where
  "master_to_hex cr k = cr_hex_encode cr k"

definition master_seal ::
    "'k crypto \<Rightarrow> master_key \<Rightarrow> u8 list \<Rightarrow> u8 list \<Rightarrow> u8 list \<Rightarrow> sealed_secret res" where
  "master_seal cr key nonce plaintext aad =
     (case cr_encrypt cr key nonce aad plaintext of
        None \<Rightarrow> Inl (ErrCrypto ''encryption failed'')
      | Some ct \<Rightarrow> Inr \<lparr>ss_v = 1, ss_nonce = cr_hex_encode cr nonce, ss_ct = cr_hex_encode cr ct,
                       ss_kid = None\<rparr>)"

definition master_open :: "'k crypto \<Rightarrow> master_key \<Rightarrow> sealed_secret \<Rightarrow> u8 list \<Rightarrow> u8 list res" where
  "master_open cr key sealed aad =
     (if ss_v sealed \<noteq> 1
      then Inl (ErrCrypto (''unknown sealed version '' @ show_nat (unat (ss_v sealed))))
      else let bad = ErrCrypto ''corrupt sealed secret'' in
        and_then (ok_or bad (cr_hex_decode cr (ss_nonce sealed))) (\<lambda>nonce.
        if length nonce \<noteq> 24 then Inl bad
        else and_then (ok_or bad (cr_hex_decode cr (ss_ct sealed))) (\<lambda>ct.
             ok_or (ErrCrypto ''decryption failed (wrong key or tampered data)'')
               (cr_decrypt cr key nonce aad ct))))"

section \<open>Keyring\<close>

record keyring =
  kr_active :: string
  kr_keys :: "(string \<times> master_key) list"

definition DEFAULT_KEY_ID :: string where
  "DEFAULT_KEY_ID = ''k0''"

definition keyring_of_master :: "master_key \<Rightarrow> keyring" where
  "keyring_of_master key = \<lparr>kr_active = DEFAULT_KEY_ID, kr_keys = [(DEFAULT_KEY_ID, key)]\<rparr>"

definition key_id_ok :: "string \<Rightarrow> bool" where
  "key_id_ok k \<longleftrightarrow> k \<noteq> [] \<and>
     list_all (\<lambda>c. is_ascii_alphanumeric c \<or> c = CHR ''-'' \<or> c = CHR ''_'') k"

text \<open>Collecting pairs into a \<open>BTreeMap\<close>: a later entry replaces an earlier one with its key.\<close>

definition collect_keys :: "(string \<times> master_key) list \<Rightarrow> (string \<times> master_key) list" where
  "collect_keys ps = foldl (\<lambda>m (k, v). (k, v) # filter (\<lambda>e. fst e \<noteq> k) m) [] ps"

definition keyring_new :: "string \<Rightarrow> (string \<times> master_key) list \<Rightarrow> keyring res" where
  "keyring_new active pairs =
     (let keys = collect_keys pairs in
      if map_of keys active = None
      then Inl (ErrConfig (''active key id '' @ str_debug active @ '' is not in the keyring''))
      else if list_ex (\<lambda>(k, _). \<not> key_id_ok k) keys
      then Inl (ErrConfig ''key ids are [A-Za-z0-9_-]+'')
      else Inr \<lparr>kr_active = active, kr_keys = keys\<rparr>)"

fun parse_entries :: "'k crypto \<Rightarrow> string list \<Rightarrow> (string \<times> master_key) list res" where
  "parse_entries cr [] = Inr []"
| "parse_entries cr (part # parts) =
     and_then (ok_or (ErrConfig ''keyring entries are id:hex'') (split_once '':'' part)) (\<lambda>(i, h).
     and_then (master_from_hex cr h) (\<lambda>k.
     and_then (parse_entries cr parts) (\<lambda>rest. Inr ((trim i, k) # rest))))"

definition keyring_parse :: "'k crypto \<Rightarrow> string \<Rightarrow> string \<Rightarrow> keyring res" where
  "keyring_parse cr spec active =
     and_then (parse_entries cr (filter (\<lambda>p. p \<noteq> []) (map trim (split_char CHR '','' spec))))
       (keyring_new active)"

text \<open>
  \<open>self.keys[&self.active]\<close> panics when the active key is missing; \<open>keyring_wf\<close> below holds of
  every keyring that the constructors make, and the missing case is an error here.
\<close>

definition keyring_seal ::
    "'k crypto \<Rightarrow> keyring \<Rightarrow> u8 list \<Rightarrow> u8 list \<Rightarrow> u8 list \<Rightarrow> sealed_secret res" where
  "keyring_seal cr kr nonce plaintext aad =
     and_then (ok_or (ErrCrypto ''panic: no active key'') (map_of (kr_keys kr) (kr_active kr))) (\<lambda>key.
     and_then (master_seal cr key nonce plaintext aad) (\<lambda>s.
     Inr (s\<lparr>ss_kid := Some (kr_active kr)\<rparr>)))"

definition kid_of :: "sealed_secret \<Rightarrow> string" where
  "kid_of sealed = (case ss_kid sealed of None \<Rightarrow> DEFAULT_KEY_ID | Some k \<Rightarrow> k)"

definition keyring_open :: "'k crypto \<Rightarrow> keyring \<Rightarrow> sealed_secret \<Rightarrow> u8 list \<Rightarrow> u8 list res" where
  "keyring_open cr kr sealed aad =
     and_then (ok_or (ErrCrypto (''key id '' @ str_debug (kid_of sealed) @ '' is not in the keyring''))
                 (map_of (kr_keys kr) (kid_of sealed))) (\<lambda>key.
     master_open cr key sealed aad)"

definition keyring_reseal ::
    "'k crypto \<Rightarrow> keyring \<Rightarrow> u8 list \<Rightarrow> sealed_secret \<Rightarrow> u8 list \<Rightarrow> sealed_secret option res" where
  "keyring_reseal cr kr nonce sealed aad =
     (if kid_of sealed = kr_active kr then Inr None
      else and_then (keyring_open cr kr sealed aad) (\<lambda>plain.
           and_then (keyring_seal cr kr nonce plain aad) (\<lambda>s. Inr (Some s))))"

definition wallet_aad :: "string \<Rightarrow> string \<Rightarrow> u8 list" where
  "wallet_aad payment_id address =
     bytes_of (''bittensor-buyback/v1/'' @ payment_id @ ''/'' @ address)"

section \<open>Payment wallets\<close>

record 'k wallet =
  wl_secret :: "u8 list"
  wl_keypair :: 'k

definition wallet_from_phrase :: "'k crypto \<Rightarrow> string \<Rightarrow> 'k wallet res" where
  "wallet_from_phrase cr phrase =
     and_then (map_err ErrCrypto (cr_keypair_of_phrase cr phrase)) (\<lambda>kp.
     Inr \<lparr>wl_secret = bytes_of phrase, wl_keypair = kp\<rparr>)"

definition wallet_generate :: "'k crypto \<Rightarrow> u8 list \<Rightarrow> 'k wallet res" where
  "wallet_generate cr entropy =
     and_then (map_err ErrCrypto (cr_mnemonic_of_entropy cr entropy)) (wallet_from_phrase cr)"

definition wallet_from_mini_secret :: "'k crypto \<Rightarrow> u8 list \<Rightarrow> 'k wallet res" where
  "wallet_from_mini_secret cr mini =
     and_then (ok_or (ErrCrypto ''invalid mini secret'') (cr_keypair_of_mini cr mini)) (\<lambda>kp.
     Inr \<lparr>wl_secret = mini, wl_keypair = kp\<rparr>)"

definition wallet_from_secret_bytes :: "'k crypto \<Rightarrow> u8 list \<Rightarrow> 'k wallet res" where
  "wallet_from_secret_bytes cr bytes =
     (if length bytes = 32 then wallet_from_mini_secret cr bytes
      else and_then (ok_or (ErrCrypto ''sealed secret is not utf-8'') (from_utf8 bytes))
             (wallet_from_phrase cr))"

definition wallet_account_id :: "'k crypto \<Rightarrow> 'k wallet \<Rightarrow> account_id" where
  "wallet_account_id cr w = cr_account_id cr (wl_keypair w)"

definition wallet_seal_with ::
    "'k crypto \<Rightarrow> 'k wallet \<Rightarrow> keyring \<Rightarrow> u8 list \<Rightarrow> u8 list \<Rightarrow> sealed_secret res" where
  "wallet_seal_with cr w kr nonce aad = keyring_seal cr kr nonce (wl_secret w) aad"

definition wallet_unseal_with ::
    "'k crypto \<Rightarrow> keyring \<Rightarrow> sealed_secret \<Rightarrow> u8 list \<Rightarrow> 'k wallet res" where
  "wallet_unseal_with cr kr sealed aad =
     and_then (keyring_open cr kr sealed aad) (wallet_from_secret_bytes cr)"

section \<open>Deterministic derivation\<close>

type_synonym derivation_seed = "u8 list"

definition seed_from_phrase :: "'k crypto \<Rightarrow> string \<Rightarrow> derivation_seed res" where
  "seed_from_phrase cr phrase =
     (let bad = ErrConfig ''derivation seed is not a valid BIP39 mnemonic'' in
      and_then (ok_or bad (cr_entropy_of_phrase cr (trim phrase))) (\<lambda>entropy.
      and_then (ok_or bad (cr_pbkdf2 cr entropy (bytes_of ''mnemonic'') 2048 64)) (\<lambda>seed.
      Inr (take 32 seed))))"

fun split_dslash :: "string \<Rightarrow> string list" where
  "split_dslash (a # b # s) =
     (if a = CHR ''/'' \<and> b = CHR ''/'' then [] # split_dslash s
      else (case split_dslash (b # s) of [] \<Rightarrow> [[a]] | p # ps \<Rightarrow> (a # p) # ps))"
| "split_dslash [a] = [[a]]"
| "split_dslash [] = [[]]"

fun junctions_of :: "'k crypto \<Rightarrow> error \<Rightarrow> string list \<Rightarrow> u8 list list res" where
  "junctions_of cr bad [] = Inr []"
| "junctions_of cr bad (j # js) =
     (if j = [] \<or> CHR ''/'' \<in> set j then Inl bad
      else let (hard, inner) = cr_junction cr (CHR ''/'' # j) in
        if \<not> hard then Inl bad
        else and_then (junctions_of cr bad js) (\<lambda>rest. Inr (inner # rest)))"

definition hard_junctions :: "'k crypto \<Rightarrow> string \<Rightarrow> u8 list list res" where
  "hard_junctions cr path =
     (let bad = ErrConfig (''derivation path '' @ str_debug path @ '' must be //hard//junctions only'')
      in and_then (ok_or bad (strip_prefix ''//'' path)) (\<lambda>rest.
         junctions_of cr bad (split_dslash rest)))"

definition derive_mini :: "'k crypto \<Rightarrow> derivation_seed \<Rightarrow> string \<Rightarrow> u8 list res" where
  "derive_mini cr root path =
     and_then (hard_junctions cr path) (\<lambda>js.
     if \<not> cr_mini_valid cr root then Inl (ErrCrypto ''invalid root'')
     else Inr (foldl (cr_hard_derive cr) root js))"

definition seed_wallet :: "'k crypto \<Rightarrow> derivation_seed \<Rightarrow> string \<Rightarrow> 'k wallet res" where
  "seed_wallet cr root path = and_then (derive_mini cr root path) (wallet_from_mini_secret cr)"

definition keypair_from_uri :: "'k crypto \<Rightarrow> string \<Rightarrow> 'k res" where
  "keypair_from_uri cr uri = ok_or (ErrConfig ''invalid secret uri'') (cr_keypair_of_uri cr uri)"

section \<open>Assumptions on the cryptography\<close>

definition aead_correct :: "'k crypto \<Rightarrow> bool" where
  "aead_correct cr \<longleftrightarrow>
     (\<forall>key nonce aad msg ct. cr_encrypt cr key nonce aad msg = Some ct \<longrightarrow>
        cr_decrypt cr key nonce aad ct = Some msg)"

definition hex_correct :: "'k crypto \<Rightarrow> bool" where
  "hex_correct cr \<longleftrightarrow> (\<forall>b. cr_hex_decode cr (cr_hex_encode cr b) = Some b)"

definition ss58_correct :: "'k crypto \<Rightarrow> bool" where
  "ss58_correct cr \<longleftrightarrow> (\<forall>a. cr_ss58_decode cr (cr_ss58_encode cr a) = Inr a)"

definition keyring_wf :: "keyring \<Rightarrow> bool" where
  "keyring_wf kr \<longleftrightarrow> map_of (kr_keys kr) (kr_active kr) \<noteq> None \<and>
     list_all (\<lambda>(k, _). key_id_ok k) (kr_keys kr)"

section \<open>Properties\<close>

lemma keyring_of_master_wf: "keyring_wf (keyring_of_master key)"
  by (simp add: keyring_wf_def keyring_of_master_def DEFAULT_KEY_ID_def key_id_ok_def
      is_ascii_alphanumeric_def is_ascii_digit_def byte_of_def)

lemma keyring_new_wf: "keyring_new active pairs = Inr kr \<Longrightarrow> keyring_wf kr \<and> kr_active kr = active"
  by (auto simp: keyring_new_def keyring_wf_def Let_def list_ex_iff list_all_iff split: if_splits)

lemma master_roundtrip:
  assumes "aead_correct cr" and "hex_correct cr" and "length nonce = 24"
    and "master_seal cr key nonce plain aad = Inr s"
  shows "master_open cr key (s\<lparr>ss_kid := kid\<rparr>) aad = Inr plain"
  using assms
  by (auto simp: master_seal_def master_open_def aead_correct_def hex_correct_def Let_def
      split: option.splits)

lemma keyring_seal_kid: "keyring_seal cr kr nonce plain aad = Inr s \<Longrightarrow> kid_of s = kr_active kr"
  by (auto simp: keyring_seal_def result_simps kid_of_def)

text \<open>A keyring opens what another keyring sealed, as long as it still holds the key under the
  id that the sealed secret carries.\<close>

lemma keyring_roundtrip:
  assumes "aead_correct cr" and "hex_correct cr" and "length nonce = 24"
    and "keyring_seal cr kr nonce plain aad = Inr s"
    and "map_of (kr_keys kr') (kr_active kr) = map_of (kr_keys kr) (kr_active kr)"
  shows "keyring_open cr kr' s aad = Inr plain"
proof -
  obtain key s0 where k: "map_of (kr_keys kr) (kr_active kr) = Some key"
    and s0: "master_seal cr key nonce plain aad = Inr s0" "s = s0\<lparr>ss_kid := Some (kr_active kr)\<rparr>"
    using assms(4) by (auto simp: keyring_seal_def result_simps)
  have "master_open cr key s aad = Inr plain"
    using master_roundtrip [OF assms(1-3) s0(1)] s0(2) by simp
  then show ?thesis
    using k assms(5) s0(2) by (simp add: keyring_open_def kid_of_def)
qed

text \<open>C29: a wallet sealed by a keyring is opened again by any keyring that still holds that
  key, and after a rotation (\<open>reseal\<close> under a new active key) the secret is opened by a keyring
  that holds the new key only.\<close>

theorem keyring_rotation:
  assumes "aead_correct cr" and "hex_correct cr" and "length nonce = 24" and "length nonce' = 24"
    and "keyring_seal cr old nonce plain aad = Inr s"
    and "map_of (kr_keys new) (kr_active old) = map_of (kr_keys old) (kr_active old)"
    and "kr_active new \<noteq> kr_active old"
    and "keyring_reseal cr new nonce' s aad = Inr r"
    and "map_of (kr_keys later) (kr_active new) = map_of (kr_keys new) (kr_active new)"
  shows "keyring_open cr new s aad = Inr plain \<and>
         (\<exists>s'. r = Some s' \<and> kid_of s' = kr_active new \<and> keyring_open cr later s' aad = Inr plain \<and>
               keyring_reseal cr new nonce' s' aad = Inr None)"
proof -
  have o: "keyring_open cr new s aad = Inr plain"
    using keyring_roundtrip [OF assms(1,2,3,5,6)] .
  have k: "kid_of s = kr_active old" using keyring_seal_kid [OF assms(5)] .
  obtain s' where s': "r = Some s'" "keyring_seal cr new nonce' plain aad = Inr s'"
    using assms(7,8) o k by (auto simp: keyring_reseal_def result_simps)
  have "keyring_open cr later s' aad = Inr plain"
    using keyring_roundtrip [OF assms(1,2,4) s'(2) assms(9)] .
  then show ?thesis
    using o s' keyring_seal_kid [OF s'(2)] by (auto simp: keyring_reseal_def)
qed

section \<open>Trimming keeps text well-formed\<close>

lemma utf8_cases:
  assumes "utf8_valid (a # s)"
  obtains (one) "unat a < 128" "utf8_valid s"
  | (two) b s' where "\<not> unat a < 128" "s = b # s'" "lead2 a" "cont b" "utf8_valid s'"
  | (three) b c s' where "\<not> unat a < 128" "s = b # c # s'" "\<not> lead2 a" "lead3 a b" "cont b" "cont c" "utf8_valid s'"
  | (four) b c d s' where "\<not> unat a < 128" "s = b # c # d # s'" "\<not> lead2 a" "\<not> lead3 a b" "lead4 a b" "cont b" "cont c" "cont d" "utf8_valid s'"
  using assms [unfolded utf8_valid.simps(2)]
  by (auto split: if_splits list.splits simp: lead3_def lead4_def simp del: utf8_valid.simps(2))

lemma utf8_prefix:
  assumes "utf8_valid (s @ t)" and "t = [] \<or> \<not> cont (hd t)"
  shows "utf8_valid s"
  using assms(1)
proof (induction s rule: length_induct)
  case (1 s)
  show ?case
  proof (cases s)
    case (Cons a r)
    have "utf8_valid (a # (r @ t))" using 1(2) Cons by simp
    then show ?thesis
    proof (cases rule: utf8_cases)
      case one
      then show ?thesis using 1(1) Cons by simp
    next
      case (two b s')
      then show ?thesis using 1(1) Cons assms(2) by (cases r) auto
    next
      case (three b c s')
      then show ?thesis using 1(1) Cons assms(2)
        by (cases r; cases "tl r") auto
    next
      case (four b c d s')
      then show ?thesis using 1(1) Cons assms(2)
        by (cases r; cases "tl r"; cases "tl (tl r)") auto
    qed
  qed simp
qed


lemma bytes_of_simps [simp]:
  "bytes_of [] = []" "bytes_of (c # s) = of_nat (byte_of c) # bytes_of s" "bytes_of (s @ t) = bytes_of s @ bytes_of t"
  by (simp_all add: bytes_of_def)

lemma unat_byte [simp]: "unat (of_nat (byte_of c) :: u8) = byte_of c"
  by (simp add: byte_of_def unat_of_nat)

lemma utf8_one: "unat a < 128 \<Longrightarrow> utf8_valid (a # s) \<longleftrightarrow> utf8_valid s"
  and utf8_two: "lead2 a \<Longrightarrow> utf8_valid (a # b # s) \<longleftrightarrow> cont b \<and> utf8_valid s"
  and utf8_three: "lead3 a b \<Longrightarrow> utf8_valid (a # b # c # s) \<longleftrightarrow> cont c \<and> utf8_valid s"
  by (simp, simp add: lead2_def) (auto simp: lead2_def lead3_def simp del: utf8_valid.simps(2) simp: utf8_valid.simps(2) [of a])

lemma utf8_trim_start: "utf8_valid (bytes_of s) \<Longrightarrow> utf8_valid (bytes_of (trim_start s))"
proof (induction s rule: trim_start.induct)
  case (1 a b c s)
  note [simp del] = utf8_valid.simps(2)
  have "utf8_valid (bytes_of (b # c # s))" if "ws1 a" using 1(4) that by (auto simp: ws1_def utf8_one)
  moreover have "utf8_valid (bytes_of (c # s))" if "ws2 a b" using 1(4) that by (auto simp: ws2_def lead2_def utf8_two)
  moreover have "utf8_valid (bytes_of s)" if "ws3 a b c"
    using 1(4) that by (auto simp: ws3_def lead3_def cont_def utf8_three)
  ultimately show ?case using 1 by (simp del: bytes_of_simps(2))
next
  case (2 a b)
  then show ?case by (auto simp: utf8_one ws1_def simp del: utf8_valid.simps(2))
qed (auto simp del: utf8_valid.simps(2))

lemma utf8_drop_last:
  assumes "utf8_valid (bytes_of (s @ t))" and "t \<noteq> []" and "byte_of (hd t) < 128 \<or> 192 \<le> byte_of (hd t)"
  shows "utf8_valid (bytes_of s)"
  using utf8_prefix [of "bytes_of s" "bytes_of t"] assms by (cases t) (auto simp: cont_def)

lemma utf8_trim_end: "utf8_valid (bytes_of (rev s)) \<Longrightarrow> utf8_valid (bytes_of (rev (trim_start_rev s)))"
proof (induction s rule: trim_start_rev.induct)
  case (1 a b c s)
  have "utf8_valid (bytes_of (rev (b # c # s)))" if "ws1 a"
    using utf8_drop_last [of "rev (b # c # s)" "[a]"] 1(4) that by (auto simp: ws1_def)
  moreover have "utf8_valid (bytes_of (rev (c # s)))" if "ws2 b a"
    using utf8_drop_last [of "rev (c # s)" "[b, a]"] 1(4) that by (auto simp: ws2_def)
  moreover have "utf8_valid (bytes_of (rev s))" if "ws3 c b a"
    using utf8_drop_last [of "rev s" "[c, b, a]"] 1(4) that by (auto simp: ws3_def)
  ultimately show ?case using 1 by (simp del: utf8_valid.simps rev.simps bytes_of_simps)
next
  case (2 a b)
  then show ?case
    using utf8_drop_last [of "[b]" "[a]"] by (auto simp: ws1_def simp del: utf8_valid.simps(2))
qed (auto simp del: utf8_valid.simps(2))

lemma utf8_trim: "utf8_valid (bytes_of s) \<Longrightarrow> utf8_valid (bytes_of (trim s))"
  using utf8_trim_end [of "rev (trim_start s)"] utf8_trim_start [of s] by (simp add: trim_def)

section \<open>An instance\<close>

text \<open>A concrete instance of the cryptography, for the witnesses: the address, hexadecimal and
  phrase encodings copy their bytes, and a ciphertext is the key, nonce and associated data in
  front of the plaintext, checked on opening.\<close>

definition plain_crypto :: "account_id crypto" where
  "plain_crypto =
     \<lparr>cr_ss58_encode = text_of, cr_ss58_decode = (\<lambda>s. Inr (bytes_of s)),
      cr_hex_encode = text_of, cr_hex_decode = (\<lambda>s. Some (bytes_of s)),
      cr_encrypt = (\<lambda>key nonce aad msg. Some ((key @ nonce @ aad) @ msg)),
      cr_decrypt = (\<lambda>key nonce aad ct.
        let p = key @ nonce @ aad in
        if take (length p) ct = p then Some (drop (length p) ct) else None),
      cr_mnemonic_of_entropy = (\<lambda>e. Inr (text_of e)),
      cr_keypair_of_phrase = (\<lambda>s. Inr (bytes_of s)), cr_keypair_of_mini = Some,
      cr_account_id = id, cr_entropy_of_phrase = (\<lambda>s. Some (bytes_of s)),
      cr_pbkdf2 = (\<lambda>e salt rounds len. Some (take len (e @ replicate len 0))),
      cr_junction = (\<lambda>s. (True, bytes_of s)), cr_mini_valid = (\<lambda>_. True),
      cr_hard_derive = (\<lambda>a b. take 32 (b @ a)), cr_keypair_of_uri = (\<lambda>s. Some (bytes_of s))\<rparr>"

lemma bytes_of_text_of [simp]: "bytes_of (text_of b) = b"
proof -
  have "of_nat (byte_of (char_of (unat w))) = w" for w :: u8
  proof -
    have "unat w < 256" using unsigned_less [of w] by simp
    then show ?thesis by (simp add: byte_of_def)
  qed
  then show ?thesis by (simp add: bytes_of_def text_of_def comp_def)
qed

lemma text_of_bytes_of [simp]: "text_of (bytes_of s) = s"
  by (simp add: text_of_def bytes_of_def comp_def byte_of_def unat_of_nat)

lemma utf8_ascii: "list_all (\<lambda>b. unat b < 128) bs \<Longrightarrow> utf8_valid bs"
  by (induction bs) simp_all

lemma plain_crypto_correct:
  "aead_correct plain_crypto" "hex_correct plain_crypto" "ss58_correct plain_crypto"
  by (simp_all add: plain_crypto_def aead_correct_def hex_correct_def ss58_correct_def Let_def)

theorem keyring_rotation_witness:
  "let old = keyring_of_master [1]; new = \<lparr>kr_active = ''k1'', kr_keys = [(''k1'', [2]), (''k0'', [1])]\<rparr>;
       later = \<lparr>kr_active = ''k1'', kr_keys = [(''k1'', [2])]\<rparr>; n = replicate 24 7;
       s = \<lparr>ss_v = 1, ss_nonce = text_of n, ss_ct = text_of ([1] @ n @ [5] @ [9]), ss_kid = Some ''k0''\<rparr>;
       s' = \<lparr>ss_v = 1, ss_nonce = text_of n, ss_ct = text_of ([2] @ n @ [5] @ [9]), ss_kid = Some ''k1''\<rparr>
   in keyring_open plain_crypto new s [5] = Inr [9] \<and>
      (\<exists>r. Some s' = Some r \<and> kid_of r = kr_active new \<and> keyring_open plain_crypto later r [5] = Inr [9] \<and>
           keyring_reseal plain_crypto new n r [5] = Inr None)"
  unfolding Let_def
  by (rule keyring_rotation [where old = "keyring_of_master [1]" and nonce = "replicate 24 7"])
    (simp_all add: plain_crypto_correct, simp_all add: plain_crypto_def keyring_of_master_def keyring_seal_def
      master_seal_def keyring_reseal_def keyring_open_def master_open_def kid_of_def
      DEFAULT_KEY_ID_def Let_def)

end
