(* ===== verification/Payment.thy ===== *)
theory Payment
  imports Keys
begin

text \<open>
  The payment record and its state machine, \<open>src/src/state.rs\<close>, and the engine's configuration,
  \<open>src/src/config.rs\<close>.  The fields of \<open>PaymentRecord\<close> keep their names behind the prefix
  \<open>r_\<close>, those of \<open>Config\<close> behind \<open>c_\<close>.  \<open>transition\<close> and \<open>record_failure\<close> mutate the
  record in the code and return it here; a JSON value is its text.

  \<open>life\<close> is the relation of the changes of state a record can go through: the two operations
  of the record, in any order and with any arguments.
\<close>

type_synonym json = string

section \<open>Configuration\<close>

datatype destroy = Keep | Burn | Recycle

datatype auto_amount = AutoAll | Fixed u64 | PaymentValueBps u64

datatype auto_buyback = Off | On destroy auto_amount

section \<open>Receipts, budgets and identities\<close>

record buyback_receipt =
  br_netuid :: u16
  br_tao_spent :: u64
  br_alpha_bought :: u64
  br_limit_price :: u64
  br_stake_tx :: tx_ref
  br_destroy_tx :: "tx_ref option"
  br_alpha_destroyed :: u64

record buyback_budget =
  bb_amount_rao :: u64
  bb_currency :: string
  bb_source :: string
  bb_netuid :: u16
  bb_destroy :: destroy
  bb_hotkey :: string

definition MIN_STAKE_RAO :: u64 where
  "MIN_STAKE_RAO = 2000000"

definition budget_validate :: "'k crypto \<Rightarrow> buyback_budget \<Rightarrow> unit res" where
  "budget_validate cr b =
     and_then (parse_ss58 cr (bb_hotkey b)) (\<lambda>_.
     if bb_netuid b = 0 \<and> bb_destroy b \<noteq> Keep
        \<or> bb_amount_rao b < MIN_STAKE_RAO
        \<or> bb_currency b \<noteq> ''TAO''
        \<or> trim (bb_source b) = []
        \<or> 128 < length (bb_source b)
     then Inl (ErrConfig ''explicit TAO buyback budget/source required'')
     else Inr ())"

record job_identity =
  ji_genesis_hash :: string
  ji_treasury :: string
  ji_treasury_hotkey :: string
  ji_consolidate :: bool
  ji_return_dust :: bool

record config =
  c_url :: string
  c_netuid :: u16
  c_min_alpha :: u64
  c_min_tao :: "u64 option"
  c_expiry_secs :: u64
  c_treasury_hotkey :: account_id
  c_sweep_dust :: u64
  c_consolidate :: bool
  c_return_dust :: bool
  c_fee_margin_bps :: u64
  c_fee_reserve :: u64
  c_buyback_netuid :: u16
  c_slippage_bps :: u64
  c_allow_partial :: bool
  c_auto :: auto_buyback
  c_buyback_budget :: "buyback_budget option"
  c_max_attempts :: u32
  c_webhook_url :: "string option"

definition config_new :: "string \<Rightarrow> u16 \<Rightarrow> account_id \<Rightarrow> config" where
  "config_new url netuid treasury_hotkey =
     \<lparr>c_url = url, c_netuid = netuid, c_min_alpha = RAO_PER_TAO, c_min_tao = None,
      c_expiry_secs = 24 * 3600, c_treasury_hotkey = treasury_hotkey,
      c_sweep_dust = RAO_PER_TAO div 1000, c_consolidate = True, c_return_dust = True,
      c_fee_margin_bps = 5000, c_fee_reserve = RAO_PER_TAO div 10, c_buyback_netuid = 100,
      c_slippage_bps = 100, c_allow_partial = False, c_auto = Off, c_buyback_budget = None,
      c_max_attempts = 8, c_webhook_url = None\<rparr>"

section \<open>The payment record\<close>

record payment_record =
  r_id :: string
  r_address :: string
  r_netuid :: u16
  r_min_alpha :: u64
  r_min_tao :: "u64 option"
  r_created_at :: u64
  r_expires_at :: u64
  r_state :: payment_state
  r_version :: u64
  r_sealed_secret :: sealed_secret
  r_metadata :: "json option"
  r_callback_url :: "string option"
  r_detected_alpha :: u64
  r_detected_tao :: u64
  r_funded_tao :: u64
  r_swept_alpha :: u64
  r_txs :: "tx_ref list"
  r_buyback :: "buyback_receipt option"
  r_buyback_budget :: "buyback_budget option"
  r_auto_required :: "bool option"
  r_identity :: "job_identity option"
  r_attempts :: u32
  r_next_attempt_at :: u64
  r_last_error :: "string option"
  r_failed_from :: "payment_state option"
  r_pending :: "pending_tx option"
  r_quarantined :: "pending_tx option"
  r_swept_positions :: "(string \<times> u64) list"
  r_consolidated :: nat
  r_dust_returned :: bool
  r_buyback_done :: bool
  r_notified :: bool
  r_updated_at :: u64
  r_derivation_path :: "string option"

definition resume_ok :: "payment_record \<Rightarrow> payment_state \<Rightarrow> bool" where
  "resume_ok r to \<longleftrightarrow>
     r_state r \<noteq> Failed \<or> r_failed_from r = Some to \<or> r_failed_from r = Some Pending \<and> to = Detected"

definition transition :: "payment_state \<Rightarrow> payment_record \<Rightarrow> payment_record res" where
  "transition to r =
     (if \<not> can_transition (r_state r) to \<or> \<not> resume_ok r to
      then Inl (InvalidTransition (r_state r) to)
      else let r = (if to = Failed then r\<lparr>r_failed_from := Some (r_state r)\<rparr> else r);
               r = r\<lparr>r_state := to, r_attempts := 0, r_next_attempt_at := 0\<rparr>
           in Inr (if to \<noteq> Failed then r\<lparr>r_last_error := None\<rparr> else r))"

definition backoff :: "u32 \<Rightarrow> u64" where
  "backoff attempts = min (push_bit (unat (min attempts 7)) 5) 600"

definition record_failure :: "string \<Rightarrow> u32 \<Rightarrow> u64 \<Rightarrow> payment_record \<Rightarrow> payment_record" where
  "record_failure err max_attempts now r =
     (let r = r\<lparr>r_attempts := r_attempts r + 1\<rparr>;
          r = r\<lparr>r_last_error := Some (take_chars 500 err),
                r_next_attempt_at := now + backoff (r_attempts r)\<rparr>
      in if max_attempts \<le> r_attempts r \<and> can_transition (r_state r) Failed
         then r\<lparr>r_failed_from := Some (r_state r), r_state := Failed\<rparr>
         else r)"

record payment_status =
  ps_id :: string
  ps_address :: string
  ps_netuid :: u16
  ps_min_alpha :: u64
  ps_min_tao :: "u64 option"
  ps_created_at :: u64
  ps_expires_at :: u64
  ps_state :: payment_state
  ps_detected_alpha :: u64
  ps_detected_tao :: u64
  ps_funded_tao :: u64
  ps_swept_alpha :: u64
  ps_txs :: "tx_ref list"
  ps_buyback :: "buyback_receipt option"
  ps_last_error :: "string option"
  ps_metadata :: "json option"

definition record_status :: "payment_record \<Rightarrow> payment_status" where
  "record_status r =
     \<lparr>ps_id = r_id r, ps_address = r_address r, ps_netuid = r_netuid r,
      ps_min_alpha = r_min_alpha r, ps_min_tao = r_min_tao r, ps_created_at = r_created_at r,
      ps_expires_at = r_expires_at r, ps_state = r_state r,
      ps_detected_alpha = r_detected_alpha r, ps_detected_tao = r_detected_tao r,
      ps_funded_tao = r_funded_tao r, ps_swept_alpha = r_swept_alpha r, ps_txs = r_txs r,
      ps_buyback = r_buyback r, ps_last_error = r_last_error r, ps_metadata = r_metadata r\<rparr>"

record payment_request =
  pr_id :: string
  pr_address :: string
  pr_netuid :: u16
  pr_min_alpha :: u64
  pr_min_tao :: "u64 option"
  pr_expires_at :: u64

section \<open>Lifecycles\<close>

text \<open>The sources of a change of state: \<open>transition\<close>, \<open>record_failure\<close>, and any update that
  leaves the state and \<open>failed_from\<close> alone.\<close>

inductive life :: "payment_record \<Rightarrow> payment_record \<Rightarrow> bool" where
  life_transition: "transition to r = Inr r' \<Longrightarrow> life r r'"
| life_failure: "life r (record_failure err max_attempts now r)"
| life_data: "r_state r' = r_state r \<Longrightarrow> r_failed_from r' = r_failed_from r \<Longrightarrow> life r r'"

inductive lives :: "payment_record \<Rightarrow> payment_record \<Rightarrow> bool" where
  lives_refl: "lives r r"
| lives_step: "lives r r' \<Longrightarrow> life r' r'' \<Longrightarrow> lives r r''"

definition failed_ok :: "payment_record \<Rightarrow> bool" where
  "failed_ok r \<longleftrightarrow>
     (r_state r = Failed \<longrightarrow> r_failed_from r \<noteq> None) \<and> (\<forall>s. r_failed_from r = Some s \<longrightarrow> is_active s)"

text \<open>How far a payment has come; a failed one is where it failed.\<close>

fun rank :: "payment_state \<Rightarrow> nat" where
  "rank Pending = 0"
| "rank Expired = 1"
| "rank Detected = 2"
| "rank Funded = 3"
| "rank Swept = 4"
| "rank Settled = 5"
| "rank Failed = 0"

definition phase :: "payment_record \<Rightarrow> nat" where
  "phase r = (if r_state r = Failed then (case r_failed_from r of None \<Rightarrow> 0 | Some s \<Rightarrow> rank s)
              else rank (r_state r))"

lemma transition_Inr_iff [result_simps]:
  "transition to r = Inr r' \<longleftrightarrow>
     can_transition (r_state r) to \<and> resume_ok r to \<and>
     r' = r\<lparr>r_failed_from := (if to = Failed then Some (r_state r) else r_failed_from r),
            r_state := to, r_attempts := 0, r_next_attempt_at := 0,
            r_last_error := (if to = Failed then r_last_error r else None)\<rparr>"
  by (auto simp: transition_def Let_def)

lemma record_failure_simps [simp]:
  "r_attempts (record_failure err m now r) = r_attempts r + 1"
  "r_last_error (record_failure err m now r) = Some (take_chars 500 err)"
  "r_next_attempt_at (record_failure err m now r) = now + backoff (r_attempts r + 1)"
  "r_state (record_failure err m now r) =
     (if m \<le> r_attempts r + 1 \<and> is_active (r_state r) then Failed else r_state r)"
  "r_failed_from (record_failure err m now r) =
     (if m \<le> r_attempts r + 1 \<and> is_active (r_state r) then Some (r_state r) else r_failed_from r)"
  by (auto simp: record_failure_def Let_def can_transition_Failed_iff)

lemma is_active_simps [simp]:
  "is_active Pending" "is_active Detected" "is_active Funded" "is_active Swept"
  "\<not> is_active Settled" "\<not> is_active Failed" "\<not> is_active Expired"
  by (simp_all add: is_active_def)

lemma is_active_cases: "is_active s \<Longrightarrow> s = Pending \<or> s = Detected \<or> s = Funded \<or> s = Swept"
  by (simp add: is_active_def)

inductive_cases lifeE: "life r r'"

lemma life_failed_ok: "life r r' \<Longrightarrow> failed_ok r \<Longrightarrow> failed_ok r'"
  by (elim lifeE) (auto simp: failed_ok_def result_simps can_transition_Failed_iff)

lemma life_phase:
  assumes "life r r'" and "failed_ok r"
  shows "phase r \<le> phase r'"
  using assms(1)
proof cases
  case (life_transition to)
  then show ?thesis
    using assms(2)
    by (cases "r_state r"; cases to)
      (auto simp: result_simps phase_def failed_ok_def resume_ok_def split: option.splits)
next
  case life_failure
  then show ?thesis by (auto simp: phase_def)
next
  case life_data
  then show ?thesis by (simp add: phase_def)
qed

lemma lives_phase: "lives r r' \<Longrightarrow> failed_ok r \<Longrightarrow> phase r \<le> phase r' \<and> failed_ok r'"
  by (induction rule: lives.induct) (use life_phase life_failed_ok le_trans in blast)+

lemma rank_ge_4: "4 \<le> rank s \<longleftrightarrow> s = Swept \<or> s = Settled"
  by (cases s) simp_all

lemma rank_ge_5: "5 \<le> rank s \<longleftrightarrow> s = Settled"
  by (cases s) simp_all

text \<open>\<open>test_record\<close> of \<open>src/src/state.rs\<close>, the concrete record of the witnesses.\<close>

definition test_record :: "string \<Rightarrow> payment_record" where
  "test_record i =
     \<lparr>r_id = i, r_address = ''5GrwvaEF5zXb26Fz9rcQpDWS57CtERHpNehXCPcNoHGKutQY'', r_netuid = 1,
      r_min_alpha = 1000000000, r_min_tao = None, r_created_at = 0, r_expires_at = 100,
      r_state = Pending, r_version = 0,
      r_sealed_secret = \<lparr>ss_v = 1, ss_nonce = ''00'', ss_ct = ''00'', ss_kid = None\<rparr>,
      r_metadata = None, r_callback_url = None, r_detected_alpha = 0, r_detected_tao = 0,
      r_funded_tao = 0, r_swept_alpha = 0, r_txs = [], r_buyback = None, r_buyback_budget = None,
      r_auto_required = Some False, r_identity = None, r_attempts = 0, r_next_attempt_at = 0,
      r_last_error = None, r_failed_from = None, r_pending = None, r_quarantined = None,
      r_swept_positions = [], r_consolidated = 0, r_dust_returned = False,
      r_buyback_done = False, r_notified = False, r_updated_at = 0, r_derivation_path = None\<rparr>"

lemma test_record_simps [simp]:
  "r_id (test_record i) = i" "r_state (test_record i) = Pending" "r_version (test_record i) = 0"
  "r_attempts (test_record i) = 0" "r_failed_from (test_record i) = None"
  "r_pending (test_record i) = None" "r_quarantined (test_record i) = None"
  "r_auto_required (test_record i) = Some False" "r_identity (test_record i) = None"
  by (simp_all add: test_record_def)

section \<open>Properties\<close>

text \<open>C24: no operation of a record, in any order, takes a payment back to an earlier phase: once
  the sweep has succeeded the record is swept, settled, or failed in the swept step (from which
  only that step is resumed), so the funding and sweep steps never run again; and a settled
  record stays settled.\<close>

theorem sweep_once:
  assumes "lives r r'" and "failed_ok r"
  shows "phase r \<le> phase r' \<and>
         (r_state r = Swept \<longrightarrow> r_state r' \<in> {Swept, Settled} \<or>
            r_state r' = Failed \<and> r_failed_from r' = Some Swept \<and>
            (\<forall>to. is_ok (transition to r') \<longleftrightarrow> to = Swept)) \<and>
         (r_state r = Settled \<longrightarrow> r_state r' = Settled)"
proof -
  have p: "phase r \<le> phase r'" and ok: "failed_ok r'" using lives_phase [OF assms] by auto
  have failed: "r_failed_from r' = Some Swept" if "r_state r' = Failed" "4 \<le> phase r'"
    using that ok by (auto simp: phase_def failed_ok_def rank_ge_4 split: option.splits)
  have "r_state r' \<in> {Swept, Settled} \<or> r_state r' = Failed" if "4 \<le> phase r'"
    using that by (auto simp: phase_def rank_ge_4 split: if_splits)
  moreover have "r_state r' = Settled" if "5 \<le> phase r'"
    using that ok by (auto simp: phase_def failed_ok_def rank_ge_5 split: if_splits option.splits)
  moreover have "is_ok (transition to r') \<longleftrightarrow> to = Swept"
    if "r_state r' = Failed" "r_failed_from r' = Some Swept" for to
    using that by (auto simp: is_ok_iff result_simps resume_ok_def)
  ultimately show ?thesis
    using p failed by (fastforce simp: phase_def)
qed

lemma unat_backoff: "unat (backoff a) = min (5 * 2 ^ min (unat a) 7) 600"
proof -
  have m: "unat (min a 7) = min (unat a) 7" by (simp add: unat_min_word)
  have "unat (push_bit n 5 :: u64) = 5 * 2 ^ n" if "n \<le> 7" for n
  proof -
    have "n \<in> {0, 1, 2, 3, 4, 5, 6, 7}" using that by auto
    then show ?thesis by (auto simp: push_bit_eq_mult)
  qed
  then have "unat (push_bit (min (unat a) 7) 5 :: u64) = 5 * 2 ^ min (unat a) 7" by simp
  then show ?thesis by (simp add: backoff_def m unat_min_word)
qed

lemma backoff_bounds: "a \<noteq> 0 \<Longrightarrow> 10 \<le> unat (backoff a) \<and> unat (backoff a) \<le> 600"
proof -
  assume "a \<noteq> 0"
  then have "1 \<le> min (unat a) 7" using unat_eq_zero [of a] by simp
  then have "(2::nat) ^ 1 \<le> 2 ^ min (unat a) 7" by (intro power_increasing) simp_all
  then show ?thesis by (simp add: unat_backoff)
qed

text \<open>Retry delays: with \<open>k\<close> failed attempts on record the next one is due after exactly
  \<open>5 * 2^(k+1)\<close> seconds, at most 600; every delay is between 10 s and 10 min.\<close>

theorem record_failure_delay:
  assumes "unat now + 600 < 2 ^ 64" and "unat (r_attempts r) < 2 ^ 32 - 1"
  shows "unat (r_next_attempt_at (record_failure err m now r)) =
           unat now + min (5 * 2 ^ (unat (r_attempts r) + 1)) 600 \<and>
         unat now + 10 \<le> unat (r_next_attempt_at (record_failure err m now r)) \<and>
         unat (r_next_attempt_at (record_failure err m now r)) \<le> unat now + 600"
proof -
  let ?a = "r_attempts r + 1"
  have a: "unat ?a = unat (r_attempts r) + 1"
    using assms(2) by (simp add: unat_word_ariths)
  then have "?a \<noteq> 0" by (metis Suc_eq_plus1 nat.distinct(1) unsigned_0)
  have b: "10 \<le> unat (backoff ?a)" "unat (backoff ?a) \<le> 600"
    using backoff_bounds [OF \<open>?a \<noteq> 0\<close>] by auto
  have n: "unat (now + backoff ?a) = unat now + unat (backoff ?a)"
    using assms(1) b by (simp add: unat_word_ariths)
  have "min (5 * 2 ^ min k 7) 600 = min (5 * 2 ^ k) (600::nat)" for k
  proof (cases "k \<le> 7")
    case False
    then have "(2::nat) ^ 7 \<le> 2 ^ k" by (intro power_increasing) simp_all
    with False show ?thesis by (simp add: min_def)
  qed simp
  then show ?thesis using n a b by (simp only: record_failure_simps unat_backoff) simp
qed

theorem record_failure_delay_witness:
  "unat (r_next_attempt_at (record_failure ''boom'' 8 1000 (test_record ''a''))) = 1010"
  using record_failure_delay [of 1000 "test_record ''a''" "''boom''" 8]
  by simp

lemma record_failure_run:
  assumes "is_active s" and "r_state r = s" and "unat (r_attempts r) + length fs < 2 ^ 32"
    and "unat (r_attempts r) < unat m"
  shows "let r' = fold (\<lambda>(err, now). record_failure err m now) fs r in
           unat (r_attempts r') = unat (r_attempts r) + length fs \<and>
           r_state r' = (if unat m \<le> unat (r_attempts r) + length fs then Failed else s) \<and>
           (unat m \<le> unat (r_attempts r) + length fs \<longrightarrow> r_failed_from r' = Some s)"
  using assms
proof (induction fs rule: rev_induct)
  case (snoc f fs)
  obtain err now where f: "f = (err, now)" by force
  let ?p = "fold (\<lambda>(err, now). record_failure err m now) fs r"
  have IH: "unat (r_attempts ?p) = unat (r_attempts r) + length fs"
    "r_state ?p = (if unat m \<le> unat (r_attempts r) + length fs then Failed else s)"
    "unat m \<le> unat (r_attempts r) + length fs \<longrightarrow> r_failed_from ?p = Some s"
    using snoc by (simp_all add: Let_def)
  have "unat (r_attempts ?p + 1) = unat (r_attempts r) + length fs + 1"
    using IH(1) snoc.prems(3) by (simp add: unat_word_ariths)
  then show ?case
    using IH snoc.prems(1) by (auto simp: f Let_def word_le_nat_alt)
qed auto

text \<open>A step is given up after exactly \<open>max_attempts\<close> failures in a row: fewer leave the
  record in its state, and from the \<open>max_attempts\<close>-th on it is failed, with the step to resume
  on record.\<close>

theorem fails_after_max_attempts:
  assumes "is_active (r_state r)" and "r_attempts r = 0" and "0 < m" and "length fs < 2 ^ 32"
  shows "let r' = fold (\<lambda>(err, now). record_failure err m now) fs r in
           (r_state r' = Failed \<longleftrightarrow> unat m \<le> length fs) \<and>
           (length fs < unat m \<longrightarrow> r_state r' = r_state r) \<and>
           (unat m \<le> length fs \<longrightarrow> r_failed_from r' = Some (r_state r))"
proof -
  have "unat (r_attempts r) < unat m" using assms(2,3) by (simp add: word_less_nat_alt)
  then show ?thesis
    using record_failure_run [OF assms(1) refl, of fs m] assms(1,2,4) by (auto simp: Let_def)
qed


theorem fails_after_max_attempts_witness:
  "let r' = fold (\<lambda>(err, now). record_failure err 3 now)
              [(''boom'', 1000), (''boom'', 1010), (''boom'', 1030)] (test_record ''a'')
   in (r_state r' = Failed \<longleftrightarrow> unat (3 :: u32) \<le> 3) \<and> r_failed_from r' = Some Pending"
  using fails_after_max_attempts [of "test_record ''a''" 3
      "[(''boom'', 1000), (''boom'', 1010), (''boom'', 1030)]"]
  by (simp add: Let_def)

theorem sweep_once_witness:
  "let r = (test_record ''a'')\<lparr>r_state := Swept\<rparr>; r' = record_failure ''boom'' 1 1000 r in
     phase r \<le> phase r' \<and>
     (r_state r = Swept \<longrightarrow> r_state r' \<in> {Swept, Settled} \<or>
        r_state r' = Failed \<and> r_failed_from r' = Some Swept \<and>
        (\<forall>to. is_ok (transition to r') \<longleftrightarrow> to = Swept)) \<and>
     (r_state r = Settled \<longrightarrow> r_state r' = Settled)"
proof -
  have "lives r (record_failure ''boom'' 1 1000 r)" for r
    by (rule lives_step [OF lives_refl life_failure])
  then show ?thesis
    unfolding Let_def by (rule sweep_once) (simp add: failed_ok_def)
qed

end
