(* ===== verification/Store_Spec.thy ===== *)
theory Store_Spec
  imports Payment
begin

text \<open>
  The persistence interface of \<open>src/src/store.rs\<close>.  The trait \<open>Store\<close> is the record
  \<open>'d store_ops\<close> of its methods over a database type \<open>'d\<close>; a method that the trait implements
  by default (with an error) is a definition of its own.  The clock (\<open>now\<close>) and the random
  token (\<open>Uuid::new_v4\<close>) that a method reads are arguments of it.

  Two contracts are stated as locales.  \<open>cas_store\<close> is what every store promises: the database
  is a map from ids to records, and a write succeeds only on the version and on the policy
  (budget, \<open>auto_required\<close>, identity) that is stored.  \<open>signing_store\<close> adds exclusive signer
  reservations tied to the journal entries.  \<open>Sqlite_Store\<close> interprets both, \<open>File_Store\<close> the
  first.
\<close>

section \<open>The trait\<close>

record 'd store_ops =
  so_require_signing :: "'d \<Rightarrow> unit res"
  so_reserve_signer_for_record :: "string \<Rightarrow> payment_record \<Rightarrow> string \<Rightarrow> 'd \<Rightarrow> string res \<times> 'd"
  so_reserve_signer :: "string \<Rightarrow> string \<Rightarrow> string \<Rightarrow> 'd \<Rightarrow> string res \<times> 'd"
  so_cancel_preparation :: "string \<Rightarrow> string \<Rightarrow> string \<Rightarrow> 'd \<Rightarrow> unit res \<times> 'd"
  so_migrate_legacy_policy ::
    "string \<Rightarrow> u64 \<Rightarrow> buyback_budget option \<Rightarrow> u64 \<Rightarrow> 'd \<Rightarrow> payment_record res \<times> 'd"
  so_insert :: "payment_record \<Rightarrow> 'd \<Rightarrow> unit res \<times> 'd"
  so_get :: "string \<Rightarrow> 'd \<Rightarrow> payment_record option res"
  so_list :: "payment_state list \<Rightarrow> 'd \<Rightarrow> payment_record list res"
  so_update :: "payment_record \<Rightarrow> u64 \<Rightarrow> 'd \<Rightarrow> payment_record res \<times> 'd"

definition default_require_signing :: "'d \<Rightarrow> unit res" where
  "default_require_signing d =
     Inl (ErrStore ''shared signer reservations unsupported; requests disabled'')"

definition default_reserve_signer_for_record ::
    "string \<Rightarrow> payment_record \<Rightarrow> string \<Rightarrow> 'd \<Rightarrow> string res \<times> 'd" where
  "default_reserve_signer_for_record signer rec token d =
     (Inl (ErrStore ''atomic signer reservation unsupported''), d)"

definition default_reserve_signer :: "string \<Rightarrow> string \<Rightarrow> string \<Rightarrow> 'd \<Rightarrow> string res \<times> 'd" where
  "default_reserve_signer signer job token d =
     (Inl (ErrStore ''shared durable signer reservations unsupported; signing disabled''), d)"

definition default_cancel_preparation :: "string \<Rightarrow> string \<Rightarrow> string \<Rightarrow> 'd \<Rightarrow> unit res \<times> 'd" where
  "default_cancel_preparation signer job token d =
     (Inl (ErrStore ''preparation cancellation unsupported''), d)"

section \<open>Shared rules\<close>

text \<open>The policy that an update may not change.\<close>

definition same_policy :: "payment_record \<Rightarrow> payment_record \<Rightarrow> bool" where
  "same_policy a b \<longleftrightarrow>
     r_buyback_budget a = r_buyback_budget b \<and> r_auto_required a = r_auto_required b \<and>
     r_identity a = r_identity b"

definition has_evidence :: "payment_record \<Rightarrow> bool" where
  "has_evidence rec \<longleftrightarrow>
     r_auto_required rec \<noteq> None \<or> r_buyback_budget rec \<noteq> None \<or> r_pending rec \<noteq> None \<or>
     r_quarantined rec \<noteq> None \<or> r_txs rec \<noteq> [] \<or> r_buyback rec \<noteq> None \<or> r_buyback_done rec \<or>
     r_funded_tao rec \<noteq> 0 \<or> r_swept_alpha rec \<noteq> 0 \<or> r_swept_positions rec \<noteq> [] \<or>
     r_consolidated rec \<noteq> 0 \<or> r_dust_returned rec \<or>
     \<not> (r_state rec = Pending \<or> r_state rec = Detected)"

definition migrated_policy ::
    "'k crypto \<Rightarrow> payment_record \<Rightarrow> u64 \<Rightarrow> buyback_budget option \<Rightarrow> u64 \<Rightarrow> payment_record res" where
  "migrated_policy cr rec version budget now =
     (if r_version rec \<noteq> version then Inl (Conflict (r_id rec))
      else if has_evidence rec
      then Inl (ErrStore ''legacy job has policy or execution evidence; manual reconciliation required'')
      else and_then (case budget of None \<Rightarrow> Inr () | Some b \<Rightarrow> budget_validate cr b) (\<lambda>_.
           let rec = rec\<lparr>r_auto_required := Some (budget \<noteq> None), r_buyback_budget := budget\<rparr> in
           and_then (ok_or (ErrStore ''version overflow'') (checked_add (r_version rec) 1)) (\<lambda>v.
           Inr (rec\<lparr>r_version := v, r_updated_at := now\<rparr>))))"

lemma migrated_policy_InrD:
  assumes "migrated_policy cr rec version budget now = Inr rec'"
  shows "r_version rec = version \<and> \<not> has_evidence rec \<and>
         (\<forall>b. budget = Some b \<longrightarrow> budget_validate cr b = Inr ()) \<and>
         rec' = rec\<lparr>r_auto_required := Some (budget \<noteq> None), r_buyback_budget := budget,
                    r_version := version + 1, r_updated_at := now\<rparr> \<and>
         unat (r_version rec') = unat version + 1"
  using assms
  by (auto simp: migrated_policy_def result_simps Let_def dest!: checked_add_SomeD
      split: if_splits option.splits)

lemma migrated_policy_pristine:
  assumes "migrated_policy cr rec version budget now = Inr rec'"
  shows "\<not> has_evidence (rec'\<lparr>r_auto_required := None, r_buyback_budget := None\<rparr>) \<and> r_id rec' = r_id rec \<and>
         r_failed_from rec' = r_failed_from rec"
  using migrated_policy_InrD [OF assms] by (auto simp: has_evidence_def)

text \<open>A journal entry with its reservation: the signer and the token it claims.\<close>

definition journal_signer :: "payment_record \<Rightarrow> string option" where
  "journal_signer r = map_option pd_signer (r_pending r)"

definition journal_claim :: "payment_record \<Rightarrow> (string \<times> string) option" where
  "journal_claim r =
     (case r_pending r of None \<Rightarrow> None
      | Some p \<Rightarrow> map_option (\<lambda>t. (pd_signer p, t)) (pd_reservation p))"

text \<open>What an update writes.\<close>

definition next_version :: "u64 \<Rightarrow> payment_record \<Rightarrow> payment_record" where
  "next_version now r = r\<lparr>r_version := r_version r + 1, r_updated_at := now\<rparr>"

lemma next_version_simps [simp]:
  "r_id (next_version now r) = r_id r" "r_version (next_version now r) = r_version r + 1"
  "r_pending (next_version now r) = r_pending r" "r_state (next_version now r) = r_state r"
  "r_created_at (next_version now r) = r_created_at r"
  "r_buyback_budget (next_version now r) = r_buyback_budget r"
  "r_auto_required (next_version now r) = r_auto_required r"
  "r_identity (next_version now r) = r_identity r"
  "r_quarantined (next_version now r) = r_quarantined r"
  "r_failed_from (next_version now r) = r_failed_from r"
  "same_policy c (next_version now r) = same_policy c r"
  "journal_claim (next_version now r) = journal_claim r"
  "journal_signer (next_version now r) = journal_signer r"
  by (simp_all add: next_version_def same_policy_def journal_claim_def journal_signer_def)

lemma journal_claim_SomeD:
  "journal_claim r = Some (s, t) \<Longrightarrow> \<exists>p. r_pending r = Some p \<and> pd_signer p = s \<and> pd_reservation p = Some t"
  by (auto simp: journal_claim_def split: option.splits)

text \<open>What the clients of a store can do to it.  New records are inserted without a journal entry
  (\<open>create_payment\<close> and \<open>create_sweep_job\<close> do).\<close>

datatype store_op =
    OpInsert payment_record
  | OpUpdate payment_record u64
  | OpReserve string payment_record string
  | OpReserveJob string string string
  | OpCancel string string string
  | OpMigrate string u64 "buyback_budget option" u64

fun run_op :: "'d store_ops \<Rightarrow> store_op \<Rightarrow> 'd \<Rightarrow> 'd" where
  "run_op ops (OpInsert r) d = snd (so_insert ops r d)"
| "run_op ops (OpUpdate r now) d = snd (so_update ops r now d)"
| "run_op ops (OpReserve s r tok) d = snd (so_reserve_signer_for_record ops s r tok d)"
| "run_op ops (OpReserveJob s j tok) d = snd (so_reserve_signer ops s j tok d)"
| "run_op ops (OpCancel s j tok) d = snd (so_cancel_preparation ops s j tok d)"
| "run_op ops (OpMigrate i v b now) d = snd (so_migrate_legacy_policy ops i v b now d)"

fun op_ok :: "store_op \<Rightarrow> bool" where
  "op_ok (OpInsert r) \<longleftrightarrow> r_pending r = None"
| "op_ok _ \<longleftrightarrow> True"

text \<open>One write attempt against a store, by any client.\<close>

definition attempt_write :: "'d store_ops \<Rightarrow> payment_record \<times> u64 \<Rightarrow> 'd \<Rightarrow> 'd" where
  "attempt_write ops w d = snd (so_update ops (fst w) (snd w) d)"

section \<open>Contract: compare and swap on versions\<close>

locale cas_store =
  fixes ops :: "'d store_ops" and inv :: "'d \<Rightarrow> bool"
    and content :: "'d \<Rightarrow> string \<Rightarrow> payment_record option"
  assumes content_id: "inv d \<Longrightarrow> content d i = Some r \<Longrightarrow> r_id r = i"
    and get_content: "inv d \<Longrightarrow> so_get ops i d = Inr x \<Longrightarrow> x = content d i"
    and list_content: "inv d \<Longrightarrow> so_list ops states d = Inr rs \<Longrightarrow> r \<in> set rs \<Longrightarrow>
          content d (r_id r) = Some r \<and> r_state r \<in> set states"
    and insert_ok: "inv d \<Longrightarrow> so_insert ops r d = (Inr (), d') \<Longrightarrow>
          content d (r_id r) = None \<and> content d' = (content d)(r_id r \<mapsto> r)"
    and insert_fail: "inv d \<Longrightarrow> so_insert ops r d = (Inl e, d') \<Longrightarrow> d' = d"
    and insert_inv: "inv d \<Longrightarrow> r_pending r = None \<Longrightarrow> so_insert ops r d = (y, d') \<Longrightarrow> inv d'"
    and update_ok: "inv d \<Longrightarrow> so_update ops r now d = (Inr r', d') \<Longrightarrow>
          r' = next_version now r \<and> content d' = (content d)(r_id r \<mapsto> r') \<and>
          (\<exists>c. content d (r_id r) = Some c \<and> r_version c = r_version r \<and> same_policy c r)"
    and update_fail: "inv d \<Longrightarrow> so_update ops r now d = (Inl e, d') \<Longrightarrow> d' = d"
    and update_inv: "inv d \<Longrightarrow> so_update ops r now d = (z, d') \<Longrightarrow> inv d'"
    and reserve_content: "inv d \<Longrightarrow> so_reserve_signer_for_record ops s r tok d = (v, d') \<Longrightarrow>
          content d' = content d \<and> inv d'"
    and reserve_job_content: "inv d \<Longrightarrow> so_reserve_signer ops s j tok d = (v, d') \<Longrightarrow>
          content d' = content d \<and> inv d'"
    and cancel_content: "inv d \<Longrightarrow> so_cancel_preparation ops s j tok d = (y, d') \<Longrightarrow>
          content d' = content d \<and> inv d'"
    and migrate_ok: "inv d \<Longrightarrow> so_migrate_legacy_policy ops i ver b now d = (Inr r', d') \<Longrightarrow>
          content d' = (content d)(i \<mapsto> r') \<and>
          \<not> has_evidence (r'\<lparr>r_auto_required := None, r_buyback_budget := None\<rparr>) \<and>
          (\<exists>c. content d i = Some c \<and> r_failed_from c = r_failed_from r')"
    and migrate_fail: "inv d \<Longrightarrow> so_migrate_legacy_policy ops i ver b now d = (Inl e, d') \<Longrightarrow> d' = d"
    and migrate_inv: "inv d \<Longrightarrow> so_migrate_legacy_policy ops i ver b now d = (z, d') \<Longrightarrow> inv d'"
begin

lemma run_op_inv: "inv d \<Longrightarrow> op_ok op \<Longrightarrow> inv (run_op ops op d)"
  by (cases op)
    (metis insert_inv update_inv reserve_content reserve_job_content cancel_content migrate_inv
      op_ok.simps(1) prod.collapse run_op.simps)+

lemma run_ops_inv: "list_all op_ok os \<Longrightarrow> inv d \<Longrightarrow> inv (fold (run_op ops) os d)"
  by (induction os arbitrary: d) (auto simp: run_op_inv)

lemma attempt_write_cases:
  assumes "inv d"
  obtains (rejected) "attempt_write ops (r, now) d = d"
  | (written) c where "content d (r_id r) = Some c" "r_version c = r_version r" "same_policy c r"
      "content (attempt_write ops (r, now) d) = (content d)(r_id r \<mapsto> next_version now r)"
proof -
  obtain x d' where u: "so_update ops r now d = (x, d')" by force
  show thesis
  proof (cases x)
    case (Inl e)
    then show thesis using rejected update_fail [OF assms] u by (simp add: attempt_write_def)
  next
    case (Inr r')
    then have "so_update ops r now d = (Inr r', d')" using u by simp
    from update_ok [OF assms this] this show thesis
      by (auto simp: attempt_write_def intro: written)
  qed
qed

lemma attempt_write_inv: "inv d \<Longrightarrow> inv (attempt_write ops w d)"
  by (metis attempt_write_def prod.collapse update_inv)

lemma run_inv: "inv d \<Longrightarrow> inv (fold (attempt_write ops) ws d)"
  by (induction ws arbitrary: d) (auto simp: attempt_write_inv)

text \<open>Along any run the version of a stored record counts the writes to it: as long as it has
  not wrapped, the same version means the same record, and the policy never changes.\<close>

lemma run_version:
  assumes "inv d" and "content d i = Some c" and "unat (r_version c) + length ws < 2 ^ 64"
  shows "\<exists>c'. content (fold (attempt_write ops) ws d) i = Some c' \<and> same_policy c c' \<and>
           unat (r_version c) \<le> unat (r_version c') \<and>
           unat (r_version c') \<le> unat (r_version c) + length ws \<and>
           (r_version c' = r_version c \<longrightarrow> c' = c)"
  using assms
proof (induction ws arbitrary: d c)
  case Nil
  then show ?case by (simp add: same_policy_def)
next
  case (Cons w ws)
  obtain r now where w: "w = (r, now)" by force
  have keep: ?case if same: "content (attempt_write ops w d) i = Some c"
    using Cons.IH [OF attempt_write_inv [OF Cons.prems(1)] same] Cons.prems(3) by auto
  show ?case
  proof (cases rule: attempt_write_cases [OF Cons.prems(1), of r now])
    case 1
    then show ?thesis using keep Cons.prems(2) w by simp
  next
    case written: (2 b)
    show ?thesis
    proof (cases "r_id r = i")
      case False
      then show ?thesis using keep Cons.prems(2) w written by simp
    next
      case True
      let ?n = "next_version now r"
      have b: "b = c" using written(1) True Cons.prems(2) by simp
      have n: "content (attempt_write ops w d) i = Some ?n" using written(4) w True by simp
      have v: "unat (r_version ?n) = unat (r_version c) + 1"
        using Cons.prems(3) written(2) b by (simp add: unat_word_ariths)
      obtain c' where c': "content (fold (attempt_write ops) ws (attempt_write ops w d)) i = Some c'" "same_policy ?n c'"
        "unat (r_version ?n) \<le> unat (r_version c')"
        "unat (r_version c') \<le> unat (r_version ?n) + length ws"
        using Cons.IH [OF attempt_write_inv [OF Cons.prems(1)] n] v Cons.prems(3) by auto
      moreover have "same_policy c c'" using c'(2) written(3) b by (auto simp: same_policy_def)
      ultimately show ?thesis using v by auto
    qed
  qed
qed

text \<open>No lost update: a writer that read \<open>c\<close> and writes on its version after other clients
  made any attempts is refused, unless the stored record still is \<open>c\<close>.\<close>

lemma no_lost_update:
  assumes "inv d" and "content d i = Some c" and "unat (r_version c) + length ws < 2 ^ 64"
    and "r_id r = i" and "r_version r = r_version c"
    and "so_update ops r now (fold (attempt_write ops) ws d) = (Inr r', d')"
  shows "content (fold (attempt_write ops) ws d) i = Some c \<and> content d' i = Some (next_version now r) \<and>
         same_policy c r"
proof -
  have u: "r' = next_version now r" "content d' = (content (fold (attempt_write ops) ws d))(r_id r \<mapsto> r')"
    "\<exists>b. content (fold (attempt_write ops) ws d) (r_id r) = Some b \<and> r_version b = r_version r \<and> same_policy b r"
    using update_ok [OF run_inv [OF assms(1)] assms(6)] by auto
  then show ?thesis
    using run_version [OF assms(1-3)] assms(4,5) by auto
qed

end

section \<open>Contract: exclusive signer reservations\<close>

locale signing_store = cas_store ops inv content
  for ops :: "'d store_ops" and inv :: "'d \<Rightarrow> bool"
    and content :: "'d \<Rightarrow> string \<Rightarrow> payment_record option" +
  fixes held :: "'d \<Rightarrow> (string \<times> string \<times> string) set"
  assumes held_signer: "inv d \<Longrightarrow> (s, j, t) \<in> held d \<Longrightarrow> (s, j', t') \<in> held d \<Longrightarrow> j' = j \<and> t' = t"
    and held_claims: "inv d \<Longrightarrow> content d i = Some r \<Longrightarrow> journal_claim r = Some (s, t) \<Longrightarrow>
          (s, i, t) \<in> held d"
    and held_legacy: "inv d \<Longrightarrow> content d i = Some r \<Longrightarrow> r_pending r = Some p \<Longrightarrow>
          pd_reservation p = None \<Longrightarrow> (pd_signer p, j, t) \<notin> held d"
    and reserve_ok: "inv d \<Longrightarrow> so_reserve_signer_for_record ops s r tok d = (Inr t, d') \<Longrightarrow>
          t = tok \<and> held d' = insert (s, r_id r, t) (held d) \<and> (\<forall>j u. (s, j, u) \<notin> held d) \<and>
          (\<forall>i q. content d i = Some q \<longrightarrow> journal_signer q \<noteq> Some s)"
    and reserve_fail: "inv d \<Longrightarrow> so_reserve_signer_for_record ops s r tok d = (Inl e, d') \<Longrightarrow> d' = d"
    and cancel_ok: "inv d \<Longrightarrow> so_cancel_preparation ops s j tok d = (Inr (), d') \<Longrightarrow>
          (s, j, tok) \<in> held d \<and> held d' = held d - {(s, j, tok)} \<and>
          (\<forall>i q. content d i = Some q \<longrightarrow> journal_signer q \<noteq> Some s)"
    and cancel_fail: "inv d \<Longrightarrow> so_cancel_preparation ops s j tok d = (Inl e, d') \<Longrightarrow> d' = d"
    and insert_held: "inv d \<Longrightarrow> so_insert ops r d = (y, d') \<Longrightarrow> held d' = held d"
    and update_held: "inv d \<Longrightarrow> so_update ops r now d = (Inr r', d') \<Longrightarrow> content d (r_id r) = Some c \<Longrightarrow>
          (r_pending c \<noteq> None \<and> r_pending r \<noteq> None \<longrightarrow> r_pending r = r_pending c) \<and>
          (r_pending r \<noteq> None \<longrightarrow> (\<exists>s t. journal_claim r = Some (s, t) \<and> (s, r_id r, t) \<in> held d)) \<and>
          (if r_pending c \<noteq> None \<and> r_pending r = None
           then (\<exists>s t. journal_claim c = Some (s, t) \<and> held d' = held d - {(s, r_id r, t)})
           else held d' = held d)"
begin

text \<open>At most one record has an unresolved journal entry of a signer (entries that predate
  reservations can only coexist with each other).\<close>

lemma journal_exclusive:
  assumes "inv d" and "content d i = Some r" and "content d j = Some q"
    and "journal_claim r = Some (s, t)" and "journal_signer q = Some s"
  shows "i = j"
proof -
  have h: "(s, i, t) \<in> held d" using held_claims [OF assms(1,2,4)] .
  obtain p where p: "r_pending q = Some p" "pd_signer p = s"
    using assms(5) by (auto simp: journal_signer_def)
  show ?thesis
  proof (cases "pd_reservation p")
    case None
    then show ?thesis using held_legacy [OF assms(1,3) p(1)] h p(2) by auto
  next
    case (Some t')
    then have "journal_claim q = Some (s, t')" using p by (simp add: journal_claim_def)
    then show ?thesis using held_signer [OF assms(1) h] held_claims [OF assms(1,3)] by blast
  qed
qed

text \<open>A signer with an unresolved journal entry or a live reservation cannot be reserved.\<close>

lemma reserve_refused:
  assumes "inv d" and "(\<exists>j t. (s, j, t) \<in> held d) \<or> (\<exists>i q. content d i = Some q \<and> journal_signer q = Some s)"
  shows "\<exists>e. so_reserve_signer_for_record ops s r tok d = (Inl e, d)"
proof -
  obtain x d' where x: "so_reserve_signer_for_record ops s r tok d = (x, d')" by force
  show ?thesis
  proof (cases x)
    case (Inl e)
    then show ?thesis using reserve_fail [OF assms(1)] x by auto
  next
    case (Inr t)
    then show ?thesis using reserve_ok [OF assms(1)] x assms(2) by blast
  qed
qed

end

end
