(* ===== verification/Sqlite_Store.thy ===== *)
theory Sqlite_Store
  imports Store_Spec
begin

text \<open>
  \<open>SqliteStore\<close> of \<open>src/src/store.rs\<close>: the tables as lists of rows, every method as one
  transaction.  A transaction that returns early is dropped and therefore rolled back, so an
  error leaves the database as it was.  The column \<open>record\<close> holds the JSON text of a record and
  is represented by the record; \<open>json_extract(record, '$.pending.signer')\<close> is the signer of its
  journal entry.  \<open>ORDER BY created_at\<close> leaves the order of ties open in SQL; the model keeps
  the order of insertion.  Failures of the database itself (I/O, lock timeouts) are not in this
  model; the engine's theorems hold for every store with the contract of \<open>Store_Spec\<close>, where
  any operation may fail.
\<close>

record row =
  row_id :: string
  row_state :: string
  row_version :: int
  row_created_at :: int
  row_record :: payment_record

record reservation =
  rs_signer :: string
  rs_job :: string
  rs_token :: string

record legacy_recovery =
  lr_job :: string
  lr_previous_version :: int
  lr_manifest :: string
  lr_report :: string

record sqlite_db =
  db_payments :: "row list"
  db_reservations :: "reservation list"
  db_recoveries :: "legacy_recovery list"

definition empty_db :: sqlite_db where
  "empty_db = \<lparr>db_payments = [], db_reservations = [], db_recoveries = []\<rparr>"

section \<open>Operations\<close>

definition find_row :: "string \<Rightarrow> sqlite_db \<Rightarrow> row option" where
  "find_row i d = find (\<lambda>row. row_id row = i) (db_payments d)"

definition signer_pending :: "string \<Rightarrow> sqlite_db \<Rightarrow> bool" where
  "signer_pending signer d \<longleftrightarrow>
     list_ex (\<lambda>row. journal_signer (row_record row) = Some signer) (db_payments d)"

definition owns :: "string \<Rightarrow> string \<Rightarrow> string \<Rightarrow> reservation \<Rightarrow> bool" where
  "owns signer job token v \<longleftrightarrow> rs_signer v = signer \<and> rs_job v = job \<and> rs_token v = token"

definition reserve :: "string \<Rightarrow> string \<Rightarrow> u64 option \<Rightarrow> string \<Rightarrow> sqlite_db \<Rightarrow> string res \<times> sqlite_db" where
  "reserve signer job version token d =
     (if (case version of None \<Rightarrow> False
          | Some v \<Rightarrow> map_option row_version (find_row job d) \<noteq> i64_try_from v)
      then (Inl (Conflict job), d)
      else if signer_pending signer d then (Inl (Conflict ''unresolved signer journal''), d)
      else if list_ex (\<lambda>v. rs_signer v = signer \<or> rs_token v = token) (db_reservations d)
      then (Inl (Conflict (''signer '' @ signer @ '' reserved'')), d)
      else (Inr token,
            d\<lparr>db_reservations := db_reservations d @
                [\<lparr>rs_signer = signer, rs_job = job, rs_token = token\<rparr>]\<rparr>))"

definition sqlite_require_signing :: "sqlite_db \<Rightarrow> unit res" where
  "sqlite_require_signing d = Inr ()"

definition sqlite_reserve_signer_for_record ::
    "string \<Rightarrow> payment_record \<Rightarrow> string \<Rightarrow> sqlite_db \<Rightarrow> string res \<times> sqlite_db" where
  "sqlite_reserve_signer_for_record signer rec = reserve signer (r_id rec) (Some (r_version rec))"

definition sqlite_reserve_signer ::
    "string \<Rightarrow> string \<Rightarrow> string \<Rightarrow> sqlite_db \<Rightarrow> string res \<times> sqlite_db" where
  "sqlite_reserve_signer signer job = reserve signer job None"

definition sqlite_cancel_preparation ::
    "string \<Rightarrow> string \<Rightarrow> string \<Rightarrow> sqlite_db \<Rightarrow> unit res \<times> sqlite_db" where
  "sqlite_cancel_preparation signer job token d =
     (let journaled = list_ex (\<lambda>row. journal_signer (row_record row) = Some signer \<or>
                         row_id row = job \<and> r_pending (row_record row) \<noteq> None) (db_payments d);
          removed = (if journaled then [] else filter (owns signer job token) (db_reservations d))
      in if length removed \<noteq> 1
         then (Inl (Conflict ''preparation token or pending journal changed''), d)
         else (Inr (), d\<lparr>db_reservations := filter (\<lambda>v. \<not> owns signer job token v) (db_reservations d)\<rparr>))"

text \<open>\<open>UPDATE payments SET ... WHERE id = i\<close>.\<close>

definition set_rows :: "string \<Rightarrow> (row \<Rightarrow> row) \<Rightarrow> sqlite_db \<Rightarrow> sqlite_db" where
  "set_rows i f d =
     d\<lparr>db_payments := map (\<lambda>row. if row_id row = i then f row else row) (db_payments d)\<rparr>"

definition sqlite_migrate_legacy_policy ::
    "'k crypto \<Rightarrow> string \<Rightarrow> u64 \<Rightarrow> buyback_budget option \<Rightarrow> u64 \<Rightarrow> sqlite_db \<Rightarrow>
     payment_record res \<times> sqlite_db" where
  "sqlite_migrate_legacy_policy cr i version budget now d =
     (if list_ex (\<lambda>v. rs_job v = i) (db_reservations d)
      then (Inl (Conflict ''job has a signer reservation''), d)
      else case find_row i d of
        None \<Rightarrow> (Inl (ErrStore ''Query returned no rows''), d)
      | Some row \<Rightarrow>
          (case and_then (migrated_policy cr (row_record row) version budget now) (\<lambda>rec'.
                and_then (ok_or (ErrStore ''out of range integral type conversion attempted'')
                            (i64_try_from (r_version rec'))) (\<lambda>v. Inr (rec', v))) of
             Inl e \<Rightarrow> (Inl e, d)
           | Inr (rec', v) \<Rightarrow>
               (Inr rec', set_rows i (\<lambda>row. row\<lparr>row_version := v, row_record := rec'\<rparr>) d)))"

definition sqlite_insert :: "payment_record \<Rightarrow> sqlite_db \<Rightarrow> unit res \<times> sqlite_db" where
  "sqlite_insert rec d =
     (if find_row (r_id rec) d \<noteq> None
      then (Inl (ErrStore ''UNIQUE constraint failed: payments.id''), d)
      else (Inr (),
            d\<lparr>db_payments := db_payments d @
                [\<lparr>row_id = r_id rec, row_state = as_str (r_state rec), row_version = sint (r_version rec),
                  row_created_at = sint (r_created_at rec), row_record = rec\<rparr>]\<rparr>))"

definition sqlite_get :: "string \<Rightarrow> sqlite_db \<Rightarrow> payment_record option res" where
  "sqlite_get i d = Inr (map_option row_record (find_row i d))"

definition sqlite_list :: "payment_state list \<Rightarrow> sqlite_db \<Rightarrow> payment_record list res" where
  "sqlite_list states d =
     Inr (map row_record (filter (\<lambda>row. row_state row \<in> set (map as_str states))
            (sort_key row_created_at (db_payments d))))"

text \<open>The guards of \<open>update\<close>, in their order; the result says whether a reservation is released.\<close>

definition update_checks :: "payment_record \<Rightarrow> payment_record \<Rightarrow> sqlite_db \<Rightarrow> reservation list res" where
  "update_checks previous rec d =
     (if r_version previous \<noteq> r_version rec then Inl (Conflict (r_id rec))
      else if r_buyback_budget previous \<noteq> r_buyback_budget rec \<or>
              r_auto_required previous \<noteq> r_auto_required rec \<or> r_identity previous \<noteq> r_identity rec
      then Inl (ErrStore ''immutable job budget'')
      else
        and_then (case r_pending rec of
            None \<Rightarrow> Inr ()
          | Some p \<Rightarrow>
              and_then (ok_or (ErrStore ''legacy journal requires manual reconciliation'') (pd_reservation p))
                (\<lambda>token. if list_ex (owns (pd_signer p) (r_id rec) token) (db_reservations d) then Inr ()
                         else Inl (ErrStore ''signer reservation mismatch''))) (\<lambda>_.
        case r_pending previous of
          None \<Rightarrow> Inr (db_reservations d)
        | Some p \<Rightarrow>
            if r_pending rec \<noteq> None
            then (if r_pending rec \<noteq> r_pending previous
                  then Inl (ErrStore ''cannot replace unresolved journal'') else Inr (db_reservations d))
            else
              and_then (ok_or (ErrStore ''legacy journal requires manual reconciliation'') (pd_reservation p))
                (\<lambda>token. if length (filter (owns (pd_signer p) (r_id rec) token) (db_reservations d)) \<noteq> 1
                         then Inl (ErrStore ''signer reservation mismatch'')
                         else Inr (filter (\<lambda>v. \<not> owns (pd_signer p) (r_id rec) token v)
                                     (db_reservations d)))))"

definition written_row :: "payment_record \<Rightarrow> row \<Rightarrow> row" where
  "written_row r row =
     row\<lparr>row_state := as_str (r_state r), row_version := sint (r_version r), row_record := r\<rparr>"

definition sqlite_update ::
    "payment_record \<Rightarrow> u64 \<Rightarrow> sqlite_db \<Rightarrow> payment_record res \<times> sqlite_db" where
  "sqlite_update rec now d =
     (case find_row (r_id rec) d of
        None \<Rightarrow> (Inl (NotFound (r_id rec)), d)
      | Some row \<Rightarrow>
          (case and_then (update_checks (row_record row) rec d) (\<lambda>reservations.
                and_then (ok_or (ErrStore ''version overflow'') (checked_add (r_version rec) 1)) (\<lambda>v.
                Inr (reservations, rec\<lparr>r_version := v, r_updated_at := now\<rparr>))) of
             Inl e \<Rightarrow> (Inl e, d)
           | Inr (reservations, rec') \<Rightarrow>
               (Inr rec',
                set_rows (r_id rec') (written_row rec') (d\<lparr>db_reservations := reservations\<rparr>))))"

definition sqlite_ops :: "'k crypto \<Rightarrow> sqlite_db store_ops" where
  "sqlite_ops cr =
     \<lparr>so_require_signing = sqlite_require_signing,
      so_reserve_signer_for_record = sqlite_reserve_signer_for_record,
      so_reserve_signer = sqlite_reserve_signer,
      so_cancel_preparation = sqlite_cancel_preparation,
      so_migrate_legacy_policy = sqlite_migrate_legacy_policy cr,
      so_insert = sqlite_insert, so_get = sqlite_get, so_list = sqlite_list,
      so_update = sqlite_update\<rparr>"

lemma sqlite_ops_simps [simp]:
  "so_require_signing (sqlite_ops cr) = sqlite_require_signing"
  "so_reserve_signer_for_record (sqlite_ops cr) = sqlite_reserve_signer_for_record"
  "so_reserve_signer (sqlite_ops cr) = sqlite_reserve_signer"
  "so_cancel_preparation (sqlite_ops cr) = sqlite_cancel_preparation"
  "so_migrate_legacy_policy (sqlite_ops cr) = sqlite_migrate_legacy_policy cr"
  "so_insert (sqlite_ops cr) = sqlite_insert" "so_get (sqlite_ops cr) = sqlite_get"
  "so_list (sqlite_ops cr) = sqlite_list" "so_update (sqlite_ops cr) = sqlite_update"
  by (simp_all add: sqlite_ops_def)

section \<open>Invariant and abstraction\<close>

definition row_ok :: "row \<Rightarrow> bool" where
  "row_ok row \<longleftrightarrow> row_id row = r_id (row_record row) \<and>
     row_state row = as_str (r_state (row_record row)) \<and>
     row_version row = sint (r_version (row_record row))"

definition db_content :: "sqlite_db \<Rightarrow> string \<Rightarrow> payment_record option" where
  "db_content d i = map_option row_record (find_row i d)"

definition db_held :: "sqlite_db \<Rightarrow> (string \<times> string \<times> string) set" where
  "db_held d = (\<lambda>v. (rs_signer v, rs_job v, rs_token v)) ` set (db_reservations d)"

definition row_claims_ok :: "reservation list \<Rightarrow> row \<Rightarrow> bool" where
  "row_claims_ok vs row \<longleftrightarrow>
     (case r_pending (row_record row) of
        None \<Rightarrow> True
      | Some p \<Rightarrow>
          (case pd_reservation p of
             None \<Rightarrow> list_all (\<lambda>v. rs_signer v \<noteq> pd_signer p) vs
           | Some t \<Rightarrow> list_ex (owns (pd_signer p) (row_id row) t) vs))"

definition sqlite_inv :: "sqlite_db \<Rightarrow> bool" where
  "sqlite_inv d \<longleftrightarrow>
     distinct (map row_id (db_payments d)) \<and> list_all row_ok (db_payments d) \<and>
     distinct (map rs_signer (db_reservations d)) \<and> distinct (map rs_token (db_reservations d)) \<and>
     list_all (row_claims_ok (db_reservations d)) (db_payments d)"

section \<open>Rows and reservations\<close>

lemma find_row_SomeD: "find_row i d = Some row \<Longrightarrow> row \<in> set (db_payments d) \<and> row_id row = i"
  by (auto simp: find_row_def find_Some_iff)

lemma find_row_iff:
  assumes "distinct (map row_id (db_payments d))"
  shows "find_row i d = Some row \<longleftrightarrow> row \<in> set (db_payments d) \<and> row_id row = i"
proof
  assume r: "row \<in> set (db_payments d) \<and> row_id row = i"
  then obtain row' where f: "find_row i d = Some row'"
    by (cases "find_row i d") (auto simp: find_row_def find_None_iff)
  then have "row' = row"
    using r find_row_SomeD [OF f] assms by (auto simp: distinct_map dest: inj_onD)
  then show "find_row i d = Some row" using f by simp
qed (rule find_row_SomeD)

lemma find_row_None_iff: "find_row i d = None \<longleftrightarrow> i \<notin> row_id ` set (db_payments d)"
  by (auto simp: find_row_def find_None_iff)

lemma find_map_rows:
  assumes "\<And>x. row_id (f x) = row_id x"
  shows "find (\<lambda>row. row_id row = j) (map (\<lambda>row. if row_id row = i then f row else row) xs) =
         (if j = i then map_option f (find (\<lambda>row. row_id row = i) xs)
          else find (\<lambda>row. row_id row = j) xs)"
  by (induction xs) (auto simp: assms)

lemma find_row_set_rows:
  "(\<And>x. row_id (f x) = row_id x) \<Longrightarrow>
   find_row j (set_rows i f d) = (if j = i then map_option f (find_row i d) else find_row j d)"
  by (simp add: find_row_def set_rows_def find_map_rows)

lemma find_row_reservations [simp]: "find_row i (d\<lparr>db_reservations := vs\<rparr>) = find_row i d"
  by (simp add: find_row_def)

lemma set_rows_simps [simp]:
  "db_reservations (set_rows i f d) = db_reservations d"
  "db_recoveries (set_rows i f d) = db_recoveries d"
  by (simp_all add: set_rows_def)

lemma set_rows_ids:
  "(\<And>x. row_id (f x) = row_id x) \<Longrightarrow> map row_id (db_payments (set_rows i f d)) = map row_id (db_payments d)"
  by (simp add: set_rows_def)

lemma set_rows_all:
  assumes "\<And>row. row \<in> set (db_payments d) \<Longrightarrow> row_id row = i \<Longrightarrow> P (f row)"
    and "\<And>row. row \<in> set (db_payments d) \<Longrightarrow> row_id row \<noteq> i \<Longrightarrow> P row"
  shows "list_all P (db_payments (set_rows i f d))"
  using assms by (auto simp: set_rows_def list_all_iff)

lemma db_content_set_rows:
  assumes "\<And>x. row_id (f x) = row_id x" and "\<And>x. row_record (f x) = r" and "find_row i d \<noteq> None"
  shows "db_content (set_rows i f d) = (db_content d)(i \<mapsto> r)"
  using assms by (auto simp: db_content_def find_row_set_rows fun_eq_iff)

lemma db_content_row:
  assumes "sqlite_inv d"
  shows "db_content d i = Some r \<longleftrightarrow> (\<exists>row \<in> set (db_payments d). row_id row = i \<and> row_record row = r)"
  using assms find_row_iff [of d i] by (auto simp: db_content_def sqlite_inv_def)

lemma db_content_rowD:
  "sqlite_inv d \<Longrightarrow> row \<in> set (db_payments d) \<Longrightarrow> db_content d (row_id row) = Some (row_record row)"
  using db_content_row by blast

lemma owns_iff: "owns s j t v \<longleftrightarrow> v = \<lparr>rs_signer = s, rs_job = j, rs_token = t\<rparr>"
  by (cases v) (auto simp: owns_def)

lemma db_held_iff: "(s, j, t) \<in> db_held d \<longleftrightarrow> list_ex (owns s j t) (db_reservations d)"
  by (force simp: db_held_def list_ex_iff owns_def)

lemma db_held_filter:
  "db_held (d\<lparr>db_reservations := filter (\<lambda>v. \<not> owns s j t v) (db_reservations d)\<rparr>) =
   db_held d - {(s, j, t)}"
  by (auto simp: db_held_def owns_def)

lemma signer_pending_iff:
  assumes "sqlite_inv d"
  shows "signer_pending s d \<longleftrightarrow> (\<exists>i q. db_content d i = Some q \<and> journal_signer q = Some s)"
  using db_content_row [OF assms] by (auto simp: signer_pending_def list_ex_iff)

lemma length_filter_distinct_key:
  assumes "distinct (map k xs)" and "x \<in> set xs" and "P x" and "\<And>y. P y \<Longrightarrow> k y = k x"
  shows "length (filter P xs) = 1"
  using assms(1,2)
proof (induction xs)
  case (Cons y ys)
  show ?case
  proof (cases "y = x")
    case True
    have "\<not> P z" if "z \<in> set ys" for z
      using that Cons.prems(1) assms(4) [of z] True by (auto simp: image_iff)
    then have "filter P ys = []" by (simp add: filter_empty_conv)
    then show ?thesis using True assms(3) by simp
  next
    case False
    then have "x \<in> set ys" using Cons.prems(2) by simp
    then have "\<not> P y" using Cons.prems(1) assms(4) by (metis distinct.simps(2) image_eqI list.set_map list.simps(9))
    then show ?thesis using Cons \<open>x \<in> set ys\<close> by simp
  qed
qed simp

lemma owned_once:
  assumes "sqlite_inv d" and "list_ex (owns s j t) (db_reservations d)"
  shows "length (filter (owns s j t) (db_reservations d)) = 1"
proof -
  obtain v where "v \<in> set (db_reservations d)" "owns s j t v"
    using assms(2) by (auto simp: list_ex_iff)
  then show ?thesis
    using assms(1)
    by (intro length_filter_distinct_key [where k = rs_signer and x = v])
      (auto simp: sqlite_inv_def owns_def)
qed

section \<open>The operations keep the invariant\<close>

lemma claims_ok_iff:
  "row_claims_ok vs row \<longleftrightarrow>
     (\<forall>p. r_pending (row_record row) = Some p \<longrightarrow>
        (pd_reservation p = None \<longrightarrow> (\<forall>v \<in> set vs. rs_signer v \<noteq> pd_signer p)) \<and>
        (\<forall>t. pd_reservation p = Some t \<longrightarrow> list_ex (owns (pd_signer p) (row_id row) t) vs))"
  by (auto simp: row_claims_ok_def list_all_iff split: option.splits)

text \<open>Appending a reservation of a signer without a journal entry, and dropping one that no row
  claims, leave every claim in order.\<close>

lemma claims_ok_add:
  assumes "row_claims_ok vs row" and "journal_signer (row_record row) \<noteq> Some (rs_signer v)"
  shows "row_claims_ok (vs @ [v]) row"
  using assms by (auto simp: claims_ok_iff journal_signer_def)

lemma claims_ok_drop:
  assumes "row_claims_ok vs row" and "journal_claim (row_record row) = Some (s, t) \<longrightarrow> row_id row \<noteq> j"
  shows "row_claims_ok (filter (\<lambda>v. \<not> owns s j t v) vs) row"
  using assms
  by (auto simp: claims_ok_iff list_ex_iff owns_iff journal_claim_def split: option.splits)

lemma reserve_inv:
  assumes "sqlite_inv d"
  shows "sqlite_inv (snd (reserve s j v tok d))"
proof (cases "\<exists>t. fst (reserve s j v tok d) = Inr t")
  case False
  then show ?thesis using assms by (auto simp: reserve_def split: if_splits)
next
  case True
  let ?v = "\<lparr>rs_signer = s, rs_job = j, rs_token = tok\<rparr>"
  have free: "\<not> signer_pending s d" "list_all (\<lambda>v. rs_signer v \<noteq> s \<and> rs_token v \<noteq> tok) (db_reservations d)"
    and d': "snd (reserve s j v tok d) = d\<lparr>db_reservations := db_reservations d @ [?v]\<rparr>"
    using True by (auto simp: reserve_def list_ex_iff list_all_iff split: if_splits)
  have "list_all (row_claims_ok (db_reservations d @ [?v])) (db_payments d)"
    using assms free(1) claims_ok_add
    by (fastforce simp: sqlite_inv_def signer_pending_def list_all_iff list_ex_iff)
  then show ?thesis
    using assms free(2) d' by (auto simp: sqlite_inv_def list_all_iff)
qed

lemma cancel_inv:
  assumes "sqlite_inv d"
  shows "sqlite_inv (snd (sqlite_cancel_preparation s j tok d))"
proof (cases "\<exists>t. fst (sqlite_cancel_preparation s j tok d) = Inr t")
  case False
  then show ?thesis using assms by (auto simp: sqlite_cancel_preparation_def Let_def split: if_splits)
next
  case True
  have free: "\<forall>row \<in> set (db_payments d). journal_signer (row_record row) \<noteq> Some s"
    and d': "snd (sqlite_cancel_preparation s j tok d) =
        d\<lparr>db_reservations := filter (\<lambda>v. \<not> owns s j tok v) (db_reservations d)\<rparr>"
    using True by (auto simp: sqlite_cancel_preparation_def Let_def list_ex_iff split: if_splits)
  have "journal_claim (row_record row) \<noteq> Some (s, tok)" if "row \<in> set (db_payments d)" for row
    using free that by (auto simp: journal_signer_def dest!: journal_claim_SomeD)
  then show ?thesis
    using assms d' claims_ok_drop
    by (fastforce simp: sqlite_inv_def list_all_iff distinct_map_filter)
qed

lemma insert_inv_sqlite:
  assumes "sqlite_inv d" and "r_pending r = None"
  shows "sqlite_inv (snd (sqlite_insert r d))"
  using assms
  by (auto simp: sqlite_insert_def sqlite_inv_def row_ok_def row_claims_ok_def find_row_None_iff)

lemma update_checks_InrD:
  assumes "update_checks c r d = Inr vs"
  shows "r_version c = r_version r \<and> same_policy c r \<and>
    (r_pending c \<noteq> None \<and> r_pending r \<noteq> None \<longrightarrow> r_pending r = r_pending c) \<and>
    (r_pending r \<noteq> None \<longrightarrow> (\<exists>s t. journal_claim r = Some (s, t) \<and> list_ex (owns s (r_id r) t) (db_reservations d))) \<and>
    (if r_pending c \<noteq> None \<and> r_pending r = None
     then (\<exists>s t. journal_claim c = Some (s, t) \<and> list_ex (owns s (r_id r) t) (db_reservations d) \<and>
             vs = filter (\<lambda>v. \<not> owns s (r_id r) t v) (db_reservations d))
     else vs = db_reservations d)"
proof -
  have ex: "list_ex P xs" if "length (filter P xs) = Suc 0" for P :: "reservation \<Rightarrow> bool" and xs
    using that by (metis filter_False list_ex_iff list.size(3) nat.distinct(1))
  show ?thesis
    using assms
    by (auto simp: update_checks_def same_policy_def journal_claim_def result_simps
        split: if_splits option.splits intro: ex)
qed

lemma written_row_simps [simp]:
  "row_id (written_row r row) = row_id row" "row_record (written_row r row) = r"
  by (simp_all add: written_row_def)

lemma sqlite_update_InrD:
  assumes "sqlite_update r now d = (Inr r', d')"
  shows "\<exists>c vs. db_content d (r_id r) = Some c \<and> update_checks c r d = Inr vs \<and>
    r' = next_version now r \<and> unat (r_version r') = unat (r_version r) + 1 \<and>
    d' = set_rows (r_id r) (written_row r') (d\<lparr>db_reservations := vs\<rparr>)"
  using assms
  by (auto simp: sqlite_update_def db_content_def next_version_def result_simps
      split: option.splits sum.splits prod.splits dest!: checked_add_SomeD)

lemma sqlite_update_Inl: "sqlite_update r now d = (Inl e, d') \<Longrightarrow> d' = d"
  by (auto simp: sqlite_update_def split: option.splits sum.splits)

lemma written_claims:
  assumes "r_id r = row_id row"
    and "r_pending r = None \<or> (\<exists>s t. journal_claim r = Some (s, t) \<and> list_ex (owns s (r_id r) t) vs)"
  shows "row_claims_ok vs (written_row r row)"
  using assms by (auto simp: row_claims_ok_def dest!: journal_claim_SomeD)

lemma update_inv_sqlite:
  assumes "sqlite_inv d"
  shows "sqlite_inv (snd (sqlite_update r now d))"
proof (cases "fst (sqlite_update r now d)")
  case (Inl e)
  then show ?thesis using assms sqlite_update_Inl [of r now d] by (metis prod.collapse)
next
  case (Inr r')
  obtain d' where u: "sqlite_update r now d = (Inr r', d')" using Inr by (metis prod.collapse)
  obtain c vs where uc: "update_checks c r d = Inr vs" and r': "r' = next_version now r"
    and d': "d' = set_rows (r_id r) (written_row r') (d\<lparr>db_reservations := vs\<rparr>)"
    using sqlite_update_InrD [OF u] by auto
  note chk = update_checks_InrD [OF uc]
  have vs: "vs = db_reservations d \<or>
      r_pending r = None \<and> (\<exists>s t. vs = filter (\<lambda>v. \<not> owns s (r_id r) t v) (db_reservations d))"
    using chk by (auto split: if_splits)
  have ok: "row_claims_ok (db_reservations d) row" "row_ok row" if "row \<in> set (db_payments d)" for row
    using assms that by (auto simp: sqlite_inv_def list_all_iff)
  have "list_all (row_claims_ok vs) (db_payments d')"
    unfolding d'
  proof (rule set_rows_all)
    show "row_claims_ok vs (written_row r' row)" if "row_id row = r_id r" for row
      using chk that r' by (auto intro!: written_claims split: if_splits)
    show "row_claims_ok vs row" if "row \<in> set (db_payments (d\<lparr>db_reservations := vs\<rparr>))" "row_id row \<noteq> r_id r" for row
      using vs ok that by (auto intro!: claims_ok_drop)
  qed
  moreover have "list_all row_ok (db_payments d')"
    unfolding d' using ok r' by (intro set_rows_all) (auto simp: row_ok_def written_row_def)
  moreover have "map row_id (db_payments d') = map row_id (db_payments d)"
    by (simp add: d' set_rows_ids)
  moreover have "distinct (map rs_signer vs)" "distinct (map rs_token vs)"
    using vs assms by (auto simp: sqlite_inv_def distinct_map_filter)
  ultimately show ?thesis
    using assms u d' by (simp add: sqlite_inv_def)
qed

text \<open>Replacing a record by one without journal entry, in the same state.\<close>

lemma replace_record_inv:
  assumes "sqlite_inv d" and "find_row i d = Some row" and "r_id r' = r_id (row_record row)"
    and "r_state r' = r_state (row_record row)" and "r_pending r' = None" and "n = sint (r_version r')"
  shows "sqlite_inv (set_rows i (\<lambda>row. row\<lparr>row_version := n, row_record := r'\<rparr>) d)"
proof -
  have "r_id (row_record row) = i"
    using assms(1) find_row_SomeD [OF assms(2)] by (auto simp: sqlite_inv_def list_all_iff row_ok_def)
  moreover have "row0 = row" if "row0 \<in> set (db_payments d)" "row_id row0 = i" for row0
    using that assms(1,2) find_row_iff [of d i row0] by (simp add: sqlite_inv_def)
  ultimately show ?thesis
    using assms unfolding sqlite_inv_def
    by (intro conjI set_rows_all) (auto simp: set_rows_ids list_all_iff row_ok_def row_claims_ok_def)
qed

lemma migrate_inv_sqlite:
  assumes "sqlite_inv d"
  shows "sqlite_inv (snd (sqlite_migrate_legacy_policy cr i v b now d))"
proof (cases "fst (sqlite_migrate_legacy_policy cr i v b now d)")
  case (Inl e)
  then show ?thesis
    using assms by (auto simp: sqlite_migrate_legacy_policy_def split: if_splits option.splits sum.splits prod.splits)
next
  case (Inr r')
  obtain row n where row: "find_row i d = Some row"
    and m: "migrated_policy cr (row_record row) v b now = Inr r'" and n: "i64_try_from (r_version r') = Some n"
    and d': "snd (sqlite_migrate_legacy_policy cr i v b now d) =
        set_rows i (\<lambda>row. row\<lparr>row_version := n, row_record := r'\<rparr>) d"
    using Inr by (auto simp: sqlite_migrate_legacy_policy_def result_simps
        split: if_splits option.splits sum.splits prod.splits)
  have "r_id r' = r_id (row_record row)" "r_state r' = r_state (row_record row)" "r_pending r' = None"
    using migrated_policy_InrD [OF m] by (auto simp: has_evidence_def)
  then show ?thesis
    unfolding d' using assms row i64_try_from_SomeD [OF n] by (intro replace_record_inv)
qed

section \<open>The contracts hold\<close>

lemma db_content_reservations [simp]: "db_content (d\<lparr>db_reservations := vs\<rparr>) = db_content d"
  by (simp add: db_content_def fun_eq_iff)

lemma reserve_InrD:
  assumes "sqlite_inv d" and "reserve s j v tok d = (Inr t, d')"
  shows "t = tok \<and> db_held d' = insert (s, j, t) (db_held d) \<and> (\<forall>j u. (s, j, u) \<notin> db_held d) \<and>
         (\<forall>i q. db_content d i = Some q \<longrightarrow> journal_signer q \<noteq> Some s)"
  using assms(2) signer_pending_iff [OF assms(1), of s]
  by (auto simp: reserve_def db_held_def list_ex_iff split: if_splits)

lemma reserve_Inl: "reserve s j v tok d = (Inl e, d') \<Longrightarrow> d' = d"
  by (auto simp: reserve_def split: if_splits)

lemma reserve_content [simp]: "db_content (snd (reserve s j v tok d)) = db_content d"
  by (auto simp: reserve_def db_content_def fun_eq_iff)

lemma cancel_content_sqlite [simp]:
  "db_content (snd (sqlite_cancel_preparation s j tok d)) = db_content d"
  by (auto simp: sqlite_cancel_preparation_def Let_def db_content_def fun_eq_iff)

lemma cancel_InrD:
  assumes "sqlite_inv d" and "sqlite_cancel_preparation s j tok d = (Inr u, d')"
  shows "(s, j, tok) \<in> db_held d \<and> db_held d' = db_held d - {(s, j, tok)} \<and>
         (\<forall>i q. db_content d i = Some q \<longrightarrow> journal_signer q \<noteq> Some s)"
proof -
  have l: "length (filter (owns s j tok) (db_reservations d)) = 1"
    and free: "\<forall>row \<in> set (db_payments d). journal_signer (row_record row) \<noteq> Some s"
    and d': "d' = d\<lparr>db_reservations := filter (\<lambda>v. \<not> owns s j tok v) (db_reservations d)\<rparr>"
    using assms(2) by (auto simp: sqlite_cancel_preparation_def Let_def list_ex_iff split: if_splits)
  have "list_ex (owns s j tok) (db_reservations d)"
    using l by (metis filter_False list_ex_iff list.size(3) zero_neq_one)
  then show ?thesis
    using free by (auto simp: db_held_iff d' db_held_filter db_content_row [OF assms(1)])
qed

lemma insert_content_sqlite:
  assumes "sqlite_insert r d = (Inr u, d')"
  shows "db_content d (r_id r) = None \<and> db_content d' = (db_content d)(r_id r \<mapsto> r)"
proof -
  have n: "find_row (r_id r) d = None" using assms by (auto simp: sqlite_insert_def split: if_splits)
  have app: "find P (xs @ [x]) = (case find P xs of None \<Rightarrow> if P x then Some x else None | Some y \<Rightarrow> Some y)"
    for P :: "row \<Rightarrow> bool" and xs x
    by (induction xs) auto
  show ?thesis
    using assms n
    by (auto simp: sqlite_insert_def db_content_def fun_eq_iff find_row_def app split: option.splits)
qed

lemma insert_Inl_sqlite: "sqlite_insert r d = (Inl e, d') \<Longrightarrow> d' = d"
  by (auto simp: sqlite_insert_def split: if_splits)

lemma update_content_sqlite:
  assumes "sqlite_update r now d = (Inr r', d')"
  shows "r' = next_version now r \<and> db_content d' = (db_content d)(r_id r \<mapsto> r') \<and>
         (\<exists>c. db_content d (r_id r) = Some c \<and> r_version c = r_version r \<and> same_policy c r)"
proof -
  obtain c vs where c: "db_content d (r_id r) = Some c" "update_checks c r d = Inr vs"
    "r' = next_version now r" "d' = set_rows (r_id r) (written_row r') (d\<lparr>db_reservations := vs\<rparr>)"
    using sqlite_update_InrD [OF assms] by auto
  have "db_content d' = (db_content (d\<lparr>db_reservations := vs\<rparr>))(r_id r \<mapsto> r')"
    unfolding c(4) using c(1) by (intro db_content_set_rows) (auto simp: db_content_def)
  then show ?thesis
    using c update_checks_InrD [OF c(2)] by auto
qed

lemma update_held_sqlite:
  assumes "sqlite_update r now d = (Inr r', d')" and "db_content d (r_id r) = Some c"
  shows "(r_pending c \<noteq> None \<and> r_pending r \<noteq> None \<longrightarrow> r_pending r = r_pending c) \<and>
         (r_pending r \<noteq> None \<longrightarrow> (\<exists>s t. journal_claim r = Some (s, t) \<and> (s, r_id r, t) \<in> db_held d)) \<and>
         (if r_pending c \<noteq> None \<and> r_pending r = None
          then (\<exists>s t. journal_claim c = Some (s, t) \<and> db_held d' = db_held d - {(s, r_id r, t)})
          else db_held d' = db_held d)"
proof -
  obtain vs where vs: "update_checks c r d = Inr vs" "db_reservations d' = vs"
    using sqlite_update_InrD [OF assms(1)] assms(2) by auto
  then have "db_held d' = db_held (d\<lparr>db_reservations := vs\<rparr>)" by (simp add: db_held_def)
  then show ?thesis
    using update_checks_InrD [OF vs(1)] vs(2)
    by (auto simp: db_held_iff db_held_filter split: if_splits)
qed

lemma sqlite_listD:
  assumes "sqlite_inv d" and "sqlite_list states d = Inr rs" and "r \<in> set rs"
  shows "db_content d (r_id r) = Some r \<and> r_state r \<in> set states"
proof -
  obtain row where row: "row \<in> set (db_payments d)" "row_record row = r" "row_state row \<in> as_str ` set states"
    using assms(2,3) by (auto simp: sqlite_list_def)
  have "row_ok row" using assms(1) row(1) by (auto simp: sqlite_inv_def list_all_iff)
  then have "row_id row = r_id r" "r_state r \<in> set states"
    using row by (auto simp: row_ok_def as_str_inject)
  then show ?thesis using db_content_rowD [OF assms(1) row(1)] row(2) by simp
qed

lemma migrate_InrD:
  assumes "sqlite_migrate_legacy_policy cr i v b now d = (Inr r', d')"
  shows "\<exists>c. db_content d i = Some c \<and> migrated_policy cr c v b now = Inr r' \<and>
           db_content d' = (db_content d)(i \<mapsto> r') \<and> db_reservations d' = db_reservations d \<and>
           (\<forall>s t. (s, i, t) \<notin> db_held d)"
proof -
  obtain row n where row: "find_row i d = Some row"
    and m: "migrated_policy cr (row_record row) v b now = Inr r'"
    and d': "d' = set_rows i (\<lambda>row. row\<lparr>row_version := n, row_record := r'\<rparr>) d"
    and free: "\<not> list_ex (\<lambda>v. rs_job v = i) (db_reservations d)"
    using assms by (auto simp: sqlite_migrate_legacy_policy_def result_simps
        split: if_splits option.splits sum.splits prod.splits)
  have "db_content d' = (db_content d)(i \<mapsto> r')"
    unfolding d' using row by (intro db_content_set_rows) auto
  then show ?thesis
    using row m free by (auto simp: d' db_content_def db_held_def list_ex_iff)
qed

lemma migrate_Inl: "sqlite_migrate_legacy_policy cr i v b now d = (Inl e, d') \<Longrightarrow> d' = d"
  by (auto simp: sqlite_migrate_legacy_policy_def split: if_splits option.splits sum.splits prod.splits)

interpretation sq: signing_store "sqlite_ops cr" sqlite_inv db_content db_held
  for cr :: "'k crypto"
proof (unfold_locales, goal_cases)
  case 1 then show ?case
    by (auto simp: db_content_row sqlite_inv_def list_all_iff row_ok_def)
next
  case 2 then show ?case by (auto simp: sqlite_get_def db_content_def)
next
  case 3 then show ?case using sqlite_listD by simp
next
  case 4 then show ?case using insert_content_sqlite by simp
next
  case 5 then show ?case using insert_Inl_sqlite by simp
next
  case (6 d r y d') then show ?case using insert_inv_sqlite [of d r] by simp
next
  case 7 then show ?case using update_content_sqlite by simp
next
  case 8 then show ?case using sqlite_update_Inl by simp
next
  case (9 d r now z d') then show ?case using update_inv_sqlite [of d r now] by simp
next
  case (10 d s r tok v d')
  then show ?case
    using reserve_inv [of d s "r_id r" "Some (r_version r)" tok] reserve_content [of s "r_id r" "Some (r_version r)" tok d]
    by (simp add: sqlite_reserve_signer_for_record_def)
next
  case (11 d s j tok v d')
  then show ?case
    using reserve_inv [of d s j None tok] reserve_content [of s j None tok d]
    by (simp add: sqlite_reserve_signer_def)
next
  case (12 d s j tok y d')
  then show ?case using cancel_inv [of d s j tok] cancel_content_sqlite [of s j tok d] by simp
next
  case (13 d i ver b now r' d')
  then show ?case
    using migrate_InrD [of cr i ver b now d r' d'] migrated_policy_pristine by fastforce
next
  case 14 then show ?case using migrate_Inl by simp
next
  case (15 d i ver b now z d') then show ?case using migrate_inv_sqlite [of d cr i ver b now] by simp
next
  case (16 d s j t j' t')
  then show ?case by (auto simp: db_held_def sqlite_inv_def distinct_map dest: inj_onD)
next
  case (17 d i r s t)
  then show ?case
    by (auto simp: db_content_row db_held_iff sqlite_inv_def list_all_iff claims_ok_iff dest!: journal_claim_SomeD)
next
  case (18 d i r p j t)
  then show ?case by (force simp: db_content_row db_held_def sqlite_inv_def list_all_iff claims_ok_iff)
next
  case (19 d s r tok t d')
  then show ?case using reserve_InrD by (simp add: sqlite_reserve_signer_for_record_def)
next
  case 20 then show ?case using reserve_Inl by (simp add: sqlite_reserve_signer_for_record_def)
next
  case 21 then show ?case using cancel_InrD by simp
next
  case 22 then show ?case
    by (auto simp: sqlite_cancel_preparation_def Let_def split: if_splits)
next
  case 23 then show ?case by (auto simp: sqlite_insert_def db_held_def split: if_splits)
next
  case 24 then show ?case using update_held_sqlite by simp
qed

end
