(* ===== verification/Journal.thy ===== *)
theory Journal
  imports Sqlite_Store
begin

text \<open>
  The journaled transaction protocol of \<open>src/src/engine.rs\<close>: \<open>apply\<close>, \<open>send_journaled\<close> and
  \<open>reconcile_journaled\<close>, over the transport trait \<open>TransactionRpc\<close>/\<open>EngineRpc\<close>.

  The world of a client is the shared database, the rest of the environment \<open>'c\<close> (chain, clock,
  random numbers), the statuses sent on the in-process channel, and a history variable
  \<open>w_sent\<close>: every prepared transaction handed to the network, with the database at that moment.
  The transport is the record \<open>('c, 'k) rpc\<close>; it is code outside this theory (the chain client
  and the network) and nothing is assumed of it.

  Other clients share the database.  \<open>rp_others\<close> gives the store operations they perform before
  a database operation of this client takes effect; it is arbitrary, so the theorems hold for
  every interleaving at the granularity of database transactions.  Transport calls do not read
  the database, so this is the only place where interference can show.
\<close>

record ('c, 'k) rpc =
  rp_others :: "'c \<Rightarrow> store_op list \<times> 'c"
  rp_now :: "'c \<Rightarrow> u64 \<times> 'c"
  rp_uuid :: "'c \<Rightarrow> string \<times> 'c"
  rp_random :: "nat \<Rightarrow> 'c \<Rightarrow> u8 list \<times> 'c"
  rp_prepare :: "chain_call \<Rightarrow> 'k \<Rightarrow> 'c \<Rightarrow> prepared_tx res \<times> 'c"
  rp_broadcast :: "prepared_tx \<Rightarrow> 'c \<Rightarrow> finalized_tx res \<times> 'c"
  rp_find_pending :: "pending_tx \<Rightarrow> 'c \<Rightarrow> pending_outcome res \<times> 'c"
  rp_genesis_hash :: string
  rp_free_balance :: "account_id \<Rightarrow> 'c \<Rightarrow> u64 res \<times> 'c"
  rp_account :: "account_id \<Rightarrow> 'c \<Rightarrow> (u64 \<times> u32) res \<times> 'c"
  rp_alpha_on :: "account_id \<Rightarrow> u16 \<Rightarrow> 'c \<Rightarrow> (u64 \<times> stake_position list) res \<times> 'c"
  rp_alpha_of :: "account_id \<Rightarrow> account_id \<Rightarrow> u16 \<Rightarrow> 'c \<Rightarrow> u64 res \<times> 'c"
  rp_estimate_fee :: "chain_call \<Rightarrow> 'k \<Rightarrow> 'c \<Rightarrow> u64 res \<times> 'c"
  rp_existential_deposit :: "'c \<Rightarrow> u64 res \<times> 'c"
  rp_alpha_price :: "u16 \<Rightarrow> 'c \<Rightarrow> u64 res \<times> 'c"
  rp_hotkey_owner :: "account_id \<Rightarrow> 'c \<Rightarrow> account_id option res \<times> 'c"
  rp_stake_positions_many ::
    "account_id list \<Rightarrow> 'c \<Rightarrow> (account_id \<times> stake_position list) list res \<times> 'c"
  rp_webhook_post :: "string \<Rightarrow> payment_status \<Rightarrow> 'c \<Rightarrow> unit res \<times> 'c"

record ('c, 'd) world =
  w_env :: 'c
  w_db :: 'd
  w_events :: "payment_status list"
  w_sent :: "(prepared_tx \<times> 'd) list"

text \<open>What a client of the store and the chain holds: transport, store, cryptography.\<close>

record ('c, 'd, 'k) client =
  cl_rpc :: "('c, 'k) rpc"
  cl_store :: "'d store_ops"
  cl_crypto :: "'k crypto"

type_synonym ('c, 'd, 'a) act = "(('c, 'd) world, error, 'a) io"

section \<open>Calls\<close>

definition rpc_do :: "('c \<Rightarrow> 'a res \<times> 'c) \<Rightarrow> ('c, 'd, 'a) act" where
  "rpc_do f = (\<lambda>w. let (x, c) = f (w_env w) in (x, w\<lparr>w_env := c\<rparr>))"

definition now_do :: "('c, 'd, 'k) client \<Rightarrow> ('c, 'd, u64) act" where
  "now_do cl = rpc_do (\<lambda>c. let (t, c) = rp_now (cl_rpc cl) c in (Inr t, c))"

definition uuid_do :: "('c, 'd, 'k) client \<Rightarrow> ('c, 'd, string) act" where
  "uuid_do cl = rpc_do (\<lambda>c. let (t, c) = rp_uuid (cl_rpc cl) c in (Inr t, c))"

definition random_do :: "('c, 'd, 'k) client \<Rightarrow> nat \<Rightarrow> ('c, 'd, u8 list) act" where
  "random_do cl n = rpc_do (\<lambda>c. let (b, c) = rp_random (cl_rpc cl) n c in (Inr b, c))"

text \<open>A database operation, after what the other clients did.\<close>

definition db_do :: "('c, 'd, 'k) client \<Rightarrow> ('d \<Rightarrow> 'a res \<times> 'd) \<Rightarrow> ('c, 'd, 'a) act" where
  "db_do cl f = (\<lambda>w.
     let (others, c) = rp_others (cl_rpc cl) (w_env w);
         d = fold (run_op (cl_store cl)) others (w_db w);
         (x, d) = f d
     in (x, w\<lparr>w_env := c, w_db := d\<rparr>))"

definition st_get :: "('c, 'd, 'k) client \<Rightarrow> string \<Rightarrow> ('c, 'd, payment_record option) act" where
  "st_get cl i = db_do cl (\<lambda>d. (so_get (cl_store cl) i d, d))"

definition st_list :: "('c, 'd, 'k) client \<Rightarrow> payment_state list \<Rightarrow> ('c, 'd, payment_record list) act" where
  "st_list cl states = db_do cl (\<lambda>d. (so_list (cl_store cl) states d, d))"

definition st_require_signing :: "('c, 'd, 'k) client \<Rightarrow> ('c, 'd, unit) act" where
  "st_require_signing cl = db_do cl (\<lambda>d. (so_require_signing (cl_store cl) d, d))"

definition st_insert :: "('c, 'd, 'k) client \<Rightarrow> payment_record \<Rightarrow> ('c, 'd, unit) act" where
  "st_insert cl r = db_do cl (so_insert (cl_store cl) r)"

definition st_update :: "('c, 'd, 'k) client \<Rightarrow> payment_record \<Rightarrow> ('c, 'd, payment_record) act" where
  "st_update cl r = io_bind (now_do cl) (\<lambda>now. db_do cl (so_update (cl_store cl) r now))"

definition st_reserve :: "('c, 'd, 'k) client \<Rightarrow> string \<Rightarrow> payment_record \<Rightarrow> ('c, 'd, string) act" where
  "st_reserve cl signer r =
     io_bind (uuid_do cl) (\<lambda>token. db_do cl (so_reserve_signer_for_record (cl_store cl) signer r token))"

definition st_cancel ::
    "('c, 'd, 'k) client \<Rightarrow> string \<Rightarrow> string \<Rightarrow> string \<Rightarrow> ('c, 'd, unit) act" where
  "st_cancel cl signer job token = db_do cl (so_cancel_preparation (cl_store cl) signer job token)"

text \<open>Handing a transaction to the network is recorded in the history variable.\<close>

definition broadcast :: "('c, 'd, 'k) client \<Rightarrow> prepared_tx \<Rightarrow> ('c, 'd, finalized_tx) act" where
  "broadcast cl p = (\<lambda>w. rpc_do (rp_broadcast (cl_rpc cl) p) (w\<lparr>w_sent := w_sent w @ [(p, w_db w)]\<rparr>))"

section \<open>Receipts\<close>

text \<open>The match of \<open>apply\<close>, on the record whose journal entry has been taken out.\<close>

fun apply_action :: "action \<Rightarrow> tx_ref \<Rightarrow> event_summary \<Rightarrow> payment_record \<Rightarrow> payment_record res" where
  "apply_action Fund tx s r = transition Funded (r\<lparr>r_funded_tao := r_funded_tao r + tr_amount tx\<rparr>)"
| "apply_action (Sweep hk) tx s r =
     (if \<not> summary_has s PALLET ''StakeTransferred'' then Inl (EventMissing ''StakeTransferred'')
      else Inr (r\<lparr>r_swept_alpha := r_swept_alpha r + tr_amount tx,
                  r_swept_positions := r_swept_positions r @ [(hk, tr_amount tx)]\<rparr>))"
| "apply_action (Consolidate hk) tx s r = Inr (r\<lparr>r_consolidated := r_consolidated r + 1\<rparr>)"
| "apply_action ReturnDust tx s r = Inr (r\<lparr>r_dust_returned := True\<rparr>)"
| "apply_action (BuyStake n limit) tx s r =
     and_then (ok_or (EventMissing ''StakeAdded'') (es_stake_added s)) (\<lambda>(tao, alpha).
     if tao \<noteq> tr_amount tx \<or> alpha = 0
     then Inl (ErrStore ''purchase does not match full requested budget'')
     else Inr (r\<lparr>r_buyback := Some \<lparr>br_netuid = n, br_tao_spent = tao, br_alpha_bought = alpha,
                   br_limit_price = limit, br_stake_tx = tx, br_destroy_tx = None,
                   br_alpha_destroyed = 0\<rparr>\<rparr>))"
| "apply_action (Destroy n recycle) tx s r =
     and_then (ok_or (EventMissing ''AlphaBurned/AlphaRecycled'') (es_alpha_destroyed s)) (\<lambda>destroyed.
     and_then (ok_or (ErrStore ''burn without purchase receipt'') (r_buyback r)) (\<lambda>b.
     if destroyed \<noteq> br_alpha_bought b \<or> destroyed = 0
     then Inl (ErrStore ''burn amount does not match purchased alpha'')
     else Inr (r\<lparr>r_buyback := Some (b\<lparr>br_destroy_tx := Some tx, br_alpha_destroyed := destroyed\<rparr>),
                 r_buyback_done := True\<rparr>)))"

definition apply_tx :: "payment_record \<Rightarrow> tx_ref \<Rightarrow> event_summary \<Rightarrow> payment_record res" where
  "apply_tx r tx s =
     and_then (ok_or (ErrStore ''apply without pending'') (r_pending r)) (\<lambda>p.
     and_then (apply_action (pd_action p) tx s (r\<lparr>r_pending := None\<rparr>)) (\<lambda>r.
     Inr (r\<lparr>r_attempts := 0, r_next_attempt_at := 0, r_last_error := None, r_txs := r_txs r @ [tx]\<rparr>)))"

section \<open>Sending\<close>

definition journal_entry :: "action \<Rightarrow> string \<Rightarrow> prepared_tx \<Rightarrow> chain_call \<Rightarrow> pending_tx" where
  "journal_entry a reservation p call =
     \<lparr>pd_action = a, pd_reservation = Some reservation, pd_signer = pp_signer p,
      pd_nonce = pp_nonce p, pd_tx_hash = pp_tx_hash p, pd_birth_block = pp_birth_block p,
      pd_amount = call_amount call\<rparr>"

definition send_journaled ::
    "('c, 'd, 'k) client \<Rightarrow> payment_record \<Rightarrow> action \<Rightarrow> chain_call \<Rightarrow> 'k \<Rightarrow> ('c, 'd, bool) act" where
  "send_journaled cl r a call signer =
     (if r_pending r \<noteq> None
      then io_fail (ErrStore ''reconcile pending transaction before preparing another'')
      else
        let signer_address = ss58 (cl_crypto cl) (cr_account_id (cl_crypto cl) signer) in
        io_bind (st_reserve cl signer_address r) (\<lambda>reservation.
        io_bind (io_attempt (rpc_do (rp_prepare (cl_rpc cl) call signer))) (\<lambda>prepared.
        case prepared of
          Inl e \<Rightarrow> io_bind (st_cancel cl signer_address (r_id r) reservation) (\<lambda>_. io_fail e)
        | Inr p \<Rightarrow>
            if pp_signer p \<noteq> signer_address
            then io_bind (st_cancel cl signer_address (r_id r) reservation)
                   (\<lambda>_. io_fail (ErrStore ''prepared signer mismatch''))
            else
              io_bind (st_update cl (r\<lparr>r_pending := Some (journal_entry a reservation p call)\<rparr>)) (\<lambda>r.
              io_bind (broadcast cl p) (\<lambda>finalized.
              io_bind (io_lift (apply_tx r (ft_tx finalized) (ft_summary finalized))) (\<lambda>applied.
              io_bind (st_update cl applied) (\<lambda>_. io_ret True)))))))"

section \<open>Reconciling\<close>

definition pending_tx_ref :: "pending_tx \<Rightarrow> string \<Rightarrow> tx_ref" where
  "pending_tx_ref p block_hash =
     \<lparr>tr_action = action_name (pd_action p), tr_tx_hash = pd_tx_hash p, tr_block_hash = block_hash,
      tr_amount = pd_amount p\<rparr>"

text \<open>The record to write for an included transaction; the clock is read when an attempt is
  recorded as failed.\<close>

definition included_record ::
    "('c, 'd, 'k) client \<Rightarrow> payment_record \<Rightarrow> pending_tx \<Rightarrow> u32 \<Rightarrow> string \<Rightarrow> event_summary \<Rightarrow>
     ('c, 'd, payment_record) act" where
  "included_record cl r p max_attempts block_hash summary =
     (let tx = pending_tx_ref p block_hash in
      if es_failed summary
      then io_bind (now_do cl) (\<lambda>now.
           io_ret (record_failure ''journaled transaction failed on finalized chain'' max_attempts now
                     (r\<lparr>r_pending := None\<rparr>)))
      else
        (case apply_tx r tx summary of
           Inr applied \<Rightarrow> io_ret applied
         | Inl e \<Rightarrow>
             io_bind (now_do cl) (\<lambda>now.
             io_ret (record_failure (''finalized receipt mismatch: '' @ error_display e) 1 now
                       (r\<lparr>r_pending := None, r_quarantined := Some p, r_txs := r_txs r @ [tx]\<rparr>)))))"

definition reconcile_journaled ::
    "('c, 'd, 'k) client \<Rightarrow> payment_record \<Rightarrow> pending_tx \<Rightarrow> u32 \<Rightarrow> ('c, 'd, bool \<times> payment_record) act" where
  "reconcile_journaled cl r p max_attempts =
     (if r_pending r \<noteq> Some p then io_fail (ErrStore ''pending journal mismatch'')
      else
        io_bind (rpc_do (rp_find_pending (cl_rpc cl) p)) (\<lambda>outcome.
        case outcome of
          Wait \<Rightarrow> io_ret (False, r)
        | Dead \<Rightarrow> io_bind (st_update cl (r\<lparr>r_pending := None\<rparr>)) (\<lambda>r. io_ret (True, r))
        | Included block_hash summary \<Rightarrow>
            io_bind (included_record cl r p max_attempts block_hash summary) (\<lambda>applied.
            io_bind (st_update cl applied) (\<lambda>r. io_ret (True, r)))))"

section \<open>Histories of broadcasts\<close>

named_theorems sends_intros \<open>bounds on the number of transactions an effect hands to the network\<close>

text \<open>The transactions an effect hands to the network are appended to the history, at most \<open>n\<close>.\<close>

definition sends_at_most :: "nat \<Rightarrow> ('c, 'd, 'a) act \<Rightarrow> bool" where
  "sends_at_most n m \<longleftrightarrow> (\<forall>w. \<exists>l. w_sent (snd (m w)) = w_sent w @ l \<and> length l \<le> n)"

lemma sends_at_mostD:
  "sends_at_most n m \<Longrightarrow> \<exists>l. w_sent (snd (m w)) = w_sent w @ l \<and> length l \<le> n"
  by (simp add: sends_at_most_def)

lemma sends_ret [sends_intros]: "sends_at_most n (io_ret x)"
  and sends_fail [sends_intros]: "sends_at_most n (io_fail e)"
  and sends_lift [sends_intros]: "sends_at_most n (io_lift r)"
  by (simp_all add: sends_at_most_def io_simps)

lemma sends_rpc [sends_intros]: "sends_at_most n (rpc_do f)"
  by (simp add: sends_at_most_def rpc_do_def case_prod_beta Let_def)

lemma sends_db [sends_intros]: "sends_at_most n (db_do cl f)"
  by (simp add: sends_at_most_def db_do_def case_prod_beta Let_def)

lemma sends_attempt [sends_intros]: "sends_at_most n m \<Longrightarrow> sends_at_most n (io_attempt m)"
  by (simp add: sends_at_most_def io_simps)

lemma sends_bind:
  assumes "sends_at_most a m" and "\<And>x. sends_at_most b (f x)"
  shows "sends_at_most (a + b) (io_bind m f)"
  unfolding sends_at_most_def
proof
  fix w
  obtain r w' where mw: "m w = (r, w')" by force
  obtain l where l: "w_sent w' = w_sent w @ l" "length l \<le> a"
    using assms(1) mw by (metis sends_at_most_def snd_conv)
  show "\<exists>l. w_sent (snd (io_bind m f w)) = w_sent w @ l \<and> length l \<le> a + b"
  proof (cases r)
    case (Inl e)
    then show ?thesis using mw l by (auto simp: io_bind_def)
  next
    case (Inr x)
    obtain k where "w_sent (snd (f x w')) = w_sent w' @ k" "length k \<le> b"
      using assms(2) [of x] by (auto simp: sends_at_most_def)
    then show ?thesis using mw l Inr by (auto simp: io_bind_def)
  qed
qed

text \<open>The two uses: a part that sends nothing before or after one that may.\<close>

lemma sends_bind_first [sends_intros]:
  "sends_at_most 0 m \<Longrightarrow> (\<And>x. sends_at_most n (f x)) \<Longrightarrow> sends_at_most n (io_bind m f)"
  using sends_bind [of 0 m n f] by simp

lemma sends_bind_last:
  "sends_at_most n m \<Longrightarrow> (\<And>x. sends_at_most 0 (f x)) \<Longrightarrow> sends_at_most n (io_bind m f)"
  using sends_bind [of n m 0 f] by simp

lemma sends_if [sends_intros]:
  "(b \<Longrightarrow> sends_at_most n m) \<Longrightarrow> (\<not> b \<Longrightarrow> sends_at_most n k) \<Longrightarrow> sends_at_most n (if b then m else k)"
  by simp

lemma sends_case_option [sends_intros]:
  "(x = None \<Longrightarrow> sends_at_most n m) \<Longrightarrow> (\<And>y. x = Some y \<Longrightarrow> sends_at_most n (f y)) \<Longrightarrow>
   sends_at_most n (case x of None \<Rightarrow> m | Some y \<Rightarrow> f y)"
  by (cases x) auto

lemma sends_case_sum [sends_intros]:
  "(\<And>e. x = Inl e \<Longrightarrow> sends_at_most n (g e)) \<Longrightarrow> (\<And>y. x = Inr y \<Longrightarrow> sends_at_most n (f y)) \<Longrightarrow>
   sends_at_most n (case x of Inl e \<Rightarrow> g e | Inr y \<Rightarrow> f y)"
  by (cases x) auto

lemma sends_case_prod [sends_intros]:
  "(\<And>a b. x = (a, b) \<Longrightarrow> sends_at_most n (f a b)) \<Longrightarrow> sends_at_most n (case x of (a, b) \<Rightarrow> f a b)"
  by (cases x) auto

lemma sends_mono: "sends_at_most n m \<Longrightarrow> n \<le> k \<Longrightarrow> sends_at_most k m"
  unfolding sends_at_most_def by (meson le_trans)

lemma sends_calls [sends_intros]:
  "sends_at_most n (now_do cl)" "sends_at_most n (uuid_do cl)" "sends_at_most n (random_do cl k)"
  "sends_at_most n (st_get cl i)" "sends_at_most n (st_list cl states)"
  "sends_at_most n (st_require_signing cl)" "sends_at_most n (st_insert cl r)"
  "sends_at_most n (st_update cl r)" "sends_at_most n (st_reserve cl s r)"
  "sends_at_most n (st_cancel cl s j t)"
  unfolding now_do_def uuid_do_def random_do_def st_get_def st_list_def st_require_signing_def
    st_insert_def st_update_def st_reserve_def st_cancel_def
  by (intro sends_intros)+

lemma sends_broadcast: "sends_at_most 1 (broadcast cl p)"
  by (simp add: sends_at_most_def broadcast_def rpc_do_def case_prod_beta Let_def)

lemma sends_send_journaled: "sends_at_most 1 (send_journaled cl r a call signer)"
  unfolding send_journaled_def Let_def
  by (intro sends_intros sends_bind_last [OF sends_broadcast])

lemma sends_included [sends_intros]: "sends_at_most n (included_record cl r p m b s)"
  unfolding included_record_def Let_def by (intro sends_intros)

lemma sends_reconcile [sends_intros]: "sends_at_most n (reconcile_journaled cl r p m)"
  unfolding reconcile_journaled_def
  by (intro sends_intros) (auto split: pending_outcome.splits intro!: sends_intros)

section \<open>Safety of the protocol, for every store with reservations\<close>

text \<open>A transaction is journaled in a database when a record has it as its unresolved entry, with
  the same hash, nonce and birth block, and the job holds the reservation of its signer.\<close>

definition journaled ::
    "('d \<Rightarrow> string \<Rightarrow> payment_record option) \<Rightarrow> ('d \<Rightarrow> (string \<times> string \<times> string) set) \<Rightarrow>
     prepared_tx \<Rightarrow> 'd \<Rightarrow> bool" where
  "journaled content held p d \<longleftrightarrow>
     (\<exists>i r j t. content d i = Some r \<and> r_pending r = Some j \<and> pd_reservation j = Some t \<and>
        pd_signer j = pp_signer p \<and> pd_nonce j = pp_nonce p \<and> pd_tx_hash j = pp_tx_hash p \<and>
        pd_birth_block j = pp_birth_block p \<and> (pp_signer p, i, t) \<in> held d)"

definition others_ok :: "('c, 'd, 'k) client \<Rightarrow> bool" where
  "others_ok cl \<longleftrightarrow> (\<forall>c. list_all op_ok (fst (rp_others (cl_rpc cl) c)))"

lemma db_do_eval:
  "db_do cl f w =
   (let c = w_env w; d = fold (run_op (cl_store cl)) (fst (rp_others (cl_rpc cl) c)) (w_db w) in
    (fst (f d), w\<lparr>w_env := snd (rp_others (cl_rpc cl) c), w_db := snd (f d)\<rparr>))"
  by (simp add: db_do_def Let_def case_prod_beta)

text \<open>The protocol's invariant: the database is well formed, and every transaction handed to the
  network was journaled in the database of that moment.\<close>

definition protocol_safe ::
    "('d \<Rightarrow> bool) \<Rightarrow> ('d \<Rightarrow> string \<Rightarrow> payment_record option) \<Rightarrow> ('d \<Rightarrow> (string \<times> string \<times> string) set) \<Rightarrow>
     ('c, 'd) world \<Rightarrow> bool" where
  "protocol_safe ok content held w \<longleftrightarrow>
     ok (w_db w) \<and> (\<forall>(p, d) \<in> set (w_sent w). ok d \<and> journaled content held p d)"

context signing_store
begin

abbreviation safe :: "('c, 'd) world \<Rightarrow> bool" where
  "safe \<equiv> protocol_safe inv content held"

lemmas safe_def = protocol_safe_def [of inv content held]

lemma safe_rpc [keeps_intros]: "keeps safe (rpc_do f)"
  by (auto simp: keeps_def rpc_do_def safe_def case_prod_beta Let_def)

lemma safe_db:
  assumes "cl_store cl = ops" and "others_ok cl" and "\<And>d. inv d \<Longrightarrow> inv (snd (f d))"
  shows "keeps safe (db_do cl f)"
  using assms run_ops_inv
  by (auto simp: keeps_def db_do_eval safe_def Let_def others_ok_def)

lemma safe_calls [keeps_intros]:
  assumes "cl_store cl = ops" and "others_ok cl"
  shows "keeps safe (now_do cl)" "keeps safe (uuid_do cl)" "keeps safe (random_do cl k)"
    "keeps safe (st_get cl i)" "keeps safe (st_list cl states)" "keeps safe (st_require_signing cl)"
    "keeps safe (st_update cl r)" "keeps safe (st_reserve cl s q)" "keeps safe (st_cancel cl s j t)"
    "r_pending r = None \<Longrightarrow> keeps safe (st_insert cl r)"
proof -
  have u: "inv d \<Longrightarrow> inv (snd (so_update ops r now d))" for d now
    by (metis prod.collapse update_inv)
  have v: "inv d \<Longrightarrow> inv (snd (so_reserve_signer_for_record ops s q tok d))" for d tok
    by (metis prod.collapse reserve_content)
  have x: "inv d \<Longrightarrow> inv (snd (so_cancel_preparation ops s j t d))" for d
    by (metis prod.collapse cancel_content)
  have y: "r_pending r = None \<Longrightarrow> inv d \<Longrightarrow> inv (snd (so_insert ops r d))" for d
    by (metis prod.collapse insert_inv)
  show "keeps safe (now_do cl)" "keeps safe (uuid_do cl)" "keeps safe (random_do cl k)"
    by (simp_all add: now_do_def uuid_do_def random_do_def safe_rpc)
  show "keeps safe (st_get cl i)" "keeps safe (st_list cl states)" "keeps safe (st_require_signing cl)"
    by (simp_all add: st_get_def st_list_def st_require_signing_def safe_db assms)
  show "keeps safe (st_update cl r)"
    unfolding st_update_def now_do_def assms(1) by (intro keeps_intros safe_rpc safe_db assms u)
  show "keeps safe (st_reserve cl s q)"
    unfolding st_reserve_def uuid_do_def assms(1) by (intro keeps_intros safe_rpc safe_db assms v)
  show "keeps safe (st_cancel cl s j t)"
    unfolding st_cancel_def assms(1) by (intro safe_db assms x)
  show "r_pending r = None \<Longrightarrow> keeps safe (st_insert cl r)"
    unfolding st_insert_def assms(1) by (intro safe_db assms y)
qed

text \<open>A successful update puts the record into the database that the next call sees; with a
  journal entry, the reservation is held.\<close>

lemma st_update_stored:
  assumes "cl_store cl = ops" and "others_ok cl" and "safe w" and "st_update cl r w = (Inr r', w')"
  shows "inv (w_db w') \<and> content (w_db w') (r_id r) = Some r' \<and> (\<exists>now. r' = next_version now r) \<and>
         (\<forall>p. r_pending r = Some p \<longrightarrow>
            (\<exists>t. pd_reservation p = Some t \<and> (pd_signer p, r_id r, t) \<in> held (w_db w')))"
proof -
  obtain now d d' where d: "inv d" and u: "so_update ops r now d = (Inr r', d')" and w': "w_db w' = d'"
  proof -
    let ?w = "snd (now_do cl w)"
    let ?d = "fold (run_op ops) (fst (rp_others (cl_rpc cl) (w_env ?w))) (w_db ?w)"
    have "inv (w_db ?w)" using safe_calls(1) [OF assms(1,2)] assms(3) by (auto simp: keeps_def safe_def)
    then have "inv ?d" using assms(2) run_ops_inv by (simp add: others_ok_def)
    moreover obtain now w1 where "now_do cl w = (Inr now, w1)" "db_do cl (so_update ops r now) w1 = (Inr r', w')"
      using assms(1,4) by (auto simp: st_update_def io_bind_Inr_iff)
    then have "so_update ops r now ?d = (Inr r', w_db w')"
      using assms(1) by (auto simp: db_do_eval Let_def prod_eq_iff)
    ultimately show thesis using that by blast
  qed
  obtain c where c: "content d (r_id r) = Some c" "r' = next_version now r"
    "content d' = (content d)(r_id r \<mapsto> r')"
    using update_ok [OF d u] by auto
  have inv': "inv d'" using update_inv [OF d u] .
  have "\<exists>t. pd_reservation p = Some t \<and> (pd_signer p, r_id r, t) \<in> held d'" if p: "r_pending r = Some p" for p
  proof -
    have "journal_claim r \<noteq> None" using update_held [OF d u c(1)] p by auto
    then obtain t where "journal_claim r' = Some (pd_signer p, t)" "pd_reservation p = Some t"
      using p c(2) by (auto simp: journal_claim_def split: option.splits)
    then show ?thesis using held_claims [OF inv'] c(3) by simp
  qed
  then show ?thesis using c w' inv' by auto
qed

lemma safe_journal_then_broadcast:
  assumes "cl_store cl = ops" and "others_ok cl"
    and "\<And>r x. keeps safe (f r x)"
  shows "keeps safe (io_bind (st_update cl (r\<lparr>r_pending := Some (journal_entry a t p call)\<rparr>))
           (\<lambda>r'. io_bind (broadcast cl p) (f r')))"
proof (rule keepsI)
  fix w :: "('a, 'd) world"
  assume w: "safe w"
  let ?r = "r\<lparr>r_pending := Some (journal_entry a t p call)\<rparr>"
  obtain x w1 where u: "st_update cl ?r w = (x, w1)" by force
  have s1: "safe w1" using keepsD [OF safe_calls(7) [OF assms(1,2)] w u] .
  show "safe (snd (io_bind (st_update cl ?r) (\<lambda>r'. io_bind (broadcast cl p) (f r')) w))"
  proof (cases x)
    case (Inl e)
    then show ?thesis using u s1 by (simp add: io_bind_def)
  next
    case (Inr r')
    have st: "content (w_db w1) (r_id r) = Some r'" "r_pending r' = Some (journal_entry a t p call)"
      "(pp_signer p, r_id r, t) \<in> held (w_db w1)"
      using st_update_stored [OF assms(1,2) w u [unfolded Inr]] by (auto simp: journal_entry_def)
    then have "journaled content held p (w_db w1)"
      unfolding journaled_def by (intro exI) (auto simp: journal_entry_def)
    then have "safe (snd (broadcast cl p w1))"
      using s1 by (auto simp: broadcast_def rpc_do_def safe_def case_prod_beta Let_def)
    then have "safe (snd (io_bind (broadcast cl p) (f r') w1))"
      using assms(3) by (auto simp: io_bind_def keeps_def split: prod.splits sum.splits)
    then show ?thesis using u Inr by (simp add: io_bind_def)
  qed
qed

lemma safe_send_journaled [keeps_intros]:
  assumes "cl_store cl = ops" and "others_ok cl"
  shows "keeps safe (send_journaled cl r a call signer)"
  unfolding send_journaled_def Let_def
  by (intro keeps_intros safe_journal_then_broadcast safe_calls assms)

lemma safe_reconcile [keeps_intros]:
  assumes "cl_store cl = ops" and "others_ok cl"
  shows "keeps safe (reconcile_journaled cl r p m)"
  unfolding reconcile_journaled_def included_record_def Let_def
  by (intro keeps_intros)
    (auto split: pending_outcome.splits sum.splits intro!: keeps_intros safe_calls assms)

end

end
