(* ===== verification/Engine.thy ===== *)
theory Engine
  imports Journal
begin

text \<open>
  The payment engine, \<open>src/src/engine.rs\<close>: creating payments and sweep jobs, the driver
  \<open>tick\<close>/\<open>step\<close>, the steps of each state, automatic buybacks, notification, \<open>retry\<close> and
  \<open>force_sweep\<close>.  An \<open>async fn\<close> is an action on the world of \<open>Journal\<close>; the guards, the order
  of the calls and the early returns are those of the code.  \<open>treasury_lock\<close> serialises the
  treasury steps within one process and has no effect of its own; logging is left out.
  \<open>en_webhook\<close> says whether a webhook secret is configured (feature \<open>webhook\<close>).
\<close>

record ('c, 'd, 'k) engine =
  en_client :: "('c, 'd, 'k) client"
  en_keyring :: keyring
  en_seed :: "derivation_seed option"
  en_treasury :: 'k
  en_cfg :: config
  en_webhook :: bool

record create_payment_opts =
  cp_min_alpha :: "u64 option"
  cp_expiry_secs :: "u64 option"
  cp_metadata :: "json option"
  cp_callback_url :: "string option"

definition en_rpc :: "('c, 'd, 'k) engine \<Rightarrow> ('c, 'k) rpc" where
  "en_rpc en = cl_rpc (en_client en)"

definition en_crypto :: "('c, 'd, 'k) engine \<Rightarrow> 'k crypto" where
  "en_crypto en = cl_crypto (en_client en)"

definition engine_new ::
    "('c, 'd, 'k) client \<Rightarrow> keyring \<Rightarrow> 'k \<Rightarrow> config \<Rightarrow> ('c, 'd, 'k) engine" where
  "engine_new cl kr treasury cfg =
     \<lparr>en_client = cl, en_keyring = kr, en_seed = None, en_treasury = treasury, en_cfg = cfg,
      en_webhook = False\<rparr>"

definition with_seed :: "derivation_seed \<Rightarrow> ('c, 'd, 'k) engine \<Rightarrow> ('c, 'd, 'k) engine" where
  "with_seed seed en = en\<lparr>en_seed := Some seed\<rparr>"

definition treasury_account :: "('c, 'd, 'k) engine \<Rightarrow> account_id" where
  "treasury_account en = cr_account_id (en_crypto en) (en_treasury en)"

definition job_identity_of :: "('c, 'd, 'k) engine \<Rightarrow> job_identity" where
  "job_identity_of en =
     \<lparr>ji_genesis_hash = rp_genesis_hash (en_rpc en),
      ji_treasury = ss58 (en_crypto en) (treasury_account en),
      ji_treasury_hotkey = ss58 (en_crypto en) (c_treasury_hotkey (en_cfg en)),
      ji_consolidate = c_consolidate (en_cfg en), ji_return_dust = c_return_dust (en_cfg en)\<rparr>"

text \<open>The channel \<open>events\<close>; a send without receivers is ignored by the code.\<close>

definition emit :: "payment_status \<Rightarrow> ('c, 'd, unit) act" where
  "emit st = (\<lambda>w. (Inr (), w\<lparr>w_events := w_events w @ [st]\<rparr>))"

section \<open>Requests\<close>

definition new_record ::
    "('c, 'd, 'k) engine \<Rightarrow> string \<Rightarrow> string \<Rightarrow> sealed_secret \<Rightarrow> u64 \<Rightarrow> payment_record" where
  "new_record en i address sealed t =
     \<lparr>r_id = i, r_address = address, r_netuid = c_netuid (en_cfg en), r_min_alpha = 0,
      r_min_tao = None, r_created_at = t, r_expires_at = - 1, r_state = Detected, r_version = 0,
      r_sealed_secret = sealed, r_metadata = None, r_callback_url = None, r_detected_alpha = 0,
      r_detected_tao = 0, r_funded_tao = 0, r_swept_alpha = 0, r_txs = [], r_buyback = None,
      r_buyback_budget = c_buyback_budget (en_cfg en),
      r_auto_required = Some (c_buyback_budget (en_cfg en) \<noteq> None),
      r_identity = Some (job_identity_of en), r_attempts = 0, r_next_attempt_at = 0,
      r_last_error = None, r_failed_from = None, r_pending = None, r_quarantined = None,
      r_swept_positions = [], r_consolidated = 0, r_dust_returned = False, r_buyback_done = False,
      r_notified = False, r_updated_at = t, r_derivation_path = None\<rparr>"

text \<open>The policy checks before a job is inserted.\<close>

definition check_policy :: "('c, 'd, 'k) engine \<Rightarrow> payment_record \<Rightarrow> unit res" where
  "check_policy en rec =
     (if (case c_auto (en_cfg en) of Off \<Rightarrow> False | On _ _ \<Rightarrow> True) \<and> r_buyback_budget rec = None
      then Inl (ErrConfig ''explicit job buyback budget required'')
      else case r_buyback_budget rec of None \<Rightarrow> Inr () | Some b \<Rightarrow> budget_validate (en_crypto en) b)"

definition payment_record_of ::
    "('c, 'd, 'k) engine \<Rightarrow> create_payment_opts \<Rightarrow> string \<Rightarrow> string \<Rightarrow> sealed_secret \<Rightarrow> u64 \<Rightarrow> payment_record" where
  "payment_record_of en opts i address sealed t =
     (new_record en i address sealed t)
       \<lparr>r_min_alpha := (case cp_min_alpha opts of None \<Rightarrow> c_min_alpha (en_cfg en) | Some a \<Rightarrow> a),
        r_min_tao := c_min_tao (en_cfg en),
        r_expires_at := t + (case cp_expiry_secs opts of None \<Rightarrow> c_expiry_secs (en_cfg en) | Some e \<Rightarrow> e),
        r_state := Pending, r_metadata := cp_metadata opts,
        r_callback_url := (case cp_callback_url opts of None \<Rightarrow> c_webhook_url (en_cfg en) | Some u \<Rightarrow> Some u)\<rparr>"

definition create_payment ::
    "('c, 'd, 'k) engine \<Rightarrow> create_payment_opts \<Rightarrow> ('c, 'd, payment_request) act" where
  "create_payment en opts =
     (let cl = en_client en; cr = en_crypto en in
      io_bind (st_require_signing cl) (\<lambda>_.
      io_bind (random_do cl 32) (\<lambda>entropy.
      io_bind (io_lift (wallet_generate cr entropy)) (\<lambda>wallet.
      io_bind (uuid_do cl) (\<lambda>i.
      let address = ss58 cr (wallet_account_id cr wallet) in
      io_bind (random_do cl 24) (\<lambda>nonce.
      io_bind (io_lift (wallet_seal_with cr wallet (en_keyring en) nonce (wallet_aad i address))) (\<lambda>sealed.
      io_bind (now_do cl) (\<lambda>t.
      let rec = payment_record_of en opts i address sealed t in
      io_bind (io_lift (check_policy en rec)) (\<lambda>_.
      io_bind (st_insert cl rec) (\<lambda>_.
      io_ret \<lparr>pr_id = i, pr_address = address, pr_netuid = r_netuid rec, pr_min_alpha = r_min_alpha rec,
              pr_min_tao = r_min_tao rec, pr_expires_at = r_expires_at rec\<rparr>))))))))))"

definition create_sweep_job ::
    "('c, 'd, 'k) engine \<Rightarrow> string \<Rightarrow> string \<Rightarrow> string \<Rightarrow> json option \<Rightarrow> ('c, 'd, payment_status) act" where
  "create_sweep_job en i path expected metadata =
     (let cl = en_client en; cr = en_crypto en in
      io_bind (st_require_signing cl) (\<lambda>_.
      io_bind (io_lift (ok_or (ErrConfig ''sweep jobs need a derivation seed'') (en_seed en))) (\<lambda>seed.
      io_bind (io_lift (seed_wallet cr seed path)) (\<lambda>wallet.
      let address = ss58 cr (wallet_account_id cr wallet) in
      if address \<noteq> expected
      then io_fail (ErrCrypto ''derived address does not match the expected one'')
      else
        io_bind (random_do cl 24) (\<lambda>nonce.
        io_bind (io_lift (wallet_seal_with cr wallet (en_keyring en) nonce (wallet_aad i address))) (\<lambda>sealed.
        io_bind (now_do cl) (\<lambda>t.
        let rec = (new_record en i address sealed t)\<lparr>r_metadata := metadata, r_derivation_path := Some path\<rparr> in
        io_bind (io_lift (check_policy en rec)) (\<lambda>_.
        io_bind (st_insert cl rec) (\<lambda>_.
        io_ret (record_status rec))))))))))"

definition get_or_not_found :: "('c, 'd, 'k) engine \<Rightarrow> string \<Rightarrow> ('c, 'd, payment_record) act" where
  "get_or_not_found en i =
     io_bind (st_get (en_client en) i) (\<lambda>r. io_lift (ok_or (NotFound i) r))"

definition engine_status :: "('c, 'd, 'k) engine \<Rightarrow> string \<Rightarrow> ('c, 'd, payment_status) act" where
  "engine_status en i = io_bind (get_or_not_found en i) (\<lambda>r. io_ret (record_status r))"

definition retry_target :: "payment_record \<Rightarrow> payment_state" where
  "retry_target r =
     (case r_failed_from r of None \<Rightarrow> Detected | Some s \<Rightarrow> if s = Pending then Detected else s)"

definition retry :: "('c, 'd, 'k) engine \<Rightarrow> string \<Rightarrow> ('c, 'd, payment_status) act" where
  "retry en i =
     io_bind (get_or_not_found en i) (\<lambda>r.
     if r_quarantined r \<noteq> None
     then io_fail (ErrStore ''finalized receipt mismatch requires explicit repair'')
     else
       io_bind (io_lift (transition (retry_target r) r)) (\<lambda>r.
       io_bind (st_update (en_client en) r) (\<lambda>r. io_ret (record_status r))))"

definition force_sweep :: "('c, 'd, 'k) engine \<Rightarrow> string \<Rightarrow> ('c, 'd, payment_status) act" where
  "force_sweep en i =
     io_bind (get_or_not_found en i) (\<lambda>r.
     io_bind (io_lift (transition Detected r)) (\<lambda>r.
     io_bind (st_update (en_client en) r) (\<lambda>r. io_ret (record_status r))))"

section \<open>Wallets, prices and receipts\<close>

definition wallet_of :: "('c, 'd, 'k) engine \<Rightarrow> payment_record \<Rightarrow> 'k wallet res" where
  "wallet_of en r =
     (let cr = en_crypto en in
      and_then (case (r_derivation_path r, en_seed en) of
          (Some path, Some seed) \<Rightarrow> seed_wallet cr seed path
        | _ \<Rightarrow> wallet_unseal_with cr (en_keyring en) (r_sealed_secret r) (wallet_aad (r_id r) (r_address r))) (\<lambda>w.
      if ss58 cr (wallet_account_id cr w) \<noteq> r_address r
      then Inl (ErrCrypto ''sealed wallet does not match address'') else Inr w))"

definition floor_of :: "config \<Rightarrow> u64 \<Rightarrow> u64" where
  "floor_of cfg price =
     (let price = max price 1;
          min_alpha = ucast (ucast MIN_STAKE_RAO * 3 div 2 * ucast RAO_PER_TAO div ucast price :: u128)
      in max (c_sweep_dust cfg) min_alpha)"

definition sweep_floor :: "('c, 'd, 'k) engine \<Rightarrow> u16 \<Rightarrow> ('c, 'd, u64) act" where
  "sweep_floor en netuid =
     io_bind (rpc_do (rp_alpha_price (en_rpc en) netuid)) (\<lambda>price. io_ret (floor_of (en_cfg en) price))"

definition engine_spendable :: "('c, 'd, 'k) engine \<Rightarrow> ('c, 'd, u64) act" where
  "engine_spendable en =
     io_bind (rpc_do (rp_free_balance (en_rpc en) (treasury_account en))) (\<lambda>free.
     io_bind (rpc_do (rp_existential_deposit (en_rpc en))) (\<lambda>ed.
     io_ret (spendable free (c_fee_reserve (en_cfg en)) ed)))"

definition destroy_call :: "destroy \<Rightarrow> account_id \<Rightarrow> u16 \<Rightarrow> u64 \<Rightarrow> chain_call" where
  "destroy_call d hk netuid alpha =
     (case d of Recycle \<Rightarrow> RecycleAlpha hk netuid alpha | _ \<Rightarrow> BurnAlpha hk netuid alpha)"

definition validate_completed_buyback :: "'k crypto \<Rightarrow> payment_record \<Rightarrow> unit res" where
  "validate_completed_buyback cr r =
     and_then (ok_or (ErrStore ''missing job budget'') (r_buyback_budget r)) (\<lambda>budget.
     and_then (budget_validate cr budget) (\<lambda>_.
     and_then (ok_or (ErrStore ''missing purchase receipt'') (r_buyback r)) (\<lambda>receipt.
     if br_tao_spent receipt \<noteq> bb_amount_rao budget
        \<or> br_netuid receipt \<noteq> bb_netuid budget
        \<or> br_alpha_bought receipt = 0
        \<or> tr_block_hash (br_stake_tx receipt) = []
        \<or> bb_destroy budget \<noteq> Keep \<and>
            (br_alpha_destroyed receipt \<noteq> br_alpha_bought receipt \<or>
             (case br_destroy_tx receipt of
                None \<Rightarrow> True
              | Some tx \<Rightarrow> tr_block_hash tx = [] \<or>
                  tr_action tx \<noteq> (if bb_destroy budget = Burn then ''burn_alpha'' else ''recycle_alpha'')))
     then Inl (ErrStore ''incomplete job buyback receipt'')
     else Inr ())))"

definition strict_buyback_amount :: "u64 \<Rightarrow> u64 \<Rightarrow> u64 res" where
  "strict_buyback_amount requested available =
     (if requested < MIN_STAKE_RAO
      then Inl (Insufficient ''buyback budget below minimum; blocked, not skipped'')
      else if available < requested
      then Inl (Insufficient ''full buyback budget unavailable; no partial spend'')
      else Inr requested)"

definition announce_if_final :: "payment_record \<Rightarrow> ('c, 'd, unit) act" where
  "announce_if_final r =
     (if r_state r = Failed \<or> r_state r = Expired then emit (record_status r) else io_ret ())"

definition notify :: "('c, 'd, 'k) engine \<Rightarrow> payment_record \<Rightarrow> ('c, 'd, unit) act" where
  "notify en r =
     (let cl = en_client en; st = record_status r;
          done = io_bind (st_update cl (r\<lparr>r_notified := True\<rparr>)) (\<lambda>_. io_ret ())
      in io_bind (emit st) (\<lambda>_.
         case r_callback_url r of
           Some url \<Rightarrow>
             if en_webhook en
             then io_bind (io_attempt (rpc_do (rp_webhook_post (en_rpc en) url st))) (\<lambda>posted.
                  case posted of
                    Inl e \<Rightarrow> io_bind (now_do cl) (\<lambda>now.
                             io_bind (st_update cl (r\<lparr>r_next_attempt_at := now + 30\<rparr>)) (\<lambda>_. io_ret ()))
                  | Inr _ \<Rightarrow> done)
             else done
         | None \<Rightarrow> done))"

section \<open>Steps\<close>

definition send :: "('c, 'd, 'k) engine \<Rightarrow> payment_record \<Rightarrow> action \<Rightarrow> chain_call \<Rightarrow> 'k \<Rightarrow> ('c, 'd, bool) act" where
  "send en = send_journaled (en_client en)"

definition resolve_pending :: "('c, 'd, 'k) engine \<Rightarrow> payment_record \<Rightarrow> pending_tx \<Rightarrow> ('c, 'd, bool) act" where
  "resolve_pending en r p =
     io_bind (reconcile_journaled (en_client en) r p (c_max_attempts (en_cfg en))) (\<lambda>(changed, r).
     if changed then io_bind (announce_if_final r) (\<lambda>_. io_ret changed) else io_ret changed)"

type_synonym positions = "(account_id \<times> stake_position list) list"

definition alpha_at :: "positions \<Rightarrow> account_id \<Rightarrow> u16 \<Rightarrow> u64" where
  "alpha_at ps who netuid =
     (case map_of ps who of
        None \<Rightarrow> 0
      | Some v \<Rightarrow> sum_list (map sp_alpha (filter (\<lambda>p. sp_netuid p = netuid) v)))"

definition step_pending :: "('c, 'd, 'k) engine \<Rightarrow> payment_record \<Rightarrow> positions \<Rightarrow> ('c, 'd, bool) act" where
  "step_pending en r ps =
     (let cl = en_client en in
      io_bind (io_lift (parse_ss58 (en_crypto en) (r_address r))) (\<lambda>who.
      let alpha = alpha_at ps who (r_netuid r) in
      io_bind (if r_min_tao r \<noteq> None then rpc_do (rp_free_balance (en_rpc en) who) else io_ret 0) (\<lambda>tao.
      let tao_ok = (case r_min_tao r of None \<Rightarrow> False | Some m \<Rightarrow> m \<le> tao) in
      if r_min_alpha r \<le> alpha \<or> tao_ok
      then io_bind (io_lift (transition Detected
                     (r\<lparr>r_detected_alpha := alpha, r_detected_tao := (if tao_ok then tao else 0)\<rparr>))) (\<lambda>r.
           io_bind (st_update cl r) (\<lambda>_. io_ret True))
      else
        io_bind (now_do cl) (\<lambda>now.
        if r_expires_at r < now
        then io_bind (io_lift (transition Expired (r\<lparr>r_detected_alpha := alpha\<rparr>))) (\<lambda>r.
             io_bind (st_update cl r) (\<lambda>r.
             io_bind (announce_if_final r) (\<lambda>_. io_ret True)))
        else io_ret False))))"

fun estimate_fees ::
    "('c, 'd, 'k) engine \<Rightarrow> 'k \<Rightarrow> u16 \<Rightarrow> stake_position list \<Rightarrow> u64 \<Rightarrow> ('c, 'd, u64) act" where
  "estimate_fees en kp netuid [] fees = io_ret fees"
| "estimate_fees en kp netuid (p # ps) fees =
     io_bind (rpc_do (rp_estimate_fee (en_rpc en)
         (TransferStake (treasury_account en) (sp_hotkey p) netuid (sp_alpha p)) kp)) (\<lambda>fee.
     estimate_fees en kp netuid ps (saturating_add fees fee))"

definition step_detected :: "('c, 'd, 'k) engine \<Rightarrow> payment_record \<Rightarrow> ('c, 'd, bool) act" where
  "step_detected en r =
     (let cl = en_client en; cr = en_crypto en; rp = en_rpc en in
      io_bind (io_lift (wallet_of en r)) (\<lambda>wallet.
      let who = wallet_account_id cr wallet in
      io_bind (rpc_do (rp_alpha_on rp who (r_netuid r))) (\<lambda>(alpha, pos).
      io_bind (rpc_do (rp_account rp who)) (\<lambda>(free, _).
      let r = r\<lparr>r_detected_alpha := max (r_detected_alpha r) alpha\<rparr> in
      io_bind (sweep_floor en (r_netuid r)) (\<lambda>floor.
      io_bind (estimate_fees en (wl_keypair wallet) (r_netuid r) (filter (\<lambda>p. floor \<le> sp_alpha p) pos) 0) (\<lambda>fees.
      io_bind (rpc_do (rp_existential_deposit rp)) (\<lambda>ed.
      let need = (if pos = [] then 0 else funding_needed fees (c_fee_margin_bps (en_cfg en)) ed free) in
      if need = 0
      then io_bind (io_lift (transition Funded r)) (\<lambda>r.
           io_bind (st_update cl r) (\<lambda>_. io_ret True))
      else send en r Fund (TransferTao who need) (en_treasury en))))))))"

definition sweepable :: "'k crypto \<Rightarrow> payment_record \<Rightarrow> u64 \<Rightarrow> stake_position \<Rightarrow> bool" where
  "sweepable cr r floor p \<longleftrightarrow>
     floor \<le> sp_alpha p \<and> ss58 cr (sp_hotkey p) \<notin> set (map fst (r_swept_positions r))"

definition step_funded :: "('c, 'd, 'k) engine \<Rightarrow> payment_record \<Rightarrow> ('c, 'd, bool) act" where
  "step_funded en r =
     (let cl = en_client en; cr = en_crypto en in
      io_bind (io_lift (wallet_of en r)) (\<lambda>wallet.
      io_bind (rpc_do (rp_alpha_on (en_rpc en) (wallet_account_id cr wallet) (r_netuid r))) (\<lambda>(_, pos).
      io_bind (sweep_floor en (r_netuid r)) (\<lambda>floor.
      case find (sweepable cr r floor) pos of
        None \<Rightarrow>
          io_bind (io_lift (transition Swept r)) (\<lambda>r.
          io_bind (st_update cl r) (\<lambda>_. io_ret True))
      | Some p \<Rightarrow>
          send en r (Sweep (ss58 cr (sp_hotkey p)))
            (TransferStake (treasury_account en) (sp_hotkey p) (r_netuid r) (sp_alpha p))
            (wl_keypair wallet)))))"

definition step_auto_buyback :: "('c, 'd, 'k) engine \<Rightarrow> payment_record \<Rightarrow> ('c, 'd, bool) act" where
  "step_auto_buyback en r =
     (let cl = en_client en; cr = en_crypto en in
      io_bind (io_lift (ok_or (ErrConfig ''job has no explicit buyback budget; blocked'')
                 (r_buyback_budget r))) (\<lambda>budget.
      io_bind (io_lift (budget_validate cr budget)) (\<lambda>_.
      case r_buyback r of
        Some b \<Rightarrow>
          if br_tao_spent b \<noteq> bb_amount_rao budget \<or> br_netuid b \<noteq> bb_netuid budget
          then io_fail (ErrStore ''purchase receipt disagrees with job budget'')
          else if br_alpha_bought b = 0
          then io_fail (Insufficient ''buyback produced no alpha; completion blocked'')
          else if br_destroy_tx b \<noteq> None \<and> br_alpha_destroyed b \<noteq> br_alpha_bought b
          then io_fail (ErrStore ''incomplete burn receipt; completion blocked'')
          else if bb_destroy budget = Keep \<or> br_destroy_tx b \<noteq> None
          then io_bind (st_update cl (r\<lparr>r_buyback_done := True\<rparr>)) (\<lambda>_. io_ret True)
          else
            io_bind (io_lift (parse_ss58 cr (bb_hotkey budget))) (\<lambda>hk.
            send en r (Destroy (bb_netuid budget) (bb_destroy budget = Recycle))
              (destroy_call (bb_destroy budget) hk (bb_netuid budget) (br_alpha_bought b))
              (en_treasury en))
      | None \<Rightarrow>
          io_bind (engine_spendable en) (\<lambda>available.
          io_bind (io_lift (strict_buyback_amount (bb_amount_rao budget) available)) (\<lambda>tao.
          io_bind (rpc_do (rp_alpha_price (en_rpc en) (bb_netuid budget))) (\<lambda>price.
          let limit = buy_limit_price price (c_slippage_bps (en_cfg en)) in
          io_bind (io_lift (parse_ss58 cr (bb_hotkey budget))) (\<lambda>hk.
          send en r (BuyStake (bb_netuid budget) limit)
            (AddStakeLimit hk (bb_netuid budget) tao limit False) (en_treasury en))))))))"

text \<open>
  The loop of \<open>step_swept\<close>: a position that needs no move is counted and stored, the first other
  one is sent and ends the step (\<open>Inl\<close>); at the end of the list the step goes on with the
  record (\<open>Inr\<close>).  The fuel is the number of iterations left; \<open>consolidate_enough_fuel\<close> in
  \<open>Engine_Safety\<close> shows that \<open>step_swept\<close> gives it enough.
\<close>

primrec consolidate_loop ::
    "nat \<Rightarrow> ('c, 'd, 'k) engine \<Rightarrow> payment_record \<Rightarrow> ('c, 'd, bool + payment_record) act" where
  "consolidate_loop 0 en r =
     (if r_consolidated r < length (r_swept_positions r) then io_fail (ErrStore ''out of fuel'')
      else io_ret (Inr r))"
| "consolidate_loop (Suc n) en r =
     (let cr = en_crypto en in
      if r_consolidated r < length (r_swept_positions r)
      then
        io_bind (io_lift (parse_ss58 cr (fst (r_swept_positions r ! r_consolidated r)))) (\<lambda>hk.
        io_bind (if hk = c_treasury_hotkey (en_cfg en) then io_ret 0
                 else rpc_do (rp_alpha_of (en_rpc en) hk (treasury_account en) (r_netuid r))) (\<lambda>live.
        if live = 0
        then io_bind (st_update (en_client en) (r\<lparr>r_consolidated := r_consolidated r + 1\<rparr>))
               (consolidate_loop n en)
        else
          io_bind (send en r (Consolidate (ss58 cr hk))
              (MoveStake hk (c_treasury_hotkey (en_cfg en)) (r_netuid r) live) (en_treasury en))
            (\<lambda>b. io_ret (Inl b))))
      else io_ret (Inr r))"

definition settle :: "('c, 'd, 'k) engine \<Rightarrow> payment_record \<Rightarrow> ('c, 'd, bool) act" where
  "settle en r =
     io_bind (io_lift (ok_or (ErrConfig ''legacy job policy requires explicit migration'')
                (r_auto_required r))) (\<lambda>required.
     if required \<and> r_buyback_budget r = None
     then io_fail (ErrConfig ''required job budget missing'')
     else
       io_bind (if required \<and> r_buyback_done r
                then io_lift (validate_completed_buyback (en_crypto en) r) else io_ret ()) (\<lambda>_.
       if required \<and> \<not> r_buyback_done r then step_auto_buyback en r
       else
         io_bind (io_lift (transition Settled r)) (\<lambda>r.
         io_bind (st_update (en_client en) r) (\<lambda>r.
         io_bind (notify en r) (\<lambda>_. io_ret True)))))"

definition step_swept :: "('c, 'd, 'k) engine \<Rightarrow> payment_record \<Rightarrow> ('c, 'd, bool) act" where
  "step_swept en r =
     io_bind (if c_consolidate (en_cfg en)
              then consolidate_loop (length (r_swept_positions r) - r_consolidated r) en r
              else io_ret (Inr r)) (\<lambda>x.
     case x of
       Inl b \<Rightarrow> io_ret b
     | Inr r \<Rightarrow>
         if \<not> r_dust_returned r \<and> (c_return_dust (en_cfg en) \<or> 0 < r_detected_tao r)
         then
           io_bind (io_lift (wallet_of en r)) (\<lambda>wallet.
           io_bind (rpc_do (rp_free_balance (en_rpc en) (wallet_account_id (en_crypto en) wallet))) (\<lambda>free.
           if 0 < free
           then send en r ReturnDust (TransferAll (treasury_account en)) (wl_keypair wallet)
           else settle en (r\<lparr>r_dust_returned := True\<rparr>)))
         else settle en r)"

section \<open>The driver\<close>

text \<open>The error path of \<open>step\<close>: the attempt is recorded unless a journal entry is unresolved.\<close>

definition step_failed :: "('c, 'd, 'k) engine \<Rightarrow> string \<Rightarrow> error \<Rightarrow> ('c, 'd, bool) act" where
  "step_failed en i e =
     io_bind (get_or_not_found en i) (\<lambda>cur.
     if r_pending cur \<noteq> None then io_fail e
     else
       io_bind (now_do (en_client en)) (\<lambda>now.
       io_bind (st_update (en_client en)
           (record_failure (error_display e) (c_max_attempts (en_cfg en)) now cur)) (\<lambda>cur.
       io_bind (announce_if_final cur) (\<lambda>_. io_fail e))))"

definition or_record_failure ::
    "('c, 'd, 'k) engine \<Rightarrow> string \<Rightarrow> ('c, 'd, bool) act \<Rightarrow> ('c, 'd, bool) act" where
  "or_record_failure en i m =
     io_bind (io_attempt m) (\<lambda>res.
     case res of
       Inr changed \<Rightarrow> io_ret changed
     | Inl e \<Rightarrow> (case e of Conflict j \<Rightarrow> io_fail (Conflict j) | _ \<Rightarrow> step_failed en i e))"

definition step :: "('c, 'd, 'k) engine \<Rightarrow> payment_record \<Rightarrow> positions \<Rightarrow> ('c, 'd, bool) act" where
  "step en r ps =
     (if r_identity r \<noteq> Some (job_identity_of en)
      then io_fail (ErrConfig ''job execution identity missing or mismatched'')
      else if r_quarantined r \<noteq> None then io_ret False
      else if r_pending r = None \<and>
              (r_auto_required r = None \<or> r_auto_required r = Some True \<and> r_buyback_budget r = None)
      then io_fail (ErrConfig ''job policy migration required before processing'')
      else
        case r_pending r of
          Some p \<Rightarrow> resolve_pending en r p
        | None \<Rightarrow>
            (case r_state r of
               Pending \<Rightarrow> step_pending en r ps
             | Detected \<Rightarrow> or_record_failure en (r_id r) (step_detected en r)
             | Funded \<Rightarrow> or_record_failure en (r_id r) (step_funded en r)
             | Swept \<Rightarrow> or_record_failure en (r_id r) (step_swept en r)
             | Settled \<Rightarrow> io_bind (notify en r) (\<lambda>_. io_ret True)
             | _ \<Rightarrow> io_ret False))"

definition skip_record :: "u64 \<Rightarrow> payment_record \<Rightarrow> bool" where
  "skip_record t r \<longleftrightarrow> r_pending r = None \<and>
     (r_state r = Failed \<or> r_state r = Settled \<and> r_notified r \<or> t < r_next_attempt_at r)"

fun tick_loop ::
    "('c, 'd, 'k) engine \<Rightarrow> u64 \<Rightarrow> positions \<Rightarrow> payment_record list \<Rightarrow> nat \<Rightarrow> ('c, 'd, nat) act" where
  "tick_loop en t ps [] n = io_ret n"
| "tick_loop en t ps (r # rs) n =
     (if skip_record t r then tick_loop en t ps rs n
      else
        io_bind (io_attempt (step en r ps)) (\<lambda>res.
        tick_loop en t ps rs (if res = Inr True then n + 1 else n)))"

definition pending_accounts :: "'k crypto \<Rightarrow> payment_record list \<Rightarrow> account_id list" where
  "pending_accounts cr recs =
     List.map_filter (\<lambda>r. case parse_ss58 cr (r_address r) of Inl _ \<Rightarrow> None | Inr a \<Rightarrow> Some a)
       (filter (\<lambda>r. r_state r = Pending \<and> r_pending r = None) recs)"

definition tick :: "('c, 'd, 'k) engine \<Rightarrow> ('c, 'd, nat) act" where
  "tick en =
     io_bind (st_list (en_client en) [Pending, Detected, Funded, Swept, Settled, Failed]) (\<lambda>recs.
     io_bind (now_do (en_client en)) (\<lambda>t.
     let who = pending_accounts (en_crypto en) recs in
     io_bind (if who = [] then io_ret [] else rpc_do (rp_stake_positions_many (en_rpc en) who)) (\<lambda>ps.
     tick_loop en t ps recs 0)))"

section \<open>Standalone calls\<close>

definition ensure_treasury_hotkey :: "('c, 'd, 'k) engine \<Rightarrow> ('c, 'd, unit) act" where
  "ensure_treasury_hotkey en =
     io_bind (rpc_do (rp_hotkey_owner (en_rpc en) (c_treasury_hotkey (en_cfg en)))) (\<lambda>owner.
     case owner of
       Some _ \<Rightarrow> io_ret ()
     | None \<Rightarrow> io_fail (ErrConfig
         ''treasury hotkey is not associated; provision it before starting signing workers''))"

definition buyback_with :: "('c, 'd, 'k) engine \<Rightarrow> u64 \<Rightarrow> destroy \<Rightarrow> ('c, 'd, buyback_receipt) act" where
  "buyback_with en amount d =
     io_fail (ErrConfig
       ''standalone buyback disabled; use a durable payment/sweep job with an explicit buyback budget'')"

definition buyback :: "('c, 'd, 'k) engine \<Rightarrow> u64 \<Rightarrow> ('c, 'd, buyback_receipt) act" where
  "buyback en amount = buyback_with en amount Keep"

definition buyback_and_burn :: "('c, 'd, 'k) engine \<Rightarrow> u64 \<Rightarrow> ('c, 'd, buyback_receipt) act" where
  "buyback_and_burn en amount = buyback_with en amount Burn"

definition buyback_and_recycle :: "('c, 'd, 'k) engine \<Rightarrow> u64 \<Rightarrow> ('c, 'd, buyback_receipt) act" where
  "buyback_and_recycle en amount = buyback_with en amount Recycle"

definition buyback_all :: "('c, 'd, 'k) engine \<Rightarrow> destroy \<Rightarrow> ('c, 'd, buyback_receipt) act" where
  "buyback_all en d = buyback_with en 0 d"

end
