(* ===== verification/Engine_Safety.thy ===== *)
theory Engine_Safety
  imports Engine
begin

text \<open>
  Safety of the engine under interference.  \<open>wf_record\<close> is the well-formedness that every record
  written by the engine has: a failed record knows the active step it failed in, a settled one
  has no journal entry and, when a buyback was required, a validated receipt, and the count of
  consolidated positions stays within the swept ones.

  The judgement \<open>gives good m R\<close> is proved for every operation of the engine, over every store
  with the reservation contract; the rely condition \<open>others_wf\<close> says that the other clients of
  the database write well-formed records too, which is what the same lemmas show of them when
  they are engines.
\<close>

section \<open>Well-formed records\<close>

definition settled_ok :: "'k crypto \<Rightarrow> payment_record \<Rightarrow> bool" where
  "settled_ok cr r \<longleftrightarrow>
     (r_state r = Settled \<longrightarrow> r_pending r = None \<and>
        (r_auto_required r \<noteq> Some False \<longrightarrow> validate_completed_buyback cr r = Inr ()))"

fun is_consolidate :: "action \<Rightarrow> bool" where
  "is_consolidate (Consolidate hk) = True"
| "is_consolidate _ = False"

definition consolidated_ok :: "payment_record \<Rightarrow> bool" where
  "consolidated_ok r \<longleftrightarrow>
     r_consolidated r \<le> length (r_swept_positions r) \<and>
     (\<forall>p. r_pending r = Some p \<longrightarrow> is_consolidate (pd_action p) \<longrightarrow>
        r_consolidated r < length (r_swept_positions r))"

definition wf_record :: "'k crypto \<Rightarrow> payment_record \<Rightarrow> bool" where
  "wf_record cr r \<longleftrightarrow> failed_ok r \<and> settled_ok cr r \<and> consolidated_ok r"

lemma validate_completed_cong:
  "r_buyback_budget r' = r_buyback_budget r \<Longrightarrow> r_buyback r' = r_buyback r \<Longrightarrow>
   validate_completed_buyback cr r' = validate_completed_buyback cr r"
  by (simp add: validate_completed_buyback_def)

text \<open>Updates of other fields keep well-formedness.\<close>

lemma wf_record_cong:
  assumes "r_state r' = r_state r" "r_failed_from r' = r_failed_from r" "r_pending r' = r_pending r"
    "r_auto_required r' = r_auto_required r" "r_buyback_budget r' = r_buyback_budget r"
    "r_buyback r' = r_buyback r" "r_consolidated r' = r_consolidated r"
    "r_swept_positions r' = r_swept_positions r"
  shows "wf_record cr r' = wf_record cr r"
  using assms validate_completed_cong [of r' r cr]
  by (simp add: wf_record_def failed_ok_def settled_ok_def consolidated_ok_def)

lemma next_version_more [simp]:
  "r_buyback (next_version now r) = r_buyback r"
  "r_consolidated (next_version now r) = r_consolidated r"
  "r_swept_positions (next_version now r) = r_swept_positions r"
  by (simp_all add: next_version_def)

lemma wf_next_version [simp]: "wf_record cr (next_version now r) = wf_record cr r"
  by (rule wf_record_cong) simp_all

lemma wf_clear_pending: "wf_record cr r \<Longrightarrow> wf_record cr (r\<lparr>r_pending := None\<rparr>)"
  using validate_completed_cong [of "r\<lparr>r_pending := None\<rparr>" r cr]
  by (auto simp: wf_record_def failed_ok_def settled_ok_def consolidated_ok_def)

lemma wf_transition:
  assumes "wf_record cr r" and "transition to r = Inr r'" and "to \<noteq> Settled"
  shows "wf_record cr r'"
proof -
  have "failed_ok r'"
    using life_failed_ok [OF life_transition [OF assms(2)]] assms(1) by (simp add: wf_record_def)
  then show ?thesis
    using assms by (auto simp: wf_record_def result_simps settled_ok_def consolidated_ok_def)
qed

lemma wf_record_failure:
  assumes "wf_record cr r"
  shows "wf_record cr (record_failure err m now r)"
proof -
  have f: "failed_ok (record_failure err m now r)"
    using life_failed_ok [OF life_failure] assms by (simp add: wf_record_def)
  have same: "r_pending (record_failure err m now r) = r_pending r"
    "r_auto_required (record_failure err m now r) = r_auto_required r"
    "r_buyback_budget (record_failure err m now r) = r_buyback_budget r"
    "r_buyback (record_failure err m now r) = r_buyback r"
    "r_consolidated (record_failure err m now r) = r_consolidated r"
    "r_swept_positions (record_failure err m now r) = r_swept_positions r"
    by (simp_all add: record_failure_def Let_def)
  show ?thesis
    using assms f same validate_completed_cong [of "record_failure err m now r" r cr]
    by (auto simp: wf_record_def settled_ok_def consolidated_ok_def)
qed

text \<open>An action may be journaled on a record that is not settled, and a consolidation only while a
  position is left.\<close>

definition may_journal :: "action \<Rightarrow> payment_record \<Rightarrow> bool" where
  "may_journal a r \<longleftrightarrow> r_state r \<noteq> Settled \<and>
     (is_consolidate a \<longrightarrow> r_consolidated r < length (r_swept_positions r))"

lemma wf_journal:
  assumes "wf_record cr r" and "may_journal a r" and "pd_action p = a"
  shows "wf_record cr (r\<lparr>r_pending := Some p\<rparr>)"
  using assms
  by (auto simp: wf_record_def failed_ok_def settled_ok_def consolidated_ok_def may_journal_def)

lemma wf_pending_may_journal:
  assumes "wf_record cr r" and "r_pending r = Some p"
  shows "may_journal (pd_action p) r"
  using assms by (auto simp: wf_record_def settled_ok_def consolidated_ok_def may_journal_def)

lemma apply_action_wf:
  assumes "wf_record cr r" and "may_journal a r" and "r_pending r = None"
    and "apply_action a tx s r = Inr r'"
  shows "wf_record cr r'"
proof (cases a)
  case Fund
  have "wf_record cr (r\<lparr>r_funded_tao := r_funded_tao r + tr_amount tx\<rparr>)"
    using assms(1) by (subst wf_record_cong [of _ r]) simp_all
  then show ?thesis using Fund assms(4) wf_transition by fastforce
qed (use assms in \<open>auto simp: wf_record_def failed_ok_def settled_ok_def consolidated_ok_def may_journal_def
      result_simps split: if_splits\<close>)

lemma apply_tx_wf:
  assumes "wf_record cr r" and "apply_tx r tx s = Inr r'"
  shows "wf_record cr r'"
proof -
  obtain p r0 where p: "r_pending r = Some p" and a: "apply_action (pd_action p) tx s (r\<lparr>r_pending := None\<rparr>) = Inr r0"
    and r': "r' = r0\<lparr>r_attempts := 0, r_next_attempt_at := 0, r_last_error := None, r_txs := r_txs r0 @ [tx]\<rparr>"
    using assms(2) by (auto simp: apply_tx_def result_simps)
  have "may_journal (pd_action p) (r\<lparr>r_pending := None\<rparr>)"
    using wf_pending_may_journal [OF assms(1) p] by (simp add: may_journal_def)
  then have "wf_record cr r0"
    using apply_action_wf [OF wf_clear_pending [OF assms(1)] _ _ a] by simp
  then show ?thesis unfolding r' by (subst wf_record_cong [of _ r0]) simp_all
qed

section \<open>The invariant and the rely condition\<close>

fun op_wf :: "'k crypto \<Rightarrow> store_op \<Rightarrow> bool" where
  "op_wf cr (OpInsert r) \<longleftrightarrow> r_pending r = None \<and> wf_record cr r"
| "op_wf cr (OpUpdate r now) \<longleftrightarrow> wf_record cr r"
| "op_wf cr _ \<longleftrightarrow> True"

definition others_wf :: "('c, 'd, 'k) client \<Rightarrow> bool" where
  "others_wf cl \<longleftrightarrow> (\<forall>c. list_all (op_wf (cl_crypto cl)) (fst (rp_others (cl_rpc cl) c)))"

definition all_wf :: "('d \<Rightarrow> string \<Rightarrow> payment_record option) \<Rightarrow> 'k crypto \<Rightarrow> 'd \<Rightarrow> bool" where
  "all_wf content cr d \<longleftrightarrow> (\<forall>i r. content d i = Some r \<longrightarrow> wf_record cr r)"

lemma op_wf_ok: "op_wf cr op \<Longrightarrow> op_ok op"
  by (cases op) simp_all

lemma others_wf_ok: "others_wf cl \<Longrightarrow> others_ok cl"
  unfolding others_wf_def others_ok_def by (meson list.pred_mono_strong op_wf_ok)

lemma pristine_wf:
  "\<not> has_evidence (r\<lparr>r_auto_required := None, r_buyback_budget := None\<rparr>) \<Longrightarrow> wf_record cr c \<Longrightarrow>
   r_failed_from c = r_failed_from r \<Longrightarrow> wf_record cr r"
  by (auto simp: has_evidence_def wf_record_def failed_ok_def settled_ok_def consolidated_ok_def)

definition db_wf ::
    "('d \<Rightarrow> bool) \<Rightarrow> ('d \<Rightarrow> string \<Rightarrow> payment_record option) \<Rightarrow> 'k crypto \<Rightarrow> 'd \<Rightarrow> bool" where
  "db_wf ok content cr d \<longleftrightarrow> ok d \<and> all_wf content cr d"

text \<open>What an operation of the engine assumes of its client.\<close>

definition client_ok :: "'d store_ops \<Rightarrow> 'k crypto \<Rightarrow> ('c, 'd, 'k) client \<Rightarrow> bool" where
  "client_ok ops cr cl \<longleftrightarrow> cl_store cl = ops \<and> cl_crypto cl = cr \<and> others_wf cl"

definition engine_safe ::
    "('d \<Rightarrow> bool) \<Rightarrow> ('d \<Rightarrow> string \<Rightarrow> payment_record option) \<Rightarrow> ('d \<Rightarrow> (string \<times> string \<times> string) set) \<Rightarrow>
     'k crypto \<Rightarrow> ('c, 'd) world \<Rightarrow> bool" where
  "engine_safe ok content held cr w \<longleftrightarrow> protocol_safe ok content held w \<and> all_wf content cr (w_db w)"

context signing_store
begin

abbreviation good :: "'k crypto \<Rightarrow> ('c, 'd) world \<Rightarrow> bool" where
  "good \<equiv> engine_safe inv content held"

lemmas good_def = engine_safe_def [of inv content held]

abbreviation okd :: "'k crypto \<Rightarrow> 'd \<Rightarrow> bool" where
  "okd \<equiv> db_wf inv content"

lemmas okd_def = db_wf_def [of inv content]

lemma okdI: "inv d' \<Longrightarrow> content d' = content d \<Longrightarrow> okd cr d \<Longrightarrow> okd cr d'"
  by (simp add: okd_def all_wf_def)

lemma okd_upd:
  "inv d' \<Longrightarrow> okd cr d \<Longrightarrow> wf_record cr r \<Longrightarrow> content d' = (content d)(i \<mapsto> r) \<Longrightarrow> okd cr d'"
  by (auto simp: okd_def all_wf_def)

lemma okd_update:
  assumes "okd cr d" and "wf_record cr r"
  shows "okd cr (snd (so_update ops r now d))"
proof -
  obtain x d' where u: "so_update ops r now d = (x, d')" by force
  have inv: "inv d" "inv d'" using assms(1) update_inv [OF _ u] by (simp_all add: okd_def)
  show ?thesis
  proof (cases x)
    case (Inl e)
    then show ?thesis using update_fail [OF inv(1)] u assms(1) by auto
  next
    case (Inr r')
    have n: "r' = next_version now r" "content d' = (content d)(r_id r \<mapsto> r')"
      using update_ok [OF inv(1) u [unfolded Inr]] by auto
    then have "wf_record cr r'" using assms(2) by simp
    then show ?thesis using okd_upd [OF inv(2) assms(1) _ n(2)] u by simp
  qed
qed

lemma okd_insert:
  assumes "okd cr d" and "wf_record cr r" and "r_pending r = None"
  shows "okd cr (snd (so_insert ops r d))"
proof -
  obtain x d' where u: "so_insert ops r d = (x, d')" by force
  have inv: "inv d" "inv d'" using assms(1) insert_inv [OF _ assms(3) u] by (simp_all add: okd_def)
  show ?thesis
  proof (cases x)
    case (Inl e)
    then show ?thesis using insert_fail [OF inv(1)] u assms(1) by auto
  next
    case (Inr y)
    then have "content d' = (content d)(r_id r \<mapsto> r)" using insert_ok [OF inv(1)] u by simp
    then show ?thesis using okd_upd [OF inv(2) assms(1,2)] u by simp
  qed
qed

lemma okd_reserve: "okd cr d \<Longrightarrow> okd cr (snd (so_reserve_signer_for_record ops s r tok d))"
proof -
  obtain x d' where u: "so_reserve_signer_for_record ops s r tok d = (x, d')" by force
  then show "okd cr d \<Longrightarrow> ?thesis" using reserve_content [OF _ u] by (simp add: okd_def all_wf_def)
qed

lemma okd_reserve_job: "okd cr d \<Longrightarrow> okd cr (snd (so_reserve_signer ops s j tok d))"
proof -
  obtain x d' where u: "so_reserve_signer ops s j tok d = (x, d')" by force
  then show "okd cr d \<Longrightarrow> ?thesis" using reserve_job_content [OF _ u] by (simp add: okd_def all_wf_def)
qed

lemma okd_cancel: "okd cr d \<Longrightarrow> okd cr (snd (so_cancel_preparation ops s j tok d))"
proof -
  obtain x d' where u: "so_cancel_preparation ops s j tok d = (x, d')" by force
  then show "okd cr d \<Longrightarrow> ?thesis" using cancel_content [OF _ u] by (simp add: okd_def all_wf_def)
qed

lemma okd_migrate:
  assumes "okd cr d"
  shows "okd cr (snd (so_migrate_legacy_policy ops i v b now d))"
proof -
  obtain x d' where u: "so_migrate_legacy_policy ops i v b now d = (x, d')" by force
  have inv: "inv d" "inv d'" using assms(1) migrate_inv [OF _ u] by (simp_all add: okd_def)
  show ?thesis
  proof (cases x)
    case (Inl e)
    then show ?thesis using migrate_fail [OF inv(1) u [unfolded Inl]] u assms(1) by simp
  next
    case (Inr r')
    have m: "content d' = (content d)(i \<mapsto> r')"
      "\<not> has_evidence (r'\<lparr>r_auto_required := None, r_buyback_budget := None\<rparr>)"
      "\<exists>c. content d i = Some c \<and> r_failed_from c = r_failed_from r'"
      using migrate_ok [OF inv(1) u [unfolded Inr]] by auto
    then have "wf_record cr r'"
      using assms(1) pristine_wf [OF m(2)] by (auto simp: okd_def all_wf_def)
    then show ?thesis using okd_upd [OF inv(2) assms(1) _ m(1)] u by simp
  qed
qed

lemma okd_run_op: "okd cr d \<Longrightarrow> op_wf cr op \<Longrightarrow> okd cr (run_op ops op d)"
  by (cases op)
    (simp_all add: okd_update okd_insert okd_reserve okd_reserve_job okd_cancel okd_migrate)

lemma okd_run_ops: "list_all (op_wf cr) os \<Longrightarrow> okd cr d \<Longrightarrow> okd cr (fold (run_op ops) os d)"
  by (induction os arbitrary: d) (simp_all add: okd_run_op)

text \<open>A database operation that keeps the invariant, with what its result tells.\<close>

lemma good_db:
  fixes cl :: "('c, 'd, 'k) client"
  assumes "client_ok ops cr cl" and "\<And>d. okd cr d \<Longrightarrow> okd cr (snd (f d))"
    and "\<And>d x. okd cr d \<Longrightarrow> fst (f d) = Inr x \<Longrightarrow> R x"
  shows "gives (good cr) (db_do cl f) R"
proof (rule givesI)
  fix w :: "('c, 'd) world"
  assume g: "good cr w"
  let ?d = "fold (run_op ops) (fst (rp_others (cl_rpc cl) (w_env w))) (w_db w)"
  have ok: "okd cr ?d"
    using assms(1) g by (intro okd_run_ops) (auto simp: client_ok_def others_wf_def good_def safe_def okd_def)
  have e: "db_do cl f w = (fst (f ?d), w\<lparr>w_env := snd (rp_others (cl_rpc cl) (w_env w)), w_db := snd (f ?d)\<rparr>)"
    using assms(1) by (simp add: db_do_eval client_ok_def Let_def)
  show "good cr (snd (db_do cl f w))"
    using assms(2) [OF ok] g by (simp add: e good_def safe_def okd_def)
  show "R x" if "fst (db_do cl f w) = Inr x" for x
    using assms(3) [OF ok] that by (simp add: e)
qed

lemma good_rpc [gives_intros]: "R = (\<lambda>_. True) \<Longrightarrow> gives (good cr) (rpc_do f) R"
  by (rule givesI) (auto simp: rpc_do_def good_def safe_def case_prod_beta Let_def)

lemma good_bind_rpc [gives_intros]:
  "(\<And>x. gives (good cr) (f x) R) \<Longrightarrow> gives (good cr) (io_bind (rpc_do g) f) R"
  by (rule gives_bind [OF good_rpc [OF refl]])

lemma good_bind_now [gives_intros]:
  "(\<And>x. gives (good cr) (f x) R) \<Longrightarrow> gives (good cr) (io_bind (now_do cl) f) R"
  "(\<And>x. gives (good cr) (g x) R) \<Longrightarrow> gives (good cr) (io_bind (uuid_do cl) g) R"
  "(\<And>x. gives (good cr) (h x) R) \<Longrightarrow> gives (good cr) (io_bind (random_do cl n) h) R"
  by (simp_all add: now_do_def uuid_do_def random_do_def good_bind_rpc)

lemma good_emit: "gives (good cr) (emit st) (\<lambda>_. True)"
  by (rule givesI) (auto simp: emit_def good_def safe_def)

lemma good_st_update:
  assumes "client_ok ops cr cl" and "wf_record cr r"
  shows "gives (good cr) (st_update cl r) (\<lambda>r'. \<exists>now. r' = next_version now r)"
  unfolding st_update_def
proof (intro gives_intros good_db assms okd_update)
  show "\<exists>now. x = next_version now r" if "okd cr d" "fst (so_update (cl_store cl) r t d) = Inr x" for x t d
    using that assms(1) update_ok [of d r t x] by (metis client_ok_def okd_def prod.collapse)
qed (use assms okd_update in \<open>auto simp: client_ok_def\<close>)

lemma good_bind_update [gives_intros]:
  assumes "client_ok ops cr cl" and "wf_record cr r"
    and "\<And>now. wf_record cr (next_version now r) \<Longrightarrow> gives (good cr) (f (next_version now r)) R"
  shows "gives (good cr) (io_bind (st_update cl r) f) R"
  using assms by (intro gives_bind [OF good_st_update [OF assms(1,2)]]) auto

lemma good_bind_get [gives_intros]:
  assumes "client_ok ops cr cl"
    and "\<And>x. (\<And>r. x = Some r \<Longrightarrow> wf_record cr r) \<Longrightarrow> gives (good cr) (f x) R"
  shows "gives (good cr) (io_bind (st_get cl i) f) R"
  unfolding st_get_def
proof (rule gives_bind [OF good_db [OF assms(1), where R = "\<lambda>x. \<forall>r. x = Some r \<longrightarrow> wf_record cr r"]])
  show "\<forall>r. x = Some r \<longrightarrow> wf_record cr r" if "okd cr d" "fst (so_get (cl_store cl) i d, d) = Inr x" for d x
    using that assms(1) get_content [of d i x] by (auto simp: client_ok_def okd_def all_wf_def)
qed (use assms in auto)

lemma good_bind_list [gives_intros]:
  assumes "client_ok ops cr cl"
    and "\<And>rs. (\<And>r. r \<in> set rs \<Longrightarrow> wf_record cr r) \<Longrightarrow> gives (good cr) (f rs) R"
  shows "gives (good cr) (io_bind (st_list cl states) f) R"
  unfolding st_list_def
proof (rule gives_bind [OF good_db [OF assms(1), where R = "\<lambda>rs. \<forall>r \<in> set rs. wf_record cr r"]])
  show "\<forall>r \<in> set x. wf_record cr r" if "okd cr d" "fst (so_list (cl_store cl) states d, d) = Inr x" for d x
    using that assms(1) list_content [of d states x] by (auto simp: client_ok_def okd_def all_wf_def)
qed (use assms in auto)

lemma good_bind_other [gives_intros]:
  assumes "client_ok ops cr cl" and "\<And>x. gives (good cr) (f x) R"
  shows "gives (good cr) (io_bind (st_require_signing cl) f) R"
    and "gives (good cr) (io_bind (st_cancel cl s j t) f) R"
proof -
  show "gives (good cr) (io_bind (st_require_signing cl) f) R"
    unfolding st_require_signing_def
    by (rule gives_bind [OF good_db [OF assms(1), where R = "\<lambda>_. True"]]) (use assms(2) in auto)
  have "okd cr d \<Longrightarrow> okd cr (snd (so_cancel_preparation (cl_store cl) s j t d))" for d
    using assms(1) okd_cancel by (simp add: client_ok_def)
  then show "gives (good cr) (io_bind (st_cancel cl s j t) f) R"
    unfolding st_cancel_def
    by (intro gives_bind [OF good_db [OF assms(1), where R = "\<lambda>_. True"]]) (use assms(2) in auto)
qed

lemma good_bind_reserve [gives_intros]:
  assumes "client_ok ops cr cl" and "\<And>x. gives (good cr) (f x) R"
  shows "gives (good cr) (io_bind (st_reserve cl s r) f) R"
proof -
  have "okd cr d \<Longrightarrow> okd cr (snd (so_reserve_signer_for_record (cl_store cl) s r t d))" for d t
    using assms(1) okd_reserve by (simp add: client_ok_def)
  then have "gives (good cr) (st_reserve cl s r) (\<lambda>_. True)"
    unfolding st_reserve_def by (intro gives_intros good_db [OF assms(1)]) auto
  then show ?thesis by (rule gives_bind) (rule assms(2))
qed

lemma good_bind_insert [gives_intros]:
  assumes "client_ok ops cr cl" and "wf_record cr r" and "r_pending r = None"
    and "\<And>x. gives (good cr) (f x) R"
  shows "gives (good cr) (io_bind (st_insert cl r) f) R"
proof -
  have "okd cr d \<Longrightarrow> okd cr (snd (so_insert (cl_store cl) r d))" for d
    using assms(1-3) okd_insert by (simp add: client_ok_def)
  then have "gives (good cr) (st_insert cl r) (\<lambda>_. True)"
    unfolding st_insert_def by (intro good_db [OF assms(1)]) auto
  then show ?thesis by (rule gives_bind) (rule assms(4))
qed

lemma good_bind_emit [gives_intros]:
  "(\<And>x. gives (good cr) (f x) R) \<Longrightarrow> gives (good cr) (io_bind (emit st) f) R"
  by (rule gives_bind [OF good_emit])

end

end
