(* ===== verification/Engine_Invariant.thy ===== *)
theory Engine_Invariant
  imports Engine_Safety
begin

text \<open>
  Every operation of the protocol and of the engine keeps the invariant \<open>engine_safe\<close>: the
  database is well formed, holds well-formed records only, and everything handed to the network
  was journaled.  One lemma per operation, proved from the rules of \<open>Engine_Safety\<close> along the
  structure of the code.
\<close>

section \<open>The protocol keeps the invariant\<close>

lemma gives_True: "gives I m R \<Longrightarrow> gives I m (\<lambda>_. True)"
  by (erule gives_weaken) simp

context signing_store
begin

lemma client_okD: "client_ok ops cr cl \<Longrightarrow> cl_store cl = ops \<and> others_ok cl"
  by (simp add: client_ok_def others_wf_ok)

lemma good_journal_then_broadcast [gives_intros]:
  fixes cl :: "('c, 'd, 'k) client"
  assumes ok: "client_ok ops cr cl" and wf: "wf_record cr (r\<lparr>r_pending := Some (journal_entry a t p call)\<rparr>)"
    and f: "\<And>now x. gives (good cr) (f (next_version now (r\<lparr>r_pending := Some (journal_entry a t p call)\<rparr>)) x) R"
  shows "gives (good cr) (io_bind (st_update cl (r\<lparr>r_pending := Some (journal_entry a t p call)\<rparr>))
           (\<lambda>r'. io_bind (broadcast cl p) (f r'))) R"
proof -
  let ?r = "r\<lparr>r_pending := Some (journal_entry a t p call)\<rparr>"
  have "good cr (snd (io_bind (st_update cl ?r) (\<lambda>r'. io_bind (broadcast cl p) (f r')) w)) \<and>
      (\<forall>x. fst (io_bind (st_update cl ?r) (\<lambda>r'. io_bind (broadcast cl p) (f r')) w) = Inr x \<longrightarrow> R x)"
    if w: "good cr w" for w :: "('c, 'd) world"
  proof -
    obtain x w1 where u: "st_update cl ?r w = (x, w1)" by force
    have g1: "good cr w1" and now: "\<forall>r'. x = Inr r' \<longrightarrow> (\<exists>now. r' = next_version now ?r)"
      using givesD [OF good_st_update [OF ok wf] w u] by auto
    show ?thesis
    proof (cases x)
      case (Inl e)
      then show ?thesis using u g1 by (simp add: io_bind_def)
    next
      case (Inr r')
      obtain n where r': "r' = next_version n ?r" using now Inr by blast
      have st: "content (w_db w1) (r_id r) = Some r'" "(pp_signer p, r_id r, t) \<in> held (w_db w1)"
        using st_update_stored [of cl w ?r r' w1] client_okD [OF ok] w u Inr
        by (auto simp: good_def journal_entry_def)
      then have "journaled content held p (w_db w1)"
        unfolding journaled_def using r' by (intro exI) (auto simp: journal_entry_def)
      then have g2: "good cr (snd (broadcast cl p w1))"
        using g1 by (auto simp: broadcast_def rpc_do_def good_def safe_def case_prod_beta Let_def)
      obtain y w2 where b: "broadcast cl p w1 = (y, w2)" by force
      show ?thesis
        using u Inr b g2 f [of n] r'
        by (cases y) (auto simp: io_bind_def gives_def)
    qed
  qed
  then show ?thesis by (simp add: gives_def)
qed

lemma good_send_journaled [gives_intros]:
  assumes "client_ok ops cr cl" and "wf_record cr r" and "may_journal a r" and "R = (\<lambda>_. True)"
  shows "gives (good cr) (send_journaled cl r a call signer) R"
proof -
  have wf: "wf_record cr (r\<lparr>r_pending := Some (journal_entry a t p call)\<rparr>)" for t p
    using assms(2,3) by (intro wf_journal) (auto simp: journal_entry_def)
  have ap: "wf_record cr x"
    if "apply_tx (next_version now (r\<lparr>r_pending := Some (journal_entry a t p call)\<rparr>)) tx s = Inr x" for now t p tx s x
    using apply_tx_wf [OF _ that, of cr] wf [of t p] by simp
  show ?thesis
    unfolding send_journaled_def Let_def assms(4)
    by (intro gives_intros gives_bind_attempt [OF good_rpc [OF refl]] assms(1) wf ap) auto
qed

lemma good_bind_send [gives_intros]:
  assumes "client_ok ops cr cl" and "wf_record cr r" and "may_journal a r"
    and "\<And>x. gives (good cr) (f x) R"
  shows "gives (good cr) (io_bind (send_journaled cl r a call signer) f) R"
  by (rule gives_bind [OF good_send_journaled [OF assms(1-3) refl]]) (rule assms(4))

lemma good_included:
  assumes "wf_record cr r"
  shows "gives (good cr) (included_record cl r p m b s) (wf_record cr)"
proof -
  have "wf_record cr (record_failure err m now (r\<lparr>r_pending := None\<rparr>))" for err m now
    using assms by (intro wf_record_failure wf_clear_pending)
  moreover have "wf_record cr (record_failure err n now (r\<lparr>r_pending := None, r_quarantined := q, r_txs := txs\<rparr>))"
    for err n now q txs
    using wf_clear_pending [OF assms]
    by (intro wf_record_failure) (subst wf_record_cong [of _ "r\<lparr>r_pending := None\<rparr>"]; simp)
  ultimately show ?thesis
    unfolding included_record_def Let_def
    by (intro gives_intros) (auto intro: apply_tx_wf [OF assms])
qed

lemma good_reconcile:
  assumes "client_ok ops cr cl" and "wf_record cr r"
  shows "gives (good cr) (reconcile_journaled cl r p m) (\<lambda>_. True)"
proof -
  have "gives (good cr) (case x of
          Wait \<Rightarrow> io_ret (False, r)
        | Dead \<Rightarrow> io_bind (st_update cl (r\<lparr>r_pending := None\<rparr>)) (\<lambda>r. io_ret (True, r))
        | Included b s \<Rightarrow>
            io_bind (included_record cl r p m b s) (\<lambda>applied.
            io_bind (st_update cl applied) (\<lambda>r. io_ret (True, r)))) (\<lambda>_. True)" for x
    by (cases x)
      (auto intro!: gives_intros assms(1) wf_clear_pending [OF assms(2)] gives_bind [OF good_included [OF assms(2)]])
  then show ?thesis
    unfolding reconcile_journaled_def by (intro gives_intros)
qed

section \<open>The engine keeps the invariant\<close>

abbreviation engine_ok :: "'k crypto \<Rightarrow> ('c, 'd, 'k) engine \<Rightarrow> bool" where
  "engine_ok cr en \<equiv> client_ok ops cr (en_client en)"

lemma good_announce [gives_intros]:
  "(\<And>x. gives (good cr) (f x) R) \<Longrightarrow> gives (good cr) (io_bind (announce_if_final r) f) R"
  unfolding announce_if_final_def
  by (rule gives_bind [where Q = "\<lambda>_. True"]) (auto intro!: gives_intros good_emit)

lemma good_notify [gives_intros]:
  assumes "engine_ok cr en" and "wf_record cr r"
  shows "gives (good cr) (io_bind (notify en r) (\<lambda>_. io_ret True)) (\<lambda>_. True)"
proof -
  have wf: "wf_record cr (r\<lparr>r_notified := True\<rparr>)" "wf_record cr (r\<lparr>r_next_attempt_at := t\<rparr>)" for t
    using assms(2) by (subst wf_record_cong [of _ r]; simp)+
  have "gives (good cr) (notify en r) (\<lambda>_. True)"
    unfolding notify_def Let_def
    by (intro gives_intros gives_bind_attempt [OF good_rpc [OF refl]] assms(1) wf) auto
  then show ?thesis by (rule gives_bind) (intro gives_intros TrueI)
qed

lemma good_resolve_pending:
  assumes "engine_ok cr en" and "wf_record cr r"
  shows "gives (good cr) (resolve_pending en r p) (\<lambda>_. True)"
  unfolding resolve_pending_def
  by (rule gives_bind [OF good_reconcile [OF assms]]) (intro gives_intros TrueI)

lemma good_step_pending:
  assumes "engine_ok cr en" and "wf_record cr r"
  shows "gives (good cr) (step_pending en r ps) (\<lambda>_. True)"
proof -
  have wf: "wf_record cr (r\<lparr>r_detected_alpha := a, r_detected_tao := b\<rparr>)" "wf_record cr (r\<lparr>r_detected_alpha := a\<rparr>)" for a b
    using assms(2) by (subst wf_record_cong [of _ r]; simp)+
  have free: "gives (good cr) (if b then rpc_do f else io_ret 0) (\<lambda>_. True)" for b f
    by (intro gives_intros) auto
  show ?thesis
    unfolding step_pending_def Let_def
    by (intro gives_intros gives_bind [OF free] assms(1) wf_transition [OF wf(1)] wf_transition [OF wf(2)])
      auto
qed


lemma good_sweep_floor [gives_intros]:
  "(\<And>x. gives (good cr) (f x) R) \<Longrightarrow> gives (good cr) (io_bind (sweep_floor en n) f) R"
  unfolding sweep_floor_def io_bind_assoc by (intro gives_intros)

lemma good_estimate_fees:
  "gives (good cr) (estimate_fees en kp n ps fees) (\<lambda>_. True)"
  by (induction ps arbitrary: fees) (auto intro!: gives_intros)

lemma good_step_detected:
  assumes "engine_ok cr en" and "wf_record cr r" and "r_state r \<noteq> Settled"
  shows "gives (good cr) (step_detected en r) (\<lambda>_. True)"
proof -
  have wf: "wf_record cr (r\<lparr>r_detected_alpha := a\<rparr>)" for a
    using assms(2) by (subst wf_record_cong [of _ r]; simp)
  have mj: "may_journal Fund (r\<lparr>r_detected_alpha := a\<rparr>)" for a
    using assms(3) by (simp add: may_journal_def)
  show ?thesis
    unfolding step_detected_def Let_def send_def
    by (intro gives_intros gives_bind [OF good_estimate_fees] assms(1) wf mj wf_transition [OF wf]) auto
qed

lemma good_step_funded:
  assumes "engine_ok cr en" and "wf_record cr r" and "r_state r \<noteq> Settled"
  shows "gives (good cr) (step_funded en r) (\<lambda>_. True)"
proof -
  have mj: "may_journal (Sweep hk) r" for hk using assms(3) by (simp add: may_journal_def)
  show ?thesis
    unfolding step_funded_def Let_def send_def
    by (intro gives_intros assms(1,2) mj wf_transition [OF assms(2)]) auto
qed

lemma good_step_auto_buyback:
  assumes "engine_ok cr en" and "wf_record cr r" and "r_state r \<noteq> Settled"
  shows "gives (good cr) (step_auto_buyback en r) (\<lambda>_. True)"
proof -
  have mj: "may_journal (Destroy n x) r" "may_journal (BuyStake n l) r" for n x l
    using assms(3) by (simp_all add: may_journal_def)
  have wf: "wf_record cr (r\<lparr>r_buyback_done := True\<rparr>)"
    using assms(2) by (subst wf_record_cong [of _ r]; simp)
  show ?thesis
    unfolding step_auto_buyback_def engine_spendable_def Let_def send_def io_bind_assoc
    by (intro gives_intros assms(1,2) mj wf) auto
qed

text \<open>A swept record without a journal entry, which is what the later parts of \<open>step_swept\<close> work on.\<close>

definition swept_ready :: "'k crypto \<Rightarrow> payment_record \<Rightarrow> bool" where
  "swept_ready cr r \<longleftrightarrow> wf_record cr r \<and> r_state r = Swept \<and> r_pending r = None"

lemma good_consolidate_loop:
  assumes "engine_ok cr en" and "swept_ready cr r"
  shows "gives (good cr) (consolidate_loop n en r) (\<lambda>x. \<forall>r'. x = Inr r' \<longrightarrow> swept_ready cr r')"
  using assms(2)
proof (induction n arbitrary: r)
  case 0
  then show ?case by (auto intro!: gives_intros)
next
  case (Suc n)
  have wf: "wf_record cr r" using Suc.prems by (simp add: swept_ready_def)
  have free: "gives (good cr) (if b then io_ret 0 else rpc_do f) (\<lambda>_. True)" for b f
    by (intro gives_intros) auto
  have up: "wf_record cr (r\<lparr>r_consolidated := r_consolidated r + 1\<rparr>)"
    if "r_consolidated r < length (r_swept_positions r)"
    using Suc.prems that validate_completed_cong [of "r\<lparr>r_consolidated := r_consolidated r + 1\<rparr>" r cr]
    by (auto simp: swept_ready_def wf_record_def failed_ok_def settled_ok_def consolidated_ok_def)
  have mj: "may_journal (Consolidate hk) r" if "r_consolidated r < length (r_swept_positions r)" for hk
    using Suc.prems that by (simp add: may_journal_def swept_ready_def)
  show ?case
    unfolding consolidate_loop.simps Let_def send_def
    by (intro gives_intros gives_bind [OF free] assms(1) up mj wf Suc.IH)
      (use Suc.prems in \<open>auto simp: swept_ready_def\<close>)
qed

lemma wf_settled:
  assumes "swept_ready cr r" and "transition Settled r = Inr r'"
    and "r_auto_required r \<noteq> Some False \<longrightarrow> validate_completed_buyback cr r = Inr ()"
  shows "wf_record cr r'"
proof -
  have "failed_ok r'"
    using life_failed_ok [OF life_transition [OF assms(2)]] assms(1) by (simp add: swept_ready_def wf_record_def)
  moreover have "validate_completed_buyback cr r' = validate_completed_buyback cr r"
    using assms(2) by (intro validate_completed_cong) (auto simp: result_simps)
  ultimately show ?thesis
    using assms
    by (auto simp: wf_record_def settled_ok_def consolidated_ok_def swept_ready_def result_simps)
qed

lemma good_settle:
  assumes "engine_ok cr en" and "swept_ready cr r"
  shows "gives (good cr) (settle en r) (\<lambda>_. True)"
proof -
  have cr: "en_crypto en = cr" using assms(1) by (simp add: en_crypto_def client_ok_def)
  have val: "gives (good cr) (if b then io_lift (validate_completed_buyback cr r) else io_ret ())
      (\<lambda>_. b \<longrightarrow> validate_completed_buyback cr r = Inr ())" for b
    by (intro gives_intros) auto
  have "gives (good cr) (step_auto_buyback en r) (\<lambda>_. True)"
    using assms by (intro good_step_auto_buyback) (auto simp: swept_ready_def)
  then show ?thesis
    unfolding settle_def cr
    by (intro gives_intros gives_bind [OF val] assms(1))
      (auto simp: ok_or_Inr_iff intro: wf_settled [OF assms(2)])
qed

lemma good_step_swept:
  assumes "engine_ok cr en" and "swept_ready cr r"
  shows "gives (good cr) (step_swept en r) (\<lambda>_. True)"
proof -
  have loop: "gives (good cr) (if b then consolidate_loop n en r else io_ret (Inr r))
      (\<lambda>x. \<forall>r'. x = Inr r' \<longrightarrow> swept_ready cr r')" for b n
    using assms by (intro gives_intros good_consolidate_loop) auto
  have mj: "may_journal ReturnDust r'" "wf_record cr r'" if "swept_ready cr r'" for r'
    using that by (simp_all add: may_journal_def swept_ready_def)
  have dust: "swept_ready cr (r'\<lparr>r_dust_returned := True\<rparr>)" if "swept_ready cr r'" for r'
    using that wf_record_cong [of "r'\<lparr>r_dust_returned := True\<rparr>" r' cr] by (simp add: swept_ready_def)
  show ?thesis
    unfolding step_swept_def Let_def send_def
    by (intro gives_intros gives_bind [OF loop] assms(1) mj good_settle dust) auto
qed

lemma good_get_or_not_found [gives_intros]:
  assumes "engine_ok cr en" and "\<And>r. wf_record cr r \<Longrightarrow> gives (good cr) (f r) R"
  shows "gives (good cr) (io_bind (get_or_not_found en i) f) R"
  unfolding get_or_not_found_def io_bind_assoc
  by (intro gives_intros assms) (auto simp: result_simps)

lemma good_or_record_failure:
  assumes "engine_ok cr en" and "gives (good cr) m (\<lambda>_. True)"
  shows "gives (good cr) (or_record_failure en i m) (\<lambda>_. True)"
proof -
  have "gives (good cr) (step_failed en i e) (\<lambda>_. True)" for e
    unfolding step_failed_def by (intro gives_intros assms(1) wf_record_failure)
  then have "gives (good cr) (case e of Conflict j \<Rightarrow> io_fail (Conflict j) | _ \<Rightarrow> step_failed en i e) (\<lambda>_. True)" for e
    by (cases e) (auto intro: gives_intros)
  then show ?thesis
    unfolding or_record_failure_def
    by (intro gives_bind_attempt [OF assms(2)]) (auto intro: gives_intros)
qed

lemma good_step:
  assumes "engine_ok cr en" and "wf_record cr r"
  shows "gives (good cr) (step en r ps) (\<lambda>_. True)"
proof -
  have "gives (good cr) (case r_state r of
             Pending \<Rightarrow> step_pending en r ps
           | Detected \<Rightarrow> or_record_failure en (r_id r) (step_detected en r)
           | Funded \<Rightarrow> or_record_failure en (r_id r) (step_funded en r)
           | Swept \<Rightarrow> or_record_failure en (r_id r) (step_swept en r)
           | Settled \<Rightarrow> io_bind (notify en r) (\<lambda>_. io_ret True)
           | _ \<Rightarrow> io_ret False) (\<lambda>_. True)" if "r_pending r = None"
    using that assms
    by (cases "r_state r")
      (auto intro!: gives_intros good_or_record_failure good_step_pending good_step_detected
        good_step_funded good_step_swept simp: swept_ready_def)
  then show ?thesis
    unfolding step_def by (intro gives_intros good_resolve_pending assms TrueI) auto
qed

lemma good_tick_loop:
  assumes "engine_ok cr en" and "\<And>r. r \<in> set rs \<Longrightarrow> wf_record cr r"
  shows "gives (good cr) (tick_loop en t ps rs n) (\<lambda>_. True)"
  using assms(2)
proof (induction rs arbitrary: n)
  case (Cons r rs)
  have "gives (good cr) (step en r ps) (\<lambda>_. True)" using good_step [OF assms(1)] Cons.prems by simp
  then show ?case
    using Cons by (auto intro!: gives_intros gives_bind_attempt)
qed (auto intro: gives_intros)

lemma good_tick:
  assumes "engine_ok cr en"
  shows "gives (good cr) (tick en) (\<lambda>_. True)"
proof -
  have free: "gives (good cr) (if b then io_ret [] else rpc_do f) (\<lambda>_. True)" for b f
    by (intro gives_intros) auto
  show ?thesis
    unfolding tick_def Let_def
    by (intro gives_intros gives_bind [OF free] good_tick_loop assms)
qed

lemma wf_new_record: "wf_record cr (new_record en i address sealed t)"
  by (simp add: new_record_def wf_record_def failed_ok_def settled_ok_def consolidated_ok_def)

lemma good_create_payment:
  assumes "engine_ok cr en"
  shows "gives (good cr) (create_payment en opts) (\<lambda>_. True)"
proof -
  have "wf_record cr (payment_record_of en opts i address sealed t)" for i address sealed t
    by (simp add: payment_record_of_def new_record_def wf_record_def failed_ok_def settled_ok_def consolidated_ok_def)
  moreover have "r_pending (payment_record_of en opts i address sealed t) = None" for i address sealed t
    by (simp add: payment_record_of_def new_record_def)
  ultimately show ?thesis
    unfolding create_payment_def Let_def by (intro gives_intros assms TrueI)
qed

lemma good_create_sweep_job:
  assumes "engine_ok cr en"
  shows "gives (good cr) (create_sweep_job en i path expected meta) (\<lambda>_. True)"
proof -
  have "wf_record cr ((new_record en i address sealed t)\<lparr>r_metadata := m, r_derivation_path := p\<rparr>)"
    for address sealed t m p
    by (subst wf_record_cong [of _ "new_record en i address sealed t"]) (simp_all add: wf_new_record)
  moreover have "r_pending ((new_record en i address sealed t)\<lparr>r_metadata := m, r_derivation_path := p\<rparr>) = None"
    for address sealed t m p
    by (simp add: new_record_def)
  ultimately show ?thesis
    unfolding create_sweep_job_def Let_def by (intro gives_intros assms TrueI)
qed

lemma good_retry:
  assumes "engine_ok cr en"
  shows "gives (good cr) (retry en i) (\<lambda>_. True)"
proof -
  have "wf_record cr x" if "wf_record cr r" "transition (retry_target r) r = Inr x" for r x
  proof -
    have "retry_target r \<noteq> Settled"
      using that(1) by (auto simp: retry_target_def wf_record_def failed_ok_def split: option.splits)
    then show ?thesis using wf_transition [OF that] by simp
  qed
  then show ?thesis
    unfolding retry_def by (intro gives_intros assms TrueI)
qed

lemma good_force_sweep:
  assumes "engine_ok cr en"
  shows "gives (good cr) (force_sweep en i) (\<lambda>_. True)"
  unfolding force_sweep_def
  by (intro gives_intros assms TrueI) (auto dest: wf_transition)

end

end
