(* ===== verification/Engine_Calls.thy ===== *)
theory Engine_Calls
  imports Engine_Invariant
begin

text \<open>
  What the engine sends: how many transactions a step hands to the network, and which calls.
  \<open>allowed_call\<close> lists the calls a step may send for a record: fees to the payment wallet, stake
  and leftovers to the treasury, consolidation onto the treasury hotkey, and the budgeted buyback
  with the destruction of what was bought.  The judgement \<open>only\<close> says that an effect sends
  nothing else.  It also shows that the fuel of the consolidation loop is enough.
\<close>

section \<open>How many\<close>

lemma sends_emit [sends_intros]: "sends_at_most n (emit st)"
  by (simp add: sends_at_most_def emit_def)

lemma sends_small [sends_intros]:
  "sends_at_most n (announce_if_final r)" "sends_at_most n (sweep_floor en k)"
  "sends_at_most n (engine_spendable en)" "sends_at_most n (get_or_not_found en i)"
  "sends_at_most n (step_failed en i e)"
  unfolding announce_if_final_def sweep_floor_def engine_spendable_def get_or_not_found_def step_failed_def
  by (intro sends_intros)+

lemma sends_notify [sends_intros]: "sends_at_most n (notify en r)"
  unfolding notify_def Let_def by (intro sends_intros)

lemma sends_estimate_fees [sends_intros]: "sends_at_most n (estimate_fees en kp k ps fees)"
  by (induction ps arbitrary: fees) (auto intro!: sends_intros)

lemma sends_resolve_pending [sends_intros]: "sends_at_most n (resolve_pending en r p)"
  unfolding resolve_pending_def by (intro sends_intros)

lemma sends_step_pending [sends_intros]: "sends_at_most n (step_pending en r ps)"
  unfolding step_pending_def Let_def by (intro sends_intros)

lemma sends_step_detected: "sends_at_most 1 (step_detected en r)"
  unfolding step_detected_def Let_def send_def by (intro sends_intros sends_send_journaled)

lemma sends_step_funded: "sends_at_most 1 (step_funded en r)"
  unfolding step_funded_def Let_def send_def by (intro sends_intros sends_send_journaled)

lemma sends_step_auto_buyback: "sends_at_most 1 (step_auto_buyback en r)"
  unfolding step_auto_buyback_def Let_def send_def by (intro sends_intros sends_send_journaled)

lemma sends_settle: "sends_at_most 1 (settle en r)"
  unfolding settle_def by (intro sends_intros sends_step_auto_buyback)

text \<open>The consolidation loop sends one transaction and ends the step, or none and goes on.\<close>

definition sends_or_continues :: "('c, 'd, 'a + 'b) act \<Rightarrow> bool" where
  "sends_or_continues m \<longleftrightarrow>
     (\<forall>w. \<exists>l. w_sent (snd (m w)) = w_sent w @ l \<and> length l \<le> 1 \<and>
        (\<forall>y. fst (m w) = Inr (Inr y) \<longrightarrow> l = []))"

lemma sends_or_continues_bind:
  assumes "sends_at_most 0 m" and "\<And>x. sends_or_continues (f x)"
  shows "sends_or_continues (io_bind m f)"
  unfolding sends_or_continues_def
proof
  fix w
  obtain x w1 where m: "m w = (x, w1)" by force
  have s: "w_sent w1 = w_sent w" using sends_at_mostD [OF assms(1), of w] m by simp
  show "\<exists>l. w_sent (snd (io_bind m f w)) = w_sent w @ l \<and> length l \<le> 1 \<and>
      (\<forall>y. fst (io_bind m f w) = Inr (Inr y) \<longrightarrow> l = [])"
  proof (cases x)
    case (Inl e)
    then show ?thesis using m s by (auto simp: io_bind_def)
  next
    case (Inr y)
    then show ?thesis
      using m s assms(2) [of y, unfolded sends_or_continues_def, rule_format, of w1]
      by (simp add: io_bind_def)
  qed
qed

lemma sends_or_continues_if:
  "sends_or_continues m \<Longrightarrow> sends_or_continues k \<Longrightarrow> sends_or_continues (if b then m else k)"
  by simp

lemma sends_or_continues_pure: "sends_at_most 0 m \<Longrightarrow> sends_or_continues m"
  by (fastforce simp: sends_at_most_def sends_or_continues_def)

lemma sends_or_continues_send:
  assumes "sends_at_most 1 m"
  shows "sends_or_continues (io_bind m (\<lambda>b. io_ret (Inl b)))"
  unfolding sends_or_continues_def
proof
  fix w
  obtain x w1 where m: "m w = (x, w1)" by force
  then show "\<exists>l. w_sent (snd (io_bind m (\<lambda>b. io_ret (Inl b)) w)) = w_sent w @ l \<and> length l \<le> 1 \<and>
      (\<forall>y. fst (io_bind m (\<lambda>b. io_ret (Inl b)) w) = Inr (Inr y) \<longrightarrow> l = [])"
    using sends_at_mostD [OF assms, of w] by (cases x) (auto simp: io_bind_def io_simps)
qed

lemma sends_consolidate: "sends_or_continues (consolidate_loop n en r)"
proof (induction n arbitrary: r)
  case 0
  then show ?case by (auto intro!: sends_or_continues_pure sends_intros)
next
  case (Suc n)
  show ?case
    unfolding consolidate_loop.simps Let_def send_def
    by (intro sends_or_continues_if sends_or_continues_send sends_or_continues_bind Suc.IH
        sends_send_journaled sends_intros sends_or_continues_pure)
qed

lemma sends_or_continues_then:
  assumes "sends_or_continues m" and "\<And>b. sends_at_most 0 (f (Inl b))" and "\<And>r. sends_at_most 1 (f (Inr r))"
  shows "sends_at_most 1 (io_bind m f)"
  unfolding sends_at_most_def
proof
  fix w
  obtain x w1 where m: "m w = (x, w1)" by force
  obtain l where l: "w_sent w1 = w_sent w @ l" "length l \<le> 1" "\<forall>y. x = Inr (Inr y) \<longrightarrow> l = []"
    using assms(1) m by (fastforce simp: sends_or_continues_def dest: spec [of _ w])
  show "\<exists>l. w_sent (snd (io_bind m f w)) = w_sent w @ l \<and> length l \<le> 1"
  proof (cases x)
    case (Inl e)
    then show ?thesis using m l by (auto simp: io_bind_def)
  next
    case (Inr y)
    show ?thesis
    proof (cases y)
      case (Inl b)
      then show ?thesis
        using m l Inr sends_at_mostD [OF assms(2), of b w1] by (auto simp: io_bind_def)
    next
      case right: (Inr r)
      then show ?thesis
        using m l Inr sends_at_mostD [OF assms(3), of r w1] by (auto simp: io_bind_def)
    qed
  qed
qed

lemma sends_step_swept: "sends_at_most 1 (step_swept en r)"
proof -
  have loop: "sends_or_continues (if b then consolidate_loop n en r else io_ret (Inr r))" for b n
    by (intro sends_or_continues_if sends_consolidate sends_or_continues_pure sends_intros)
  show ?thesis
    unfolding step_swept_def send_def
    by (rule sends_or_continues_then [OF loop]; simp only: sum.case;
        intro sends_intros sends_settle sends_send_journaled)
qed

lemma sends_or_record_failure:
  assumes "sends_at_most 1 m"
  shows "sends_at_most 1 (or_record_failure en i m)"
proof -
  have "sends_at_most 0 (case e of Conflict j \<Rightarrow> io_fail (Conflict j) | _ \<Rightarrow> step_failed en i e)" for e
    by (cases e) (auto intro: sends_intros)
  then show ?thesis
    unfolding or_record_failure_def
    by (intro sends_bind_last sends_attempt assms sends_intros)
qed

lemma sends_step: "sends_at_most 1 (step en r ps)"
proof -
  have "sends_at_most 1 (case r_state r of
             Pending \<Rightarrow> step_pending en r ps
           | Detected \<Rightarrow> or_record_failure en (r_id r) (step_detected en r)
           | Funded \<Rightarrow> or_record_failure en (r_id r) (step_funded en r)
           | Swept \<Rightarrow> or_record_failure en (r_id r) (step_swept en r)
           | Settled \<Rightarrow> io_bind (notify en r) (\<lambda>_. io_ret True)
           | _ \<Rightarrow> io_ret False)"
    by (cases "r_state r"; simp only: payment_state.case;
        intro sends_intros sends_or_record_failure sends_step_detected sends_step_funded sends_step_swept)
  then show ?thesis unfolding step_def by (intro sends_intros)
qed

lemma sends_step_journaled: "r_pending r = Some p \<Longrightarrow> sends_at_most 0 (step en r ps)"
  unfolding step_def by (auto intro!: sends_intros)

section \<open>Which\<close>

text \<open>The calls a step may send for a record.\<close>

fun allowed_call :: "('c, 'd, 'k) engine \<Rightarrow> payment_record \<Rightarrow> chain_call \<Rightarrow> bool" where
  "allowed_call en r (TransferTao d a) \<longleftrightarrow> r_state r = Detected \<and> ss58 (en_crypto en) d = r_address r"
| "allowed_call en r (TransferStake d hk n a) \<longleftrightarrow>
     r_state r = Funded \<and> d = treasury_account en \<and> n = r_netuid r \<and>
     ss58 (en_crypto en) hk \<notin> set (map fst (r_swept_positions r))"
| "allowed_call en r (MoveStake f t n a) \<longleftrightarrow>
     r_state r = Swept \<and> c_consolidate (en_cfg en) \<and> t = c_treasury_hotkey (en_cfg en) \<and> n = r_netuid r"
| "allowed_call en r (TransferAll d) \<longleftrightarrow>
     r_state r = Swept \<and> d = treasury_account en \<and> \<not> r_dust_returned r"
| "allowed_call en r (AddStakeLimit hk n t l partial) \<longleftrightarrow>
     r_state r = Swept \<and> r_auto_required r = Some True \<and> r_buyback r = None \<and> \<not> partial \<and>
     (\<exists>b. r_buyback_budget r = Some b \<and> n = bb_netuid b \<and> t = bb_amount_rao b \<and> MIN_STAKE_RAO \<le> t \<and>
          parse_ss58 (en_crypto en) (bb_hotkey b) = Inr hk)"
| "allowed_call en r (BurnAlpha hk n a) \<longleftrightarrow>
     r_state r = Swept \<and> r_auto_required r = Some True \<and>
     (\<exists>b x. r_buyback_budget r = Some b \<and> bb_destroy b = Burn \<and> n = bb_netuid b \<and> r_buyback r = Some x \<and>
          a = br_alpha_bought x \<and> br_destroy_tx x = None \<and> br_tao_spent x = bb_amount_rao b)"
| "allowed_call en r (RecycleAlpha hk n a) \<longleftrightarrow>
     r_state r = Swept \<and> r_auto_required r = Some True \<and>
     (\<exists>b x. r_buyback_budget r = Some b \<and> bb_destroy b = Recycle \<and> n = bb_netuid b \<and> r_buyback r = Some x \<and>
          a = br_alpha_bought x \<and> br_destroy_tx x = None \<and> br_tao_spent x = bb_amount_rao b)"
| "allowed_call en r (AssociateHotkey hk) \<longleftrightarrow> False"

text \<open>The documented behaviour of \<open>prepare\<close>: the prepared transaction carries the call.\<close>

definition prepare_keeps_call :: "('c, 'd, 'k) client \<Rightarrow> bool" where
  "prepare_keeps_call cl \<longleftrightarrow>
     (\<forall>call k c p. fst (rp_prepare (cl_rpc cl) call k c) = Inr p \<longrightarrow> pp_call p = call)"

named_theorems only_intros \<open>syntax-directed rules for the judgement only\<close>

text \<open>From a world with the invariant \<open>I\<close>, the calls handed to the network satisfy \<open>P\<close>.\<close>

definition only :: "(('c, 'd) world \<Rightarrow> bool) \<Rightarrow> (chain_call \<Rightarrow> bool) \<Rightarrow> ('c, 'd, 'a) act \<Rightarrow> bool" where
  "only I P m \<longleftrightarrow>
     (\<forall>w. I w \<longrightarrow> (\<exists>l. w_sent (snd (m w)) = w_sent w @ l \<and> (\<forall>x \<in> set l. P (pp_call (fst x)))))"

lemma onlyD:
  "only I P m \<Longrightarrow> I w \<Longrightarrow> m w = (x, w') \<Longrightarrow>
   \<exists>l. w_sent w' = w_sent w @ l \<and> (\<forall>x \<in> set l. P (pp_call (fst x)))"
  by (metis only_def snd_conv)

lemma only_pure: "sends_at_most 0 m \<Longrightarrow> only I P m"
  by (fastforce simp: only_def sends_at_most_def)

lemma only_ret [only_intros]: "only I P (io_ret x)"
  and only_fail [only_intros]: "only I P (io_fail e)"
  by (rule only_pure, rule sends_intros)+

lemma only_any: "only (\<lambda>_. True) P m \<Longrightarrow> only I P m"
  by (simp add: only_def)

lemma only_bind:
  fixes m :: "('c, 'd, 'a) act"
  assumes "gives I m Q" and "only I P m" and "\<And>x. Q x \<Longrightarrow> only I P (f x)"
  shows "only I P (io_bind m f)"
  unfolding only_def
proof (intro allI impI)
  fix w :: "('c, 'd) world"
  assume w: "I w"
  obtain x w1 where m: "m w = (x, w1)" by force
  have g: "I w1" "\<forall>y. x = Inr y \<longrightarrow> Q y" using givesD [OF assms(1) w m] by auto
  obtain l where l: "w_sent w1 = w_sent w @ l" "\<forall>x \<in> set l. P (pp_call (fst x))"
    using onlyD [OF assms(2) w m] by auto
  show "\<exists>l. w_sent (snd (io_bind m f w)) = w_sent w @ l \<and> (\<forall>x \<in> set l. P (pp_call (fst x)))"
  proof (cases x)
    case (Inl e)
    then show ?thesis using m l by (auto simp: io_bind_def)
  next
    case (Inr y)
    obtain k where "w_sent (snd (f y w1)) = w_sent w1 @ k" "\<forall>x \<in> set k. P (pp_call (fst x))"
      using assms(3) [of y] g Inr by (auto simp: only_def)
    then show ?thesis using m l Inr by (auto simp: io_bind_def)
  qed
qed

lemma only_bind_pure:
  assumes "gives I m Q" and "sends_at_most 0 m" and "\<And>x. Q x \<Longrightarrow> only I P (f x)"
  shows "only I P (io_bind m f)"
  by (rule only_bind [OF assms(1) only_pure [OF assms(2)]]) (rule assms(3))

lemma only_if [only_intros]:
  "(b \<Longrightarrow> only I P m) \<Longrightarrow> (\<not> b \<Longrightarrow> only I P k) \<Longrightarrow> only I P (if b then m else k)"
  by simp

lemma only_case_option [only_intros]:
  "(x = None \<Longrightarrow> only I P m) \<Longrightarrow> (\<And>y. x = Some y \<Longrightarrow> only I P (f y)) \<Longrightarrow>
   only I P (case x of None \<Rightarrow> m | Some y \<Rightarrow> f y)"
  by (cases x) auto

lemma only_case_sum [only_intros]:
  "(\<And>e. x = Inl e \<Longrightarrow> only I P (g e)) \<Longrightarrow> (\<And>y. x = Inr y \<Longrightarrow> only I P (f y)) \<Longrightarrow>
   only I P (case x of Inl e \<Rightarrow> g e | Inr y \<Rightarrow> f y)"
  by (cases x) auto

lemma only_case_prod [only_intros]:
  "(\<And>a b. x = (a, b) \<Longrightarrow> only I P (f a b)) \<Longrightarrow> only I P (case x of (a, b) \<Rightarrow> f a b)"
  by (cases x) auto

lemma only_bind_lift [only_intros]:
  "(\<And>x. r = Inr x \<Longrightarrow> only I P (f x)) \<Longrightarrow> only I P (io_bind (io_lift r) f)"
  by (rule only_bind_pure [where Q = "\<lambda>x. r = Inr x"]) (auto intro: gives_intros sends_intros)

lemma only_bind_any:
  assumes "sends_at_most 0 m" and "\<And>x. only (\<lambda>_. True) P (f x)"
  shows "only (\<lambda>_. True) P (io_bind m f)"
  by (rule only_bind_pure [where Q = "\<lambda>_. True"]) (use assms in \<open>auto simp: gives_def\<close>)

lemma only_send_journaled [only_intros]:
  assumes "prepare_keeps_call cl" and "P call"
  shows "only I P (send_journaled cl r a call signer)"
proof (rule only_any)
  have pr: "gives (\<lambda>_. True) (io_attempt (rpc_do (rp_prepare (cl_rpc cl) call signer)))
      (\<lambda>x. \<forall>p. x = Inr p \<longrightarrow> pp_call p = call)"
    using assms(1)
    by (auto simp: gives_def io_attempt_def rpc_do_def case_prod_beta Let_def prepare_keeps_call_def)
  have bc: "only (\<lambda>_. True) P (broadcast cl p)" if "pp_call p = call" for p
    using that assms(2) by (auto simp: only_def broadcast_def rpc_do_def case_prod_beta Let_def)
  have bd: "gives (\<lambda>_. True) m (\<lambda>_. True)" for m :: "('a, 'b, finalized_tx) act"
    by (simp add: gives_def)
  show "only (\<lambda>_. True) P (send_journaled cl r a call signer)"
    unfolding send_journaled_def Let_def
    by (intro only_if only_pure only_bind_any only_bind_pure [OF pr] only_case_sum sends_intros
        only_bind [OF bd] bc) auto
qed

context signing_store
begin

lemma only_bind_rpc [only_intros]:
  "(\<And>x. only (good cr) P (f x)) \<Longrightarrow> only (good cr) P (io_bind (rpc_do g) f)"
  by (rule only_bind_pure [OF good_rpc [OF refl]]) (auto intro: sends_intros)

lemma only_bind_live:
  assumes "\<And>x. only (good cr) P (f x)"
  shows "only (good cr) P (io_bind (if b then io_ret c else rpc_do g) f)"
proof (cases b)
  case True
  then show ?thesis
    using assms by (simp only: if_True) (rule only_bind_pure [OF gives_ret [where R = "\<lambda>_. True"]];
        auto intro: sends_intros)
qed (simp add: only_bind_rpc assms)

lemma only_bind_sweep_floor [only_intros]:
  "(\<And>x. only (good cr) P (f x)) \<Longrightarrow> only (good cr) P (io_bind (sweep_floor en n) f)"
  unfolding sweep_floor_def io_bind_assoc
  by (rule only_bind_rpc, rule only_bind_pure [OF gives_ret [where R = "\<lambda>_. True"]]) (auto intro: sends_intros)

lemma only_bind_fees [only_intros]:
  "(\<And>x. only (good cr) P (f x)) \<Longrightarrow> only (good cr) P (io_bind (estimate_fees en kp n ps fees) f)"
  by (rule only_bind_pure [OF good_estimate_fees]) (auto intro: sends_intros)

lemma only_bind_spendable [only_intros]:
  "(\<And>x. only (good cr) P (f x)) \<Longrightarrow> only (good cr) P (io_bind (engine_spendable en) f)"
  unfolding engine_spendable_def io_bind_assoc
  by (rule only_bind_rpc, rule only_bind_rpc, rule only_bind_pure [OF gives_ret [where R = "\<lambda>_. True"]])
    (auto intro: sends_intros)

lemma only_bind_last_update [only_intros]: "only I P (io_bind (st_update cl r) (\<lambda>_. io_ret x))"
  by (intro only_pure sends_intros)

lemma wallet_of_address:
  "wallet_of en r = Inr w \<Longrightarrow> ss58 (en_crypto en) (wallet_account_id (en_crypto en) w) = r_address r"
  by (auto simp: wallet_of_def Let_def result_simps split: if_splits)

lemma only_step_detected:
  assumes "prepare_keeps_call (en_client en)" and "r_state r = Detected"
  shows "only (good cr) (allowed_call en r) (step_detected en r)"
  unfolding step_detected_def Let_def send_def
  by (intro only_intros assms(1)) (use assms(2) wallet_of_address in auto)

lemma only_step_funded:
  assumes "prepare_keeps_call (en_client en)" and "r_state r = Funded"
  shows "only (good cr) (allowed_call en r) (step_funded en r)"
  unfolding step_funded_def Let_def send_def
  by (intro only_intros assms(1)) (use assms(2) in \<open>auto simp: find_Some_iff sweepable_def\<close>)

text \<open>The fields that the consolidation loop leaves alone.\<close>

definition same_job :: "payment_record \<Rightarrow> payment_record \<Rightarrow> bool" where
  "same_job r r' \<longleftrightarrow>
     r_state r' = r_state r \<and> r_address r' = r_address r \<and> r_netuid r' = r_netuid r \<and>
     r_swept_positions r' = r_swept_positions r \<and> r_dust_returned r' = r_dust_returned r \<and>
     r_auto_required r' = r_auto_required r \<and> r_buyback r' = r_buyback r \<and>
     r_buyback_budget r' = r_buyback_budget r"

lemma allowed_same_job: "same_job r r' \<Longrightarrow> allowed_call en r' = allowed_call en r"
proof
  fix c assume "same_job r r'"
  then show "allowed_call en r' c = allowed_call en r c"
    by (cases c) (simp_all add: same_job_def)
qed

lemma same_job_next: "same_job r (next_version now (r\<lparr>r_consolidated := n\<rparr>))"
  by (simp add: same_job_def next_version_def)

lemma same_job_trans: "same_job a b \<Longrightarrow> same_job b c \<Longrightarrow> same_job a c"
  by (simp add: same_job_def)

lemma only_weaken: "only I P m \<Longrightarrow> (\<And>c. P c \<Longrightarrow> Q c) \<Longrightarrow> only I Q m"
  by (fastforce simp: only_def)

lemma only_step_auto_buyback:
  assumes "prepare_keeps_call (en_client en)" and "r_state r = Swept" and "r_auto_required r = Some True"
  shows "only (good cr) (allowed_call en r) (step_auto_buyback en r)"
  unfolding step_auto_buyback_def Let_def send_def
  by (intro only_intros assms(1))
    (use assms(2,3) in \<open>auto simp: destroy_call_def strict_buyback_amount_def ok_or_Inr_iff
       split: destroy.splits if_splits\<close>)

lemma swept_step:
  assumes "swept_ready cr r" and "r_consolidated r < length (r_swept_positions r)"
  shows "wf_record cr (r\<lparr>r_consolidated := r_consolidated r + 1\<rparr>)"
    and "swept_ready cr (next_version now (r\<lparr>r_consolidated := r_consolidated r + 1\<rparr>))"
proof -
  show w: "wf_record cr (r\<lparr>r_consolidated := r_consolidated r + 1\<rparr>)"
    using assms validate_completed_cong [of "r\<lparr>r_consolidated := r_consolidated r + 1\<rparr>" r cr]
    by (auto simp: swept_ready_def wf_record_def failed_ok_def settled_ok_def consolidated_ok_def)
  then show "swept_ready cr (next_version now (r\<lparr>r_consolidated := r_consolidated r + 1\<rparr>))"
    using assms(1) by (simp add: swept_ready_def)
qed

lemma only_bind_update:
  assumes "engine_ok cr en" and "wf_record cr r"
    and "\<And>now. only (good cr) P (f (next_version now r))"
  shows "only (good cr) P (io_bind (st_update (en_client en) r) f)"
  by (rule only_bind_pure [OF good_st_update [OF assms(1,2)]]) (use assms(3) in \<open>auto intro: sends_intros\<close>)

lemma consolidate_same_job:
  assumes "engine_ok cr en" and "swept_ready cr r"
  shows "gives (good cr) (consolidate_loop n en r) (\<lambda>x. \<forall>r'. x = Inr r' \<longrightarrow> same_job r r')"
  using assms(2)
proof (induction n arbitrary: r)
  case 0
  then show ?case by (auto intro!: gives_intros simp: same_job_def)
next
  case (Suc n)
  have wf: "wf_record cr r" using Suc.prems by (simp add: swept_ready_def)
  have mj: "may_journal (Consolidate hk) r" if "r_consolidated r < length (r_swept_positions r)" for hk
    using Suc.prems that by (simp add: may_journal_def swept_ready_def)
  have free: "gives (good cr) (if b then io_ret 0 else rpc_do f) (\<lambda>_. True)" for b f
    by (intro gives_intros) auto
  have rec: "gives (good cr) (consolidate_loop n en (next_version now (r\<lparr>r_consolidated := r_consolidated r + 1\<rparr>)))
      (\<lambda>x. \<forall>r'. x = Inr r' \<longrightarrow> same_job r r')"
    if "r_consolidated r < length (r_swept_positions r)" for now
    using Suc.IH [OF swept_step(2) [OF Suc.prems that]]
    by (rule gives_weaken) (use same_job_next same_job_trans in blast)
  show ?case
    unfolding consolidate_loop.simps Let_def send_def
    by (intro gives_intros gives_bind [OF free] assms(1) swept_step(1) [OF Suc.prems] mj wf rec)
      (auto simp: same_job_def)
qed

lemma only_consolidate:
  assumes "engine_ok cr en" and "prepare_keeps_call (en_client en)" and "c_consolidate (en_cfg en)"
    and "swept_ready cr r"
  shows "only (good cr) (allowed_call en r) (consolidate_loop n en r)"
  using assms(4)
proof (induction n arbitrary: r)
  case 0
  then show ?case by (auto intro!: only_intros)
next
  case (Suc n)
  have wf: "wf_record cr r" using Suc.prems by (simp add: swept_ready_def)
  have mj: "may_journal (Consolidate hk) r" if "r_consolidated r < length (r_swept_positions r)" for hk
    using Suc.prems that by (simp add: may_journal_def swept_ready_def)
  have rec: "only (good cr) (allowed_call en r) (consolidate_loop n en (next_version now (r\<lparr>r_consolidated := r_consolidated r + 1\<rparr>)))"
    if "r_consolidated r < length (r_swept_positions r)" for now
    using Suc.IH [OF swept_step(2) [OF Suc.prems that, of now]]
    by (simp add: allowed_same_job [OF same_job_next])
  have snd: "only (good cr) (allowed_call en r) (io_bind (send_journaled (en_client en) r (Consolidate h)
      (MoveStake hk (c_treasury_hotkey (en_cfg en)) (r_netuid r) live) k) (\<lambda>b. io_ret (Inl b)))"
    if "r_consolidated r < length (r_swept_positions r)" for h hk live k
    by (rule only_bind [OF good_send_journaled [OF assms(1) wf _ refl]])
      (use assms(2,3) Suc.prems mj that in \<open>auto intro!: only_intros simp: swept_ready_def\<close>)
  show ?case
    unfolding consolidate_loop.simps Let_def send_def
    by (intro only_if only_bind_lift only_bind_live only_bind_update assms(1)
        swept_step(1) [OF Suc.prems] rec snd only_ret)
qed

lemma only_settle:
  assumes "engine_ok cr en" and "prepare_keeps_call (en_client en)" and "swept_ready cr r"
  shows "only (good cr) (allowed_call en r) (settle en r)"
proof -
  have auto: "only (good cr) (allowed_call en r) (step_auto_buyback en r)" if "r_auto_required r = Some x" "x \<and> b" for x b
    using assms(3) that by (intro only_step_auto_buyback assms(2)) (auto simp: swept_ready_def)
  have val: "gives (good cr) (if b then io_lift v else io_ret ()) (\<lambda>_. True)"
    "sends_at_most 0 (if b then io_lift v else io_ret ())" for b and v :: "unit res"
    by (intro gives_intros) (auto intro: sends_intros)
  show ?thesis
    unfolding settle_def
    by (intro only_bind_lift only_if only_fail only_bind_pure [OF val] auto)
      (auto simp: ok_or_Inr_iff intro!: only_pure sends_intros)
qed

lemma only_step_swept:
  assumes "engine_ok cr en" and "prepare_keeps_call (en_client en)" and "swept_ready cr r"
  shows "only (good cr) (allowed_call en r) (step_swept en r)"
proof -
  have dust: "swept_ready cr (r'\<lparr>r_dust_returned := True\<rparr>)" if "swept_ready cr r'" for r'
    using that wf_record_cong [of "r'\<lparr>r_dust_returned := True\<rparr>" r' cr] by (simp add: swept_ready_def)
  have weak: "allowed_call en r c" if "same_job r r'" "allowed_call en (r'\<lparr>r_dust_returned := True\<rparr>) c" for r' c
    using that by (cases c) (auto simp: same_job_def)
  have loop: "gives (good cr) (if b then consolidate_loop n en r else io_ret (Inr r))
      (\<lambda>x. \<forall>r'. x = Inr r' \<longrightarrow> swept_ready cr r' \<and> same_job r r')" for b n
  proof (rule gives_if)
    show "gives (good cr) (consolidate_loop n en r) (\<lambda>x. \<forall>r'. x = Inr r' \<longrightarrow> swept_ready cr r' \<and> same_job r r')"
      using good_consolidate_loop [OF assms(1,3)] consolidate_same_job [OF assms(1,3)]
      by (simp add: gives_def)
  qed (use assms(3) in \<open>auto intro!: gives_intros simp: same_job_def\<close>)
  have tail: "only (good cr) (allowed_call en r)
      (if \<not> r_dust_returned r' \<and> (c_return_dust (en_cfg en) \<or> 0 < r_detected_tao r')
       then io_bind (io_lift (wallet_of en r')) (\<lambda>wallet.
            io_bind (rpc_do (rp_free_balance (en_rpc en) (wallet_account_id (en_crypto en) wallet))) (\<lambda>free.
            if 0 < free then send en r' ReturnDust (TransferAll (treasury_account en)) (wl_keypair wallet)
            else settle en (r'\<lparr>r_dust_returned := True\<rparr>)))
       else settle en r')" if "swept_ready cr r'" "same_job r r'" for r'
  proof -
    have "only (good cr) (allowed_call en r) (settle en r')"
      using only_settle [OF assms(1,2) that(1)] allowed_same_job [OF that(2), of en] by simp
    moreover have "only (good cr) (allowed_call en r) (settle en (r'\<lparr>r_dust_returned := True\<rparr>))"
      using only_settle [OF assms(1,2) dust [OF that(1)]] by (rule only_weaken) (rule weak [OF that(2)])
    moreover have "allowed_call en r (TransferAll (treasury_account en))" if "\<not> r_dust_returned r'"
      using \<open>same_job r r'\<close> \<open>swept_ready cr r'\<close> that by (auto simp: same_job_def swept_ready_def)
    ultimately show ?thesis
      unfolding send_def by (intro only_intros assms(2)) auto
  qed
  show ?thesis
    unfolding step_swept_def
    by (rule only_bind [OF loop])
      (use assms tail in \<open>auto intro!: only_intros only_consolidate split: sum.splits\<close>)
qed

lemma only_or_record_failure:
  assumes "gives (good cr) m (\<lambda>_. True)" and "only (good cr) P m"
  shows "only (good cr) P (or_record_failure en i m)"
proof -
  have s: "sends_at_most 0 (case e of Conflict j \<Rightarrow> io_fail (Conflict j) | _ \<Rightarrow> step_failed en i e)" for e
    by (cases e) (auto intro: sends_intros)
  have g: "gives (good cr) (io_attempt m) (\<lambda>_. True)" using assms(1) by (simp add: gives_def io_simps)
  have o: "only (good cr) P (io_attempt m)" using assms(2) by (simp add: only_def io_simps)
  show ?thesis
    unfolding or_record_failure_def
    by (intro only_bind [OF g o] only_case_sum only_ret only_pure s)
qed

lemma only_step:
  assumes "engine_ok cr en" and "prepare_keeps_call (en_client en)" and "wf_record cr r"
  shows "only (good cr) (allowed_call en r) (step en r ps)"
proof -
  have "only (good cr) (allowed_call en r) (case r_state r of
             Pending \<Rightarrow> step_pending en r ps
           | Detected \<Rightarrow> or_record_failure en (r_id r) (step_detected en r)
           | Funded \<Rightarrow> or_record_failure en (r_id r) (step_funded en r)
           | Swept \<Rightarrow> or_record_failure en (r_id r) (step_swept en r)
           | Settled \<Rightarrow> io_bind (notify en r) (\<lambda>_. io_ret True)
           | _ \<Rightarrow> io_ret False)" if "r_pending r = None"
    using that assms
    by (cases "r_state r")
      (auto intro!: only_or_record_failure only_step_detected only_step_funded only_step_swept
        good_step_detected good_step_funded good_step_swept simp: swept_ready_def
        intro: only_pure sends_intros)
  then show ?thesis
    unfolding step_def by (auto intro!: only_intros intro: only_pure sends_intros split: option.splits)
qed

section \<open>The consolidation loop ends\<close>

lemma io_bind_cong:
  "(\<And>x w'. m w = (Inr x, w') \<Longrightarrow> f x w' = g x w') \<Longrightarrow> io_bind m f w = io_bind m g w"
  by (auto simp: io_bind_def split: prod.splits sum.splits)

lemma good_live: "gives (good cr) (if b then io_ret c else rpc_do g) (\<lambda>_. True)"
  by (intro gives_intros) auto

lemma consolidate_enough_fuel:
  assumes "engine_ok cr en" and "swept_ready cr r" and "good cr w"
    and "length (r_swept_positions r) - r_consolidated r \<le> n"
  shows "consolidate_loop (n + k) en r w = consolidate_loop n en r w"
  using assms(2-4)
proof (induction n arbitrary: r w)
  case 0
  then show ?case by (cases k) (simp_all add: Let_def)
next
  case (Suc n)
  show ?case
  proof (cases "r_consolidated r < length (r_swept_positions r)")
    case False
    then show ?thesis by (simp add: Let_def)
  next
    case True
    let ?r = "r\<lparr>r_consolidated := r_consolidated r + 1\<rparr>"
    have step: "io_bind (st_update (en_client en) ?r) (consolidate_loop (n + k) en) w' =
        io_bind (st_update (en_client en) ?r) (consolidate_loop n en) w'" if g: "good cr w'" for w'
    proof (rule io_bind_cong)
      fix r' w'' assume u: "st_update (en_client en) ?r w' = (Inr r', w'')"
      obtain now where r': "r' = next_version now ?r" and g': "good cr w''"
        using givesD [OF good_st_update [OF assms(1) swept_step(1) [OF Suc.prems(1) True]] g u] by auto
      show "consolidate_loop (n + k) en r' w'' = consolidate_loop n en r' w''"
        using Suc.IH [OF swept_step(2) [OF Suc.prems(1) True] g'] Suc.prems(3) True r' by simp
    qed
    show ?thesis
      unfolding add_Suc consolidate_loop.simps Let_def if_P [OF True]
    proof (rule io_bind_cong, goal_cases)
      case (1 hk w1)
      then have g1: "good cr w1" using Suc.prems(2) by (simp add: io_simps)
      show ?case
      proof (rule io_bind_cong, goal_cases)
        case (1 live w2)
        from givesD [OF good_live g1 this] have "good cr w2" by simp
        then show ?case using step by simp
      qed
    qed
  qed
qed

end

end
