(* ===== verification/Store_History.thy ===== *)
theory Store_History
  imports Sqlite_Store
begin

text \<open>
  What holds of a SQLite database whatever its clients do: histories of store operations from
  the empty database (\<open>run_op\<close> is one transaction of one client), the exclusivity of signer
  journals, who may release a reservation, compare and swap, which updates are accepted, and
  the policy migration, each with a concrete history as witness.
\<close>

section \<open>Histories\<close>

text \<open>No journal entry predates the reservations.\<close>

definition no_legacy :: "sqlite_db \<Rightarrow> bool" where
  "no_legacy d \<longleftrightarrow>
     (\<forall>i r. db_content d i = Some r \<longrightarrow> r_pending r \<noteq> None \<longrightarrow> journal_claim r \<noteq> None)"

lemma cancel_Inl: "sqlite_cancel_preparation s j tok d = (Inl e, d') \<Longrightarrow> d' = d"
  by (auto simp: sqlite_cancel_preparation_def Let_def split: if_splits)

text \<open>How one operation changes what is stored: it writes at most one record, and a written
  journal entry has its reservation.\<close>

text \<open>An operation that does not bring in a legacy journal entry: the content stays, or one record is
  stored whose journal entry, if any, has a reservation token.\<close>

definition content_step :: "sqlite_db \<Rightarrow> sqlite_db \<Rightarrow> bool" where
  "content_step d d' \<longleftrightarrow> db_content d' = db_content d \<or>
     (\<exists>i r. db_content d' = (db_content d)(i \<mapsto> r) \<and> (r_pending r \<noteq> None \<longrightarrow> journal_claim r \<noteq> None))"

lemma content_step_same [simp]: "db_content d' = db_content d \<Longrightarrow> content_step d d'"
  by (simp add: content_step_def)

lemma content_step_storeI:
  "db_content d' = (db_content d)(i \<mapsto> r) \<Longrightarrow> (r_pending r \<noteq> None \<Longrightarrow> journal_claim r \<noteq> None) \<Longrightarrow> content_step d d'"
  unfolding content_step_def by blast

lemma content_step_insert: "r_pending r = None \<Longrightarrow> content_step d (snd (sqlite_insert r d))"
  using insert_Inl_sqlite [of r d] insert_content_sqlite [of r d]
  by (cases "sqlite_insert r d"; cases "fst (sqlite_insert r d)") (auto intro: content_step_storeI)

lemma content_step_update: "content_step d (snd (sqlite_update r now d))"
proof (cases "sqlite_update r now d")
  case (Pair x d')
  show ?thesis
  proof (cases x)
    case (Inr r')
    note u = Pair [unfolded Inr]
    obtain c where c: "db_content d (r_id r) = Some c" "r' = next_version now r" "db_content d' = (db_content d)(r_id r \<mapsto> r')"
      using update_content_sqlite [OF u] by auto
    then show ?thesis using update_held_sqlite [OF u c(1)] u by (auto intro!: content_step_storeI [OF c(3)])
  qed (use Pair sqlite_update_Inl [of r now d] in auto)
qed

lemma content_step_migrate: "content_step d (snd (sqlite_migrate_legacy_policy cr i v b now d))"
proof (cases "sqlite_migrate_legacy_policy cr i v b now d")
  case (Pair x d')
  show ?thesis
  proof (cases x)
    case (Inr r')
    note m = Pair [unfolded Inr]
    obtain c where c: "migrated_policy cr c v b now = Inr r'" "db_content d' = (db_content d)(i \<mapsto> r')"
      using migrate_InrD [OF m] by auto
    then show ?thesis
      using migrated_policy_InrD [OF c(1)] m by (auto simp: has_evidence_def intro!: content_step_storeI [OF c(2)])
  qed (use Pair migrate_Inl [of cr i v b now d] in auto)
qed

lemma run_op_content: "op_ok op \<Longrightarrow> content_step d (run_op (sqlite_ops cr) op d)"
  by (cases op)
    (auto simp: content_step_insert content_step_update content_step_migrate sqlite_reserve_signer_for_record_def
      sqlite_reserve_signer_def)

lemma run_op_no_legacy: "op_ok op \<Longrightarrow> no_legacy d \<Longrightarrow> no_legacy (run_op (sqlite_ops cr) op d)"
  using run_op_content [of op d cr] by (auto simp: no_legacy_def content_step_def split: if_splits)

lemma db_ops_inv:
  "list_all op_ok ops \<Longrightarrow> sqlite_inv d \<Longrightarrow> no_legacy d \<Longrightarrow>
   sqlite_inv (fold (run_op (sqlite_ops cr)) ops d) \<and> no_legacy (fold (run_op (sqlite_ops cr)) ops d)"
  by (induction ops arbitrary: d) (auto simp: sq.run_op_inv run_op_no_legacy)

lemma empty_db_inv: "sqlite_inv empty_db" "no_legacy empty_db"
  by (simp_all add: empty_db_def sqlite_inv_def no_legacy_def db_content_def find_row_def)

section \<open>Properties\<close>


text \<open>Which update and which cancellation can release a reservation.\<close>

lemma update_releases:
  assumes "(s, j, t) \<in> db_held d" and "(s, j, t) \<notin> db_held (snd (sqlite_update r now d))"
  shows "\<exists>c. r_id r = j \<and> db_content d j = Some c \<and> journal_claim c = Some (s, t) \<and>
           r_pending r = None \<and> r_version r = r_version c"
proof (cases "sqlite_update r now d")
  case (Pair x d')
  show ?thesis
  proof (cases x)
    case (Inl e)
    then show ?thesis using Pair sqlite_update_Inl [of r now d] assms by auto
  next
    case (Inr r')
    note u = Pair [unfolded Inr]
    obtain c where c: "db_content d (r_id r) = Some c" "r_version c = r_version r"
      using update_content_sqlite [OF u] by auto
    then show ?thesis using u assms update_held_sqlite [OF u c(1)] by (auto split: if_splits)
  qed
qed

lemma cancel_releases:
  assumes "sqlite_inv d" and "(s, j, t) \<in> db_held d"
    and "(s, j, t) \<notin> db_held (snd (sqlite_cancel_preparation s' j' t' d))"
  shows "(s, j, t) = (s', j', t') \<and> (\<forall>i q. db_content d i = Some q \<longrightarrow> journal_signer q \<noteq> Some s')"
proof (cases "sqlite_cancel_preparation s' j' t' d")
  case (Pair x d')
  show ?thesis
  proof (cases x)
    case (Inl e)
    then have "d' = d" using Pair cancel_Inl by blast
    then show ?thesis using assms Pair by simp
  next
    case (Inr u)
    have "db_held d' = db_held d - {(s', j', t')}"
      "\<forall>i q. db_content d i = Some q \<longrightarrow> journal_signer q \<noteq> Some s'"
      using cancel_InrD [OF assms(1) Pair [unfolded Inr]] by auto
    then show ?thesis using assms(2,3) Pair by auto
  qed
qed

lemma migrate_keeps_held: "db_held (snd (sqlite_migrate_legacy_policy cr i v b now d)) = db_held d"
proof (cases "sqlite_migrate_legacy_policy cr i v b now d")
  case (Pair x d')
  then have "db_reservations d' = db_reservations d" by (cases x) (auto dest: migrate_Inl migrate_InrD)
  then show ?thesis using Pair by (simp add: db_held_def)
qed

text \<open>C11: a reservation is released only by its owner: by the preparing caller that presents its
  signer, job and token while no journal entry of that signer exists, or by the update that
  resolves the journal entry carrying the token; every other operation leaves it in place.\<close>

theorem released_by_owner_only:
  assumes "sqlite_inv d" and "(s, j, t) \<in> db_held d" and "(s, j, t) \<notin> db_held (run_op (sqlite_ops cr) op d)"
  shows "op = OpCancel s j t \<and> (\<forall>i q. db_content d i = Some q \<longrightarrow> journal_signer q \<noteq> Some s) \<or>
         (\<exists>r now c. op = OpUpdate r now \<and> r_id r = j \<and> db_content d j = Some c \<and>
            journal_claim c = Some (s, t) \<and> r_pending r = None \<and> r_version r = r_version c)"
proof (cases op)
  case (OpUpdate r now)
  then show ?thesis using update_releases [OF assms(2), of r now] assms(3) by auto
next
  case (OpCancel s' j' t')
  then show ?thesis using cancel_releases [OF assms(1,2), of s' j' t'] assms(3) by auto
next
  case (OpMigrate i v b now)
  then show ?thesis using assms(2,3) by (simp add: migrate_keeps_held)
qed (use assms in \<open>auto simp: sqlite_insert_def sqlite_reserve_signer_for_record_def
      sqlite_reserve_signer_def reserve_def db_held_def split: if_splits\<close>)

lemma sqlite_update_iff:
  assumes "sqlite_inv d" and "db_content d (r_id r) = Some c"
  shows "(\<exists>r' d'. sqlite_update r now d = (Inr r', d')) \<longleftrightarrow>
     r_version c = r_version r \<and> same_policy c r \<and>
     (case r_pending r of None \<Rightarrow> True
      | Some p \<Rightarrow> \<exists>t. pd_reservation p = Some t \<and> (pd_signer p, r_id r, t) \<in> db_held d) \<and>
     (case r_pending c of None \<Rightarrow> True
      | Some p \<Rightarrow> r_pending r = Some p \<or> r_pending r = None \<and> pd_reservation p \<noteq> None) \<and>
     unat (r_version r) + 1 < 2 ^ 64"
proof -
  obtain row where row: "find_row (r_id r) d = Some row" "row_record row = c"
    using assms(2) by (auto simp: db_content_def)
  have "(\<exists>r' d'. sqlite_update r now d = (Inr r', d')) \<longleftrightarrow>
      (\<exists>vs. update_checks c r d = Inr vs) \<and> unat (r_version r) + 1 < 2 ^ 64"
    using row by (cases "update_checks c r d") (auto simp: sqlite_update_def checked_add_def)
  moreover have "length (filter (owns (pd_signer p) (r_id r) t) (db_reservations d)) = 1"
    if "r_pending c = Some p" "pd_reservation p = Some t" for p t
  proof -
    have "(pd_signer p, r_id r, t) \<in> db_held d"
      using sq.held_claims [OF assms] that by (simp add: journal_claim_def)
    then show ?thesis using owned_once [OF assms(1)] by (simp add: db_held_iff)
  qed
  ultimately show ?thesis
    unfolding update_checks_def same_policy_def db_held_iff
    by (cases "r_pending r"; cases "r_pending c") (auto simp: result_simps ok_or_def split: option.splits if_splits)
qed

text \<open>C12: \<open>update\<close> is a compare and swap: a writer that read a record and writes it back after other
  clients made any number of attempts succeeds only if the stored record is still the one it
  read; then its write is stored under the next version.  The policy of the job (budget,
  \<open>auto_required\<close>, identity) is the same before and after.\<close>

theorem no_lost_update_sqlite:
  assumes "sqlite_inv d" and "sqlite_get i d = Inr (Some c)"
    and "d' = fold (\<lambda>(r, now) d. snd (sqlite_update r now d)) ws d"
    and "unat (r_version c) + length ws < 2 ^ 64"
    and "r_id r = i" and "r_version r = r_version c"
    and "sqlite_update r now d' = (Inr r', d'')"
  shows "sqlite_get i d' = Inr (Some c) \<and> sqlite_get i d'' = Inr (Some r') \<and>
         r' = next_version now r \<and> same_policy c r'"
proof -
  have "(\<lambda>(r, now) d. snd (sqlite_update r now d)) = attempt_write (sqlite_ops plain_crypto)"
    by (auto simp: attempt_write_def fun_eq_iff)
  then have d': "d' = fold (attempt_write (sqlite_ops plain_crypto)) ws d" using assms(3) by simp
  have c: "db_content d i = Some c" using assms(2) by (simp add: sqlite_get_def db_content_def)
  have u: "so_update (sqlite_ops plain_crypto) r now
      (fold (attempt_write (sqlite_ops plain_crypto)) ws d) = (Inr r', d'')"
    using assms(7) d' by simp
  have "db_content d' i = Some c \<and> db_content d'' i = Some (next_version now r) \<and> same_policy c r"
    using sq.no_lost_update [OF assms(1) c assms(4-6) u] d' by simp
  moreover have "r' = next_version now r" using update_content_sqlite [OF assms(7)] by simp
  ultimately show ?thesis by (simp add: sqlite_get_def db_content_def)
qed

text \<open>C18: which updates a database accepts, in terms of what is stored and which reservations are
  held: the version and the policy match, a journal entry to be written carries a reservation
  that this job holds, an unresolved entry is kept as it is or removed together with its
  reservation, and the version does not overflow.  A refused update changes nothing.\<close>

theorem sqlite_update_accepts:
  assumes "sqlite_inv d" and "db_content d (r_id r) = Some c"
  shows "(\<exists>r' d'. sqlite_update r now d = (Inr r', d')) \<longleftrightarrow>
     r_version c = r_version r \<and> same_policy c r \<and>
     (case r_pending r of None \<Rightarrow> True
      | Some p \<Rightarrow> \<exists>t. pd_reservation p = Some t \<and> (pd_signer p, r_id r, t) \<in> db_held d) \<and>
     (case r_pending c of None \<Rightarrow> True
      | Some p \<Rightarrow> r_pending r = Some p \<or> r_pending r = None \<and> pd_reservation p \<noteq> None) \<and>
     unat (r_version r) + 1 < 2 ^ 64"
  using assms by (rule sqlite_update_iff)

text \<open>C19: the operator's migration of a record from before the policy fields touches only a pristine
  record: one without policy, journal entry, transactions or any other evidence of execution,
  that is still pending or detected, at the version the operator saw and without a reservation
  of the job; and it changes nothing but the policy, the version and the time stamp.\<close>

theorem migrate_only_pristine:
  assumes "sqlite_migrate_legacy_policy cr i v b now d = (Inr r', d')"
  shows "\<exists>c. sqlite_get i d = Inr (Some c) \<and> r_version c = v \<and> \<not> has_evidence c \<and>
           (\<forall>s t. (s, i, t) \<notin> db_held d) \<and>
           r' = c\<lparr>r_auto_required := Some (b \<noteq> None), r_buyback_budget := b,
                  r_version := v + 1, r_updated_at := now\<rparr> \<and>
           (\<forall>x. b = Some x \<longrightarrow> budget_validate cr x = Inr ()) \<and>
           (\<forall>j. sqlite_get j d' = (if j = i then Inr (Some r') else sqlite_get j d)) \<and>
           db_held d' = db_held d"
proof -
  obtain c where c: "db_content d i = Some c" "migrated_policy cr c v b now = Inr r'"
    "db_content d' = (db_content d)(i \<mapsto> r')" "db_reservations d' = db_reservations d"
    "\<forall>s t. (s, i, t) \<notin> db_held d"
    using migrate_InrD [OF assms] by auto
  have g: "sqlite_get j x = Inr (db_content x j)" for j x by (simp add: sqlite_get_def db_content_def)
  have "db_held d' = db_held d" using c(4) by (simp add: db_held_def)
  then show ?thesis using c migrated_policy_InrD [OF c(2)] by (simp add: g)
qed

section \<open>Witnesses\<close>

text \<open>One payment that reserves the signer \<open>T\<close> and journals a transaction of it.\<close>

definition demo_pending :: pending_tx where
  "demo_pending = \<lparr>pd_action = Fund, pd_reservation = Some ''tok'', pd_signer = ''T'', pd_nonce = 0,
     pd_tx_hash = ''0x1'', pd_birth_block = 10, pd_amount = 7\<rparr>"

definition demo_ops :: "store_op list" where
  "demo_ops = [OpInsert (test_record ''a''), OpReserve ''T'' (test_record ''a'') ''tok'',
     OpUpdate ((test_record ''a'')\<lparr>r_pending := Some demo_pending\<rparr>) 5]"

definition demo_row :: "payment_record \<Rightarrow> row" where
  "demo_row r = \<lparr>row_id = r_id r, row_state = ''pending'', row_version = sint (r_version r),
     row_created_at = 0, row_record = r\<rparr>"

definition demo_db :: "payment_record \<Rightarrow> sqlite_db" where
  "demo_db r = \<lparr>db_payments = [demo_row r],
     db_reservations = [\<lparr>rs_signer = ''T'', rs_job = ''a'', rs_token = ''tok''\<rparr>], db_recoveries = []\<rparr>"

lemmas sqlite_defs = sqlite_insert_def sqlite_get_def sqlite_update_def update_checks_def reserve_def
  sqlite_reserve_signer_for_record_def sqlite_reserve_signer_def sqlite_cancel_preparation_def
  find_row_def signer_pending_def set_rows_def written_row_def owns_def journal_signer_def

lemmas demo_defs = demo_ops_def demo_pending_def demo_db_def demo_row_def empty_db_def next_version_def

lemma test_record_created [simp]: "r_created_at (test_record i) = 0"
  by (simp add: test_record_def)

lemma demo_run:
  "fold (run_op (sqlite_ops cr)) demo_ops empty_db =
   demo_db (next_version 5 ((test_record ''a'')\<lparr>r_pending := Some demo_pending\<rparr>))"
  by (simp add: demo_defs sqlite_defs i64_try_from_def checked_add_def)

lemma demo_ops_ok: "list_all op_ok demo_ops"
  by (simp add: demo_ops_def)

lemma demo_content: "db_content (demo_db r) i = (if r_id r = i then Some r else None)"
  by (simp add: db_content_def find_row_def demo_defs)

lemma demo_inv:
  "sqlite_inv (demo_db (next_version 5 ((test_record ''a'')\<lparr>r_pending := Some demo_pending\<rparr>)))"
  using db_ops_inv [OF demo_ops_ok empty_db_inv] demo_run by metis


theorem released_by_owner_only_witness:
  "let r = next_version 5 ((test_record ''a'')\<lparr>r_pending := Some demo_pending\<rparr>);
       op = OpUpdate (r\<lparr>r_pending := None\<rparr>) 6
   in (''T'', ''a'', ''tok'') \<in> db_held (demo_db r) \<and>
      (''T'', ''a'', ''tok'') \<notin> db_held (run_op (sqlite_ops plain_crypto) op (demo_db r)) \<and>
      (op = OpCancel ''T'' ''a'' ''tok'' \<and>
         (\<forall>i q. db_content (demo_db r) i = Some q \<longrightarrow> journal_signer q \<noteq> Some ''T'') \<or>
       (\<exists>r' now c. op = OpUpdate r' now \<and> r_id r' = ''a'' \<and> db_content (demo_db r) ''a'' = Some c \<and>
          journal_claim c = Some (''T'', ''tok'') \<and> r_pending r' = None \<and> r_version r' = r_version c))"
proof -
  let ?r = "next_version 5 ((test_record ''a'')\<lparr>r_pending := Some demo_pending\<rparr>)"
  let ?op = "OpUpdate (?r\<lparr>r_pending := None\<rparr>) 6"
  have h: "(''T'', ''a'', ''tok'') \<in> db_held (demo_db ?r)"
    by (simp add: db_held_def demo_defs)
  have n: "(''T'', ''a'', ''tok'') \<notin> db_held (run_op (sqlite_ops plain_crypto) ?op (demo_db ?r))"
    by (simp add: sqlite_defs db_held_def demo_defs checked_add_def)
  show ?thesis
    unfolding Let_def using h n released_by_owner_only [OF demo_inv h n] by blast
qed

theorem no_lost_update_sqlite_witness:
  "let r = next_version 5 ((test_record ''a'')\<lparr>r_pending := Some demo_pending\<rparr>);
       w = r\<lparr>r_detected_alpha := 9\<rparr>
   in sqlite_get ''a'' (demo_db r) = Inr (Some r) \<and> same_policy r (next_version 7 w)"
proof -
  let ?r = "next_version 5 ((test_record ''a'')\<lparr>r_pending := Some demo_pending\<rparr>)"
  let ?w = "?r\<lparr>r_detected_alpha := 9\<rparr>"
  have g: "sqlite_get ''a'' (demo_db ?r) = Inr (Some ?r)" by (simp add: sqlite_defs demo_defs)
  obtain d'' where u: "sqlite_update ?w 7 (demo_db ?r) = (Inr (next_version 7 ?w), d'')"
    by (simp add: sqlite_defs demo_defs checked_add_def)
  show ?thesis
    unfolding Let_def
    using no_lost_update_sqlite [OF demo_inv g, of "demo_db ?r" "[]" ?w, OF _ _ _ _ u] by simp
qed

theorem sqlite_update_accepts_witness:
  "let r = next_version 5 ((test_record ''a'')\<lparr>r_pending := Some demo_pending\<rparr>) in
   (\<exists>r' d'. sqlite_update r 6 (demo_db r) = (Inr r', d')) \<and>
   \<not> (\<exists>r' d'. sqlite_update (r\<lparr>r_pending := Some (demo_pending\<lparr>pd_nonce := 1\<rparr>)\<rparr>) 6 (demo_db r) = (Inr r', d'))"
proof -
  let ?r = "next_version 5 ((test_record ''a'')\<lparr>r_pending := Some demo_pending\<rparr>)"
  have "\<exists>r' d'. sqlite_update ?r 6 (demo_db ?r) = (Inr r', d')"
    by (subst sqlite_update_accepts [OF demo_inv, where c = ?r])
      (simp_all add: demo_content same_policy_def, simp_all add: db_held_def demo_defs)
  moreover have "\<not> (\<exists>r' d'. sqlite_update (?r\<lparr>r_pending := Some (demo_pending\<lparr>pd_nonce := 1\<rparr>)\<rparr>) 6
      (demo_db ?r) = (Inr r', d'))"
    by (subst sqlite_update_accepts [OF demo_inv, where c = ?r])
      (simp_all add: demo_content same_policy_def, simp_all add: demo_pending_def)
  ultimately show ?thesis by (simp add: Let_def)
qed

definition legacy_record :: payment_record where
  "legacy_record = (test_record ''a'')\<lparr>r_auto_required := None\<rparr>"

theorem migrate_only_pristine_witness:
  "let d = snd (sqlite_insert legacy_record empty_db) in
   \<exists>r' d'. sqlite_migrate_legacy_policy plain_crypto ''a'' 0 None 9 d = (Inr r', d') \<and>
     (\<exists>c. sqlite_get ''a'' d = Inr (Some c) \<and> \<not> has_evidence c)"
proof -
  let ?d = "snd (sqlite_insert legacy_record empty_db)"
  obtain r' d' where m: "sqlite_migrate_legacy_policy plain_crypto ''a'' 0 None 9 ?d = (Inr r', d')"
    by (simp add: sqlite_migrate_legacy_policy_def sqlite_defs empty_db_def legacy_record_def
        migrated_policy_def has_evidence_def checked_add_def i64_try_from_def test_record_def)
  show ?thesis unfolding Let_def using m migrate_only_pristine [OF m] by blast
qed

end
