(* ===== verification/Journal_Outcomes.thy ===== *)
theory Journal_Outcomes
  imports Journal Store_History
begin

text \<open>
  What \<open>send_journaled\<close> and \<open>reconcile_journaled\<close> leave behind, on every path, when no other
  client interferes between their database transactions (\<open>quiet\<close>): the lemmas hold for every
  store with reservations, the properties are stated for the SQLite store.  \<open>resolution\<close> is the
  pure specification of reconciliation: the record it writes for each verdict of the chain.
\<close>

section \<open>Outcomes without interference\<close>

definition quiet :: "('c, 'd, 'k) client \<Rightarrow> bool" where
  "quiet cl \<longleftrightarrow> (\<forall>c. rp_others (cl_rpc cl) c = ([], c))"

lemma quiet_others_ok: "quiet cl \<Longrightarrow> others_ok cl"
  by (simp add: quiet_def others_ok_def)

lemma db_do_quiet:
  "quiet cl \<Longrightarrow> db_do cl f w = (x, w') \<Longrightarrow>
   f (w_db w) = (x, w_db w') \<and> w_sent w' = w_sent w \<and> w_events w' = w_events w"
  by (auto simp: quiet_def db_do_eval Let_def)

lemma rpc_do_frame:
  "rpc_do f w = (x, w') \<Longrightarrow> w_db w' = w_db w \<and> w_sent w' = w_sent w \<and> w_events w' = w_events w"
  by (auto simp: rpc_do_def case_prod_beta Let_def)

lemma now_do_frame:
  "now_do cl w = (x, w') \<Longrightarrow>
   w_db w' = w_db w \<and> w_sent w' = w_sent w \<and> w_events w' = w_events w \<and> (\<exists>t. x = Inr t)"
  by (auto simp: now_do_def rpc_do_def case_prod_beta Let_def)

lemma io_bind_eqE:
  assumes "io_bind m f w = (x, w')"
  obtains e where "m w = (Inl e, w')" "x = Inl e"
  | y w1 where "m w = (Inr y, w1)" "f y w1 = (x, w')"
  using assms by (auto simp: io_bind_def split: prod.splits sum.splits)

lemma st_update_quiet:
  assumes "quiet cl" and "st_update cl r w = (x, w')"
  shows "(\<exists>now. so_update (cl_store cl) r now (w_db w) = (x, w_db w')) \<and> w_sent w' = w_sent w \<and>
         w_events w' = w_events w"
proof (rule io_bind_eqE [OF assms(2) [unfolded st_update_def]])
  show ?thesis if "now_do cl w = (Inl e, w')" for e
    using now_do_frame [OF that] by simp
  show ?thesis if "now_do cl w = (Inr y, w1)" "db_do cl (so_update (cl_store cl) r y) w1 = (x, w')" for y w1
    using now_do_frame [OF that(1)] db_do_quiet [OF assms(1) that(2)] by auto
qed

lemma st_reserve_quiet:
  assumes "quiet cl" and "st_reserve cl s r w = (x, w')"
  shows "(\<exists>tok. so_reserve_signer_for_record (cl_store cl) s r tok (w_db w) = (x, w_db w')) \<and>
         w_sent w' = w_sent w \<and> w_events w' = w_events w"
proof (rule io_bind_eqE [OF assms(2) [unfolded st_reserve_def]])
  have u: "w_db w1 = w_db w \<and> w_sent w1 = w_sent w \<and> w_events w1 = w_events w \<and> (\<exists>t. y = Inr t)"
    if "uuid_do cl w = (y, w1)" for y w1
    using that by (auto simp: uuid_do_def rpc_do_def case_prod_beta Let_def)
  show ?thesis if "uuid_do cl w = (Inl e, w')" for e
    using u [OF that] by simp
  show ?thesis if "uuid_do cl w = (Inr y, w1)"
    "db_do cl (so_reserve_signer_for_record (cl_store cl) s r y) w1 = (x, w')" for y w1
    using u [OF that(1)] db_do_quiet [OF assms(1) that(2)] by auto
qed

lemma broadcast_frame:
  "broadcast cl p w = (x, w') \<Longrightarrow>
   w_db w' = w_db w \<and> w_sent w' = w_sent w @ [(p, w_db w)] \<and> w_events w' = w_events w"
  by (auto simp: broadcast_def rpc_do_def case_prod_beta Let_def)

lemma apply_action_pending:
  "apply_action a tx s r = Inr r' \<Longrightarrow> r_pending r' = r_pending r \<and> r_id r' = r_id r"
  by (cases a) (auto simp: result_simps split: if_splits)

lemma apply_tx_pending: "apply_tx r tx s = Inr r' \<Longrightarrow> r_pending r' = None \<and> r_id r' = r_id r"
  by (auto simp: apply_tx_def result_simps dest!: apply_action_pending)

section \<open>Specification of the outcomes\<close>

text \<open>The transaction was handed to the network once, with its journal entry stored; then either
  that entry stays, or the receipt replaces it and the reservation is released.\<close>

definition sent_journaled ::
    "('d \<Rightarrow> string \<Rightarrow> payment_record option) \<Rightarrow> ('d \<Rightarrow> (string \<times> string \<times> string) set) \<Rightarrow>
     payment_record \<Rightarrow> action \<Rightarrow> chain_call \<Rightarrow> ('c, 'd) world \<Rightarrow> bool res \<Rightarrow> ('c, 'd) world \<Rightarrow> bool" where
  "sent_journaled content held r a call w res w' \<longleftrightarrow>
     (\<exists>p t r1 d. w_sent w' = w_sent w @ [(p, d)] \<and>
       content d = (content (w_db w))(r_id r \<mapsto> r1) \<and> r_pending r1 = Some (journal_entry a t p call) \<and>
       (pp_signer p, r_id r, t) \<in> held d \<and>
       ((\<exists>e. res = Inl e \<and> w_db w' = d) \<or>
        (\<exists>r2. res = Inr True \<and> content (w_db w') = (content d)(r_id r \<mapsto> r2) \<and> r_pending r2 = None \<and>
              held (w_db w') = held d - {(pp_signer p, r_id r, t)})))"

definition nothing_sent ::
    "('d \<Rightarrow> string \<Rightarrow> payment_record option) \<Rightarrow> ('c, 'd) world \<Rightarrow> bool res \<Rightarrow> ('c, 'd) world \<Rightarrow> bool" where
  "nothing_sent content w res w' \<longleftrightarrow>
     (\<exists>e. res = Inl e) \<and> w_sent w' = w_sent w \<and> content (w_db w') = content (w_db w)"

text \<open>What reconciliation writes for each verdict about the journaled transaction: nothing while it
  may still be included, the record without the entry when it is dead, a failed attempt when it
  was included and failed, the receipt when it succeeded, and a quarantined record when its
  events do not fit.\<close>

fun resolution :: "payment_record \<Rightarrow> pending_tx \<Rightarrow> u32 \<Rightarrow> u64 \<Rightarrow> pending_outcome \<Rightarrow> payment_record option" where
  "resolution r p m now Wait = None"
| "resolution r p m now Dead = Some (r\<lparr>r_pending := None\<rparr>)"
| "resolution r p m now (Included b s) = Some (
     if es_failed s
     then record_failure ''journaled transaction failed on finalized chain'' m now (r\<lparr>r_pending := None\<rparr>)
     else case apply_tx r (pending_tx_ref p b) s of
       Inr r' \<Rightarrow> r'
     | Inl e \<Rightarrow> record_failure (''finalized receipt mismatch: '' @ error_display e) 1 now
           (r\<lparr>r_pending := None, r_quarantined := Some p, r_txs := r_txs r @ [pending_tx_ref p b]\<rparr>))"

lemma record_failure_frame [simp]:
  "r_pending (record_failure err m now r) = r_pending r"
  "r_id (record_failure err m now r) = r_id r"
  "r_quarantined (record_failure err m now r) = r_quarantined r"
  by (simp_all add: record_failure_def Let_def)

lemma resolution_frame: "resolution r p m now x = Some r' \<Longrightarrow> r_pending r' = None \<and> r_id r' = r_id r"
  by (cases x) (auto dest: apply_tx_pending split: sum.splits)

text \<open>What follows the preparation.\<close>

definition send_prepared ::
    "('c, 'd, 'k) client \<Rightarrow> payment_record \<Rightarrow> action \<Rightarrow> chain_call \<Rightarrow> string \<Rightarrow> string \<Rightarrow> prepared_tx res \<Rightarrow> ('c, 'd, bool) act" where
  "send_prepared cl r a call s t x =
     (case x of
        Inl e \<Rightarrow> io_bind (st_cancel cl s (r_id r) t) (\<lambda>_. io_fail e)
      | Inr p \<Rightarrow>
          if pp_signer p \<noteq> s
          then io_bind (st_cancel cl s (r_id r) t) (\<lambda>_. io_fail (ErrStore ''prepared signer mismatch''))
          else io_bind (st_update cl (r\<lparr>r_pending := Some (journal_entry a t p call)\<rparr>)) (\<lambda>r.
            io_bind (broadcast cl p) (\<lambda>finalized.
            io_bind (io_lift (apply_tx r (ft_tx finalized) (ft_summary finalized))) (\<lambda>applied.
            io_bind (st_update cl applied) (\<lambda>_. io_ret True)))))"

lemma send_journaled_stages:
  "send_journaled cl r a call signer =
     (if r_pending r \<noteq> None then io_fail (ErrStore ''reconcile pending transaction before preparing another'')
      else let s = ss58 (cl_crypto cl) (cr_account_id (cl_crypto cl) signer) in
        io_bind (st_reserve cl s r) (\<lambda>t.
        io_bind (io_attempt (rpc_do (rp_prepare (cl_rpc cl) call signer))) (send_prepared cl r a call s t)))"
  unfolding send_journaled_def send_prepared_def Let_def by (rule refl)

context signing_store
begin

lemma st_update_quiet_ok:
  assumes "cl_store cl = ops" and "quiet cl" and "inv (w_db w)" and "st_update cl r w = (Inr r', w')"
  shows "inv (w_db w') \<and> (\<exists>now. r' = next_version now r) \<and> w_sent w' = w_sent w \<and>
         content (w_db w') = (content (w_db w))(r_id r \<mapsto> r') \<and>
         (\<exists>c. content (w_db w) (r_id r) = Some c \<and> r_version c = r_version r \<and> same_policy c r \<and>
            (if r_pending c \<noteq> None \<and> r_pending r = None
             then (\<exists>s t. journal_claim c = Some (s, t) \<and> held (w_db w') = held (w_db w) - {(s, r_id r, t)})
             else held (w_db w') = held (w_db w)))"
proof -
  obtain now where u: "so_update ops r now (w_db w) = (Inr r', w_db w')" and s: "w_sent w' = w_sent w"
    using st_update_quiet [OF assms(2,4)] assms(1) by auto
  show ?thesis
    using update_ok [OF assms(3) u] update_held [OF assms(3) u] update_inv [OF assms(3) u] s by auto
qed

lemma st_update_quiet_fail:
  assumes "cl_store cl = ops" and "quiet cl" and "inv (w_db w)" and "st_update cl r w = (Inl e, w')"
  shows "w_db w' = w_db w \<and> w_sent w' = w_sent w"
  using st_update_quiet [OF assms(2,4)] assms(1) update_fail [OF assms(3)] by auto

lemma st_reserve_quiet_frame:
  assumes "cl_store cl = ops" and "quiet cl" and "inv (w_db w)" and "st_reserve cl s r w = (x, w')"
  shows "inv (w_db w') \<and> content (w_db w') = content (w_db w) \<and> w_sent w' = w_sent w"
proof -
  obtain tok where "so_reserve_signer_for_record ops s r tok (w_db w) = (x, w_db w')" "w_sent w' = w_sent w"
    using st_reserve_quiet [OF assms(2,4)] assms(1) by auto
  then show ?thesis using reserve_content [OF assms(3)] by blast
qed

lemma st_cancel_quiet_frame:
  assumes "cl_store cl = ops" and "quiet cl" and "inv (w_db w)" and "st_cancel cl s j t w = (x, w')"
  shows "content (w_db w') = content (w_db w) \<and> w_sent w' = w_sent w"
  using db_do_quiet [OF assms(2) assms(4) [unfolded st_cancel_def]] cancel_content [OF assms(3)] assms(1)
  by auto

lemma broadcast_outcome:
  assumes cl: "cl_store cl = ops" and q: "quiet cl" and inv: "inv (w_db w)"
    and r1: "content (w_db w) (r_id r1) = Some r1" "r_pending r1 = Some (journal_entry a t p call)"
    and m: "io_bind (broadcast cl p) (\<lambda>f.
              io_bind (io_lift (apply_tx r1 (ft_tx f) (ft_summary f))) (\<lambda>applied.
              io_bind (st_update cl applied) (\<lambda>_. io_ret True))) w = (res, w')"
  shows "w_sent w' = w_sent w @ [(p, w_db w)] \<and>
    ((\<exists>e. res = Inl e \<and> w_db w' = w_db w) \<or>
     (\<exists>r2. res = Inr True \<and> content (w_db w') = (content (w_db w))(r_id r1 \<mapsto> r2) \<and> r_pending r2 = None \<and>
           held (w_db w') = held (w_db w) - {(pp_signer p, r_id r1, t)}))"
  using m
proof (elim io_bind_eqE)
  fix e assume "broadcast cl p w = (Inl e, w')" "res = Inl e"
  then show ?thesis using broadcast_frame [of cl p w] by auto
next
  fix f w1 e assume "broadcast cl p w = (Inr f, w1)" "res = Inl e"
    "io_lift (apply_tx r1 (ft_tx f) (ft_summary f)) w1 = (Inl e, w')"
  then show ?thesis using broadcast_frame [of cl p w] by (auto simp: io_simps)
next
  fix f w1 applied w2 e
  assume b: "broadcast cl p w = (Inr f, w1)" and "res = Inl e"
    and a: "io_lift (apply_tx r1 (ft_tx f) (ft_summary f)) w1 = (Inr applied, w2)"
    and u: "st_update cl applied w2 = (Inl e, w')"
  then show ?thesis
    using broadcast_frame [OF b] st_update_quiet_fail [OF cl q _ u] inv by (auto simp: io_simps)
next
  fix f w1 applied w2 r2 w3
  assume b: "broadcast cl p w = (Inr f, w1)"
    and a: "io_lift (apply_tx r1 (ft_tx f) (ft_summary f)) w1 = (Inr applied, w2)"
    and u: "st_update cl applied w2 = (Inr r2, w3)" and res: "io_ret True w3 = (res, w')"
  have w2: "w_db w2 = w_db w" "w_sent w2 = w_sent w @ [(p, w_db w)]"
    using broadcast_frame [OF b] a by (auto simp: io_simps)
  have ap: "r_pending applied = None" "r_id applied = r_id r1"
    using a apply_tx_pending by (auto simp: io_simps)
  have i2: "inv (w_db w2)" using inv w2 by simp
  note up = st_update_quiet_ok [OF cl q i2 u]
  have "journal_claim r1 = Some (pp_signer p, t)"
    using r1(2) by (simp add: journal_claim_def journal_entry_def)
  then have "held (w_db w3) = held (w_db w) - {(pp_signer p, r_id r1, t)}"
    using up r1 ap w2 by auto
  then show ?thesis using up ap w2 res by (auto simp: io_simps)
qed

lemma journal_outcome:
  assumes cl: "cl_store cl = ops" and q: "quiet cl" and inv: "inv (w_db w)"
    and m: "io_bind (st_update cl (r\<lparr>r_pending := Some (journal_entry a t p call)\<rparr>)) (\<lambda>r.
            io_bind (broadcast cl p) (\<lambda>f.
            io_bind (io_lift (apply_tx r (ft_tx f) (ft_summary f))) (\<lambda>applied.
            io_bind (st_update cl applied) (\<lambda>_. io_ret True)))) w = (res, w')"
  shows "nothing_sent content w res w' \<or> sent_journaled content held r a call w res w'"
proof (rule io_bind_eqE [OF m])
  fix e assume "st_update cl (r\<lparr>r_pending := Some (journal_entry a t p call)\<rparr>) w = (Inl e, w')" "res = Inl e"
  then show ?thesis
    using st_update_quiet_fail [OF cl q inv] by (auto simp: nothing_sent_def)
next
  let ?r = "r\<lparr>r_pending := Some (journal_entry a t p call)\<rparr>"
  fix r1 w1
  assume u: "st_update cl ?r w = (Inr r1, w1)"
    and rest: "io_bind (broadcast cl p) (\<lambda>f.
            io_bind (io_lift (apply_tx r1 (ft_tx f) (ft_summary f))) (\<lambda>applied.
            io_bind (st_update cl applied) (\<lambda>_. io_ret True))) w1 = (res, w')"
  note up = st_update_quiet_ok [OF cl q inv u]
  have i1: "inv (w_db w1)" and r1: "r_id r1 = r_id r" "r_pending r1 = Some (journal_entry a t p call)"
    and c1: "content (w_db w1) = (content (w_db w))(r_id r \<mapsto> r1)" and s1: "w_sent w1 = w_sent w"
    using up by auto
  have "journal_claim r1 = Some (pp_signer p, t)" using r1(2) by (simp add: journal_claim_def journal_entry_def)
  then have h: "(pp_signer p, r_id r, t) \<in> held (w_db w1)" using held_claims [OF i1] c1 by simp
  have "sent_journaled content held r a call w res w'"
    unfolding sent_journaled_def
    using broadcast_outcome [OF cl q i1 _ r1(2) rest] c1 r1 s1 h
    by (intro exI [of _ p] exI [of _ t] exI [of _ r1] exI [of _ "w_db w1"]) auto
  then show ?thesis ..
qed

text \<open>Where a send can stop.  Before the broadcast nothing is stored (at most a reservation is left
  behind, which fences the signer); after it the journal entry is stored, until the receipt is
  stored in its place and the reservation released.\<close>

lemma cancel_outcome:
  assumes "cl_store cl = ops" and "quiet cl" and "inv (w_db w)"
    and "io_bind (st_cancel cl s j t) (\<lambda>_. io_fail e) w = (res, w')"
  shows "nothing_sent content w res w'"
  using assms(4) st_cancel_quiet_frame [OF assms(1-3)]
  by (elim io_bind_eqE) (fastforce simp: nothing_sent_def io_simps)+

lemma prepared_outcome:
  assumes "cl_store cl = ops" and "quiet cl" and "inv (w_db w)" and "send_prepared cl r a call s t x w = (res, w')"
  shows "nothing_sent content w res w' \<or> sent_journaled content held r a call w res w'"
  using assms(4) journal_outcome [OF assms(1-3)] cancel_outcome [OF assms(1-3)]
  by (auto simp: send_prepared_def split: sum.splits if_splits)

lemma send_outcome:
  assumes cl: "cl_store cl = ops" and q: "quiet cl" and inv: "inv (w_db w)"
    and send: "send_journaled cl r a call signer w = (res, w')"
  shows "nothing_sent content w res w' \<or> r_pending r = None \<and> sent_journaled content held r a call w res w'"
proof (cases "r_pending r")
  case (Some p)
  then show ?thesis using send by (auto simp: send_journaled_stages io_simps nothing_sent_def)
next
  case None
  let ?s = "ss58 (cl_crypto cl) (cr_account_id (cl_crypto cl) signer)"
  have "io_bind (st_reserve cl ?s r) (\<lambda>t.
      io_bind (io_attempt (rpc_do (rp_prepare (cl_rpc cl) call signer))) (send_prepared cl r a call ?s t)) w = (res, w')"
    using send None by (simp add: send_journaled_stages Let_def)
  then show ?thesis
  proof (rule io_bind_eqE)
    fix e assume "st_reserve cl ?s r w = (Inl e, w')" "res = Inl e"
    then show ?thesis using st_reserve_quiet_frame [OF cl q inv] by (auto simp: nothing_sent_def)
  next
    fix t w1
    assume v: "st_reserve cl ?s r w = (Inr t, w1)"
      and rest: "io_bind (io_attempt (rpc_do (rp_prepare (cl_rpc cl) call signer))) (send_prepared cl r a call ?s t) w1 = (res, w')"
    obtain x w2 where x: "send_prepared cl r a call ?s t x w2 = (res, w')" "w_db w2 = w_db w1" "w_sent w2 = w_sent w1"
      using rest by (auto simp: io_simps rpc_do_def case_prod_beta Let_def)
    then have w2: "inv (w_db w2)" "content (w_db w2) = content (w_db w)" "w_sent w2 = w_sent w"
      using st_reserve_quiet_frame [OF cl q inv v] by auto
    then show ?thesis
      using None prepared_outcome [OF cl q w2(1) x(1)] by (auto simp: nothing_sent_def sent_journaled_def)
  qed
qed

lemma included_record_resolution:
  assumes "included_record cl r p m b s w = (x, w')"
  shows "w_db w' = w_db w \<and> w_sent w' = w_sent w \<and>
         (\<exists>now r'. x = Inr r' \<and> resolution r p m now (Included b s) = Some r')"
  using assms
  by (auto simp: included_record_def Let_def io_simps now_do_def rpc_do_def io_bind_def case_prod_beta
      split: if_splits sum.splits)

text \<open>Reconciliation sends nothing, and leaves everything as it is or replaces the entry by its
  resolution and releases the reservation.\<close>

lemma resolution_stored:
  assumes cl: "cl_store cl = ops" and q: "quiet cl" and inv: "inv (w_db w)"
    and cur: "content (w_db w) (r_id r) = Some r" and p: "r_pending r = Some p" and r0: "resolution r p m now x = Some r0"
    and u: "io_bind (st_update cl r0) (\<lambda>r. io_ret (True, r)) w = (res, w')"
  shows "w_sent w' = w_sent w \<and>
    ((\<exists>e. res = Inl e) \<and> w_db w' = w_db w \<or>
     (\<exists>now' r' t. r' = next_version now' r0 \<and> res = Inr (True, r') \<and>
        content (w_db w') = (content (w_db w))(r_id r \<mapsto> r') \<and> pd_reservation p = Some t \<and>
        held (w_db w') = held (w_db w) - {(pd_signer p, r_id r, t)}))"
proof (rule io_bind_eqE [OF u])
  show ?thesis if "st_update cl r0 w = (Inl e, w')" "res = Inl e" for e
    using st_update_quiet_fail [OF cl q inv that(1)] that(2) by simp
  show ?thesis if u: "st_update cl r0 w = (Inr r', w2)" and ret: "io_ret (True, r') w2 = (res, w')" for r' w2
  proof -
    have f: "r_pending r0 = None" "r_id r0 = r_id r" using resolution_frame [OF r0] by auto
    note up = st_update_quiet_ok [OF cl q inv u]
    obtain s t where h: "journal_claim r = Some (s, t)" "held (w_db w2) = held (w_db w) - {(s, r_id r, t)}"
      using up cur p f by auto
    then have "s = pd_signer p" "pd_reservation p = Some t" using p by (auto simp: journal_claim_def)
    then show ?thesis using up h f ret by (auto simp: io_simps)
  qed
qed

text \<open>What is written once the outcome is known: nothing while the transaction may still be included.\<close>

lemma reconcile_journaled_stages:
  assumes "r_pending r = Some p" and "reconcile_journaled cl r p m w = (res, w')"
  obtains (failed) e where "res = Inl e" and "w_db w' = w_db w" and "w_sent w' = w_sent w"
  | (undecided) "fst (rp_find_pending (cl_rpc cl) p (w_env w)) = Inr Wait" and "res = Inr (False, r)"
      and "w_db w' = w_db w" and "w_sent w' = w_sent w"
  | (stored) x now r0 w1 where "fst (rp_find_pending (cl_rpc cl) p (w_env w)) = Inr x" and "resolution r p m now x = Some r0"
      and "w_db w1 = w_db w" and "w_sent w1 = w_sent w" and "io_bind (st_update cl r0) (\<lambda>r. io_ret (True, r)) w1 = (res, w')"
proof -
  obtain y w1 where f: "rpc_do (rp_find_pending (cl_rpc cl) p) w = (y, w1)" by force
  have w1: "w_db w1 = w_db w" "w_sent w1 = w_sent w" using rpc_do_frame [OF f] by auto
  have y: "y = fst (rp_find_pending (cl_rpc cl) p (w_env w))" using f by (auto simp: rpc_do_def case_prod_beta Let_def)
  show thesis
  proof (cases y)
    case (Inl e)
    then show thesis using assms f w1 failed by (auto simp: reconcile_journaled_def io_simps)
  next
    case (Inr x)
    have run: "(case x of Wait \<Rightarrow> io_ret (False, r)
        | Dead \<Rightarrow> io_bind (st_update cl (r\<lparr>r_pending := None\<rparr>)) (\<lambda>r. io_ret (True, r))
        | Included b s \<Rightarrow> io_bind (included_record cl r p m b s) (\<lambda>q. io_bind (st_update cl q) (\<lambda>r. io_ret (True, r)))) w1 = (res, w')"
      using assms f Inr by (simp add: reconcile_journaled_def io_bind_eval)
    show thesis
    proof (cases x)
      case (Included b s)
      obtain z w2 where z: "included_record cl r p m b s w1 = (z, w2)" by force
      obtain now r0 where r0: "z = Inr r0" "resolution r p m now x = Some r0" and w2: "w_db w2 = w_db w" "w_sent w2 = w_sent w"
        using included_record_resolution [OF z] w1 Included by auto
      have "io_bind (st_update cl r0) (\<lambda>r. io_ret (True, r)) w2 = (res, w')"
        using run Included z r0(1) by (simp add: io_bind_eval)
      then show thesis using stored [OF _ r0(2) w2] y Inr by simp
    qed (use run y Inr w1 undecided stored [of x 0 _ w1] in \<open>auto simp: io_simps\<close>)
  qed
qed

lemma reconcile_outcome:
  assumes cl: "cl_store cl = ops" and q: "quiet cl" and inv: "inv (w_db w)"
    and cur: "content (w_db w) (r_id r) = Some r" and p: "r_pending r = Some p"
    and m: "reconcile_journaled cl r p m w = (res, w')"
  shows "w_sent w' = w_sent w \<and>
    ((\<exists>e. res = Inl e) \<and> w_db w' = w_db w \<or>
     res = Inr (False, r) \<and> w_db w' = w_db w \<and> fst (rp_find_pending (cl_rpc cl) p (w_env w)) = Inr Wait \<or>
     (\<exists>x now now' r0 r' t. fst (rp_find_pending (cl_rpc cl) p (w_env w)) = Inr x \<and>
        resolution r p m now x = Some r0 \<and> r' = next_version now' r0 \<and> res = Inr (True, r') \<and>
        content (w_db w') = (content (w_db w))(r_id r \<mapsto> r') \<and> pd_reservation p = Some t \<and>
        held (w_db w') = held (w_db w) - {(pd_signer p, r_id r, t)}))"
  using p m
proof (cases rule: reconcile_journaled_stages)
  case (stored x now r0 w1)
  then show ?thesis
    using resolution_stored [OF cl q _ _ p stored(2,5)] inv cur by fastforce
qed auto

end

section \<open>Properties\<close>


text \<open>C8: reconciling the stored journal entry of a record hands nothing to the network.  It either
  changes nothing (an error, or the chain says to wait), or it stores exactly the resolution of
  the entry for the verdict of the chain, with the next version, and releases the reservation
  that the entry carries.\<close>

theorem reconcile_journaled_outcome:
  assumes "cl_store cl = sqlite_ops cr" and "quiet cl" and "sqlite_inv (w_db w)"
    and "db_content (w_db w) (r_id r) = Some r" and "r_pending r = Some p"
    and "reconcile_journaled cl r p m w = (res, w')"
  shows "w_sent w' = w_sent w \<and>
    ((\<exists>e. res = Inl e) \<and> w_db w' = w_db w \<or>
     res = Inr (False, r) \<and> w_db w' = w_db w \<and> fst (rp_find_pending (cl_rpc cl) p (w_env w)) = Inr Wait \<or>
     (\<exists>x now now' r0 r' t. fst (rp_find_pending (cl_rpc cl) p (w_env w)) = Inr x \<and>
        resolution r p m now x = Some r0 \<and> r' = next_version now' r0 \<and> res = Inr (True, r') \<and>
        db_content (w_db w') = (db_content (w_db w))(r_id r \<mapsto> r') \<and> pd_reservation p = Some t \<and>
        db_held (w_db w') = db_held (w_db w) - {(pd_signer p, r_id r, t)}))"
  using assms by (rule sq.reconcile_outcome)

section \<open>Witnesses\<close>

text \<open>A transport that prepares every call, loses its broadcasts, and whose verdict on a journaled
  transaction is given.\<close>

definition demo_rpc :: "pending_outcome \<Rightarrow> (nat, account_id) rpc" where
  "demo_rpc verdict =
     \<lparr>rp_others = (\<lambda>c. ([], c)), rp_now = (\<lambda>c. (of_nat (100 + c), c + 1)),
      rp_uuid = (\<lambda>c. (''tok'', c)), rp_random = (\<lambda>n c. (replicate n 7, c)),
      rp_prepare = (\<lambda>call k c. (Inr \<lparr>pp_call = call, pp_signer = text_of k, pp_nonce = 0,
         pp_tx_hash = ''0x1'', pp_birth_block = 10, pp_bytes = []\<rparr>, c)),
      rp_broadcast = (\<lambda>p c. (Inl (ErrChain ''timeout''), c)),
      rp_find_pending = (\<lambda>p c. (Inr verdict, c)), rp_genesis_hash = ''0xg'',
      rp_free_balance = (\<lambda>a c. (Inr 0, c)), rp_account = (\<lambda>a c. (Inr (0, 0), c)),
      rp_alpha_on = (\<lambda>a n c. (Inr (0, []), c)), rp_alpha_of = (\<lambda>h k n c. (Inr 0, c)),
      rp_estimate_fee = (\<lambda>call k c. (Inr 0, c)), rp_existential_deposit = (\<lambda>c. (Inr 500, c)),
      rp_alpha_price = (\<lambda>n c. (Inr 1000000000, c)), rp_hotkey_owner = (\<lambda>h c. (Inr None, c)),
      rp_stake_positions_many = (\<lambda>ks c. (Inr [], c)), rp_webhook_post = (\<lambda>u s c. (Inr (), c))\<rparr>"

definition demo_client :: "pending_outcome \<Rightarrow> (nat, sqlite_db, account_id) client" where
  "demo_client verdict =
     \<lparr>cl_rpc = demo_rpc verdict, cl_store = sqlite_ops plain_crypto, cl_crypto = plain_crypto\<rparr>"

definition demo_world :: "sqlite_db \<Rightarrow> (nat, sqlite_db) world" where
  "demo_world d = \<lparr>w_env = 0, w_db = d, w_events = [], w_sent = []\<rparr>"

lemma demo_client_simps [simp]:
  "cl_store (demo_client v) = sqlite_ops plain_crypto" "cl_rpc (demo_client v) = demo_rpc v"
  "cl_crypto (demo_client v) = plain_crypto" "quiet (demo_client v)"
  by (simp_all add: demo_client_def quiet_def demo_rpc_def)

lemma demo_world_simps [simp]:
  "w_env (demo_world d) = 0" "w_db (demo_world d) = d" "w_sent (demo_world d) = []"
  by (simp_all add: demo_world_def)

lemmas call_defs = rpc_do_def now_do_def uuid_do_def random_do_def db_do_def st_get_def st_list_def
  st_require_signing_def st_insert_def st_update_def st_reserve_def st_cancel_def broadcast_def

definition fresh_db :: sqlite_db where
  "fresh_db = snd (sqlite_insert (test_record ''a'') empty_db)"

lemma fresh_db_inv: "sqlite_inv fresh_db"
  unfolding fresh_db_def by (intro insert_inv_sqlite empty_db_inv) simp


theorem reconcile_journaled_outcome_witness:
  "let r = next_version 5 ((test_record ''a'')\<lparr>r_pending := Some demo_pending\<rparr>);
       w = demo_world (demo_db r); m = reconcile_journaled (demo_client Dead) r demo_pending 8
   in fst (m w) = Inr (True, next_version 100 (r\<lparr>r_pending := None\<rparr>)) \<and> w_sent (snd (m w)) = w_sent w"
proof -
  let ?r = "next_version 5 ((test_record ''a'')\<lparr>r_pending := Some demo_pending\<rparr>)"
  let ?w = "demo_world (demo_db ?r)" and ?m = "reconcile_journaled (demo_client Dead) ?r demo_pending 8"
  have inv: "sqlite_inv (w_db ?w)" by (simp add: demo_inv)
  have c: "db_content (w_db ?w) (r_id ?r) = Some ?r" by (simp add: demo_content)
  have "w_sent (snd (?m ?w)) = w_sent ?w"
    using reconcile_journaled_outcome [of "demo_client Dead" plain_crypto ?w ?r demo_pending 8
        "fst (?m ?w)" "snd (?m ?w)"] inv c by simp
  moreover have "fst (?m ?w) = Inr (True, next_version 100 (?r\<lparr>r_pending := None\<rparr>))"
    by (simp add: reconcile_journaled_def io_simps call_defs demo_rpc_def sqlite_defs demo_defs
        checked_add_def Let_def)
  ultimately show ?thesis by (simp add: Let_def)
qed

end
