(* ===== verification/File_Store.thy ===== *)
theory File_Store
  imports Store_Spec
begin

text \<open>
  \<open>FileStore\<close> of \<open>src/src/store.rs\<close>: one JSON file per payment in a directory.  The directory is
  an association list from file names to contents, in the order \<open>read_dir\<close> yields; a content is
  a record, or \<open>None\<close> when it does not parse.  A write goes through a temporary file and a
  rename; \<open>write_trace\<close> lists the directory after each of its system calls, which is what a
  crash can leave behind.  Operating system failures (permissions, a full disk) are not in this
  model.  A poisoned mutex needs a panic while it is held, which no modelled path has.
\<close>

type_synonym dir = "(string \<times> payment_record option) list"

definition file_name :: "string \<Rightarrow> string" where
  "file_name i = i @ ''.json''"

definition file_path :: "string \<Rightarrow> string res" where
  "file_path i =
     (if i = [] \<or> \<not> list_all (\<lambda>c. is_ascii_alphanumeric c \<or> c = CHR ''-'') i
      then Inl (ErrStore (''invalid id '' @ str_debug i))
      else Inr (file_name i))"

definition file_read :: "string \<Rightarrow> dir \<Rightarrow> payment_record option res" where
  "file_read path d =
     (case map_of d path of
        None \<Rightarrow> Inr None
      | Some None \<Rightarrow> Inl (ErrStore ''invalid JSON'')
      | Some (Some r) \<Rightarrow> Inr (Some r))"

text \<open>Creating or truncating a file, writing it, and renaming it over another one.\<close>

definition dir_set :: "string \<Rightarrow> payment_record option \<Rightarrow> dir \<Rightarrow> dir" where
  "dir_set name v d =
     (if map_of d name = None then d @ [(name, v)]
      else map (\<lambda>(n, u). if n = name then (n, v) else (n, u)) d)"

definition dir_rename :: "string \<Rightarrow> string \<Rightarrow> dir \<Rightarrow> dir" where
  "dir_rename src dst d =
     (case map_of d src of
        None \<Rightarrow> d
      | Some v \<Rightarrow> dir_set dst v (filter (\<lambda>(n, _). n \<noteq> src) d))"

definition tmp_path :: "string \<Rightarrow> string" where
  "tmp_path path = path @ ''.tmp''"

definition write_trace :: "string \<Rightarrow> payment_record \<Rightarrow> dir \<Rightarrow> dir list" where
  "write_trace path rec d =
     (let created = dir_set (tmp_path path) None d;
          written = dir_set (tmp_path path) (Some rec) created;
          renamed = dir_rename (tmp_path path) path written
      in [d, created, written, renamed])"

definition file_write :: "string \<Rightarrow> payment_record \<Rightarrow> dir \<Rightarrow> dir" where
  "file_write path rec d = last (write_trace path rec d)"

definition is_json :: "string \<Rightarrow> bool" where
  "is_json name \<longleftrightarrow> 5 < length name \<and> drop (length name - 5) name = ''.json''"

definition file_migrate_legacy_policy ::
    "'k crypto \<Rightarrow> string \<Rightarrow> u64 \<Rightarrow> buyback_budget option \<Rightarrow> u64 \<Rightarrow> dir \<Rightarrow> payment_record res \<times> dir" where
  "file_migrate_legacy_policy cr i version budget now d =
     (case and_then (file_path i) (\<lambda>path.
           and_then (file_read path d) (\<lambda>previous.
           and_then (ok_or (NotFound i) previous) (\<lambda>previous.
           and_then (migrated_policy cr previous version budget now) (\<lambda>rec'.
           Inr (path, rec'))))) of
        Inl e \<Rightarrow> (Inl e, d)
      | Inr (path, rec') \<Rightarrow> (Inr rec', file_write path rec' d))"

definition file_insert :: "payment_record \<Rightarrow> dir \<Rightarrow> unit res \<times> dir" where
  "file_insert rec d =
     (case file_path (r_id rec) of
        Inl e \<Rightarrow> (Inl e, d)
      | Inr p \<Rightarrow>
          if map_of d p \<noteq> None then (Inl (ErrStore (r_id rec @ '' exists'')), d)
          else (Inr (), file_write p rec d))"

definition file_get :: "string \<Rightarrow> dir \<Rightarrow> payment_record option res" where
  "file_get i d = and_then (file_path i) (\<lambda>p. file_read p d)"

fun file_collect :: "payment_state list \<Rightarrow> dir \<Rightarrow> payment_record list res" where
  "file_collect states [] = Inr []"
| "file_collect states ((name, v) # rest) =
     (if is_json name
      then (case v of
              None \<Rightarrow> Inl (ErrStore ''invalid JSON'')
            | Some r \<Rightarrow>
                and_then (file_collect states rest) (\<lambda>out.
                Inr (if r_state r \<in> set states then r # out else out)))
      else file_collect states rest)"

definition file_list :: "payment_state list \<Rightarrow> dir \<Rightarrow> payment_record list res" where
  "file_list states d =
     and_then (file_collect states d) (\<lambda>out. Inr (sort_key (\<lambda>r. unat (r_created_at r)) out))"

definition file_update :: "payment_record \<Rightarrow> u64 \<Rightarrow> dir \<Rightarrow> payment_record res \<times> dir" where
  "file_update rec now d =
     (case and_then (file_path (r_id rec)) (\<lambda>p.
           and_then (file_read p d) (\<lambda>cur.
           and_then (ok_or (NotFound (r_id rec)) cur) (\<lambda>cur.
           if r_buyback_budget cur \<noteq> r_buyback_budget rec \<or> r_auto_required cur \<noteq> r_auto_required rec \<or>
              r_identity cur \<noteq> r_identity rec
           then Inl (ErrStore ''immutable job budget'')
           else if r_version cur \<noteq> r_version rec then Inl (Conflict (r_id rec))
           else Inr (p, rec\<lparr>r_version := r_version rec + 1, r_updated_at := now\<rparr>)))) of
        Inl e \<Rightarrow> (Inl e, d)
      | Inr (p, rec') \<Rightarrow> (Inr rec', file_write p rec' d))"

definition file_ops :: "'k crypto \<Rightarrow> dir store_ops" where
  "file_ops cr =
     \<lparr>so_require_signing = default_require_signing,
      so_reserve_signer_for_record = default_reserve_signer_for_record,
      so_reserve_signer = default_reserve_signer,
      so_cancel_preparation = default_cancel_preparation,
      so_migrate_legacy_policy = file_migrate_legacy_policy cr,
      so_insert = file_insert, so_get = file_get, so_list = file_list, so_update = file_update\<rparr>"


lemma file_ops_simps [simp]:
  "so_require_signing (file_ops cr) = default_require_signing"
  "so_reserve_signer_for_record (file_ops cr) = default_reserve_signer_for_record"
  "so_reserve_signer (file_ops cr) = default_reserve_signer"
  "so_cancel_preparation (file_ops cr) = default_cancel_preparation"
  "so_migrate_legacy_policy (file_ops cr) = file_migrate_legacy_policy cr"
  "so_insert (file_ops cr) = file_insert" "so_get (file_ops cr) = file_get"
  "so_list (file_ops cr) = file_list" "so_update (file_ops cr) = file_update"
  by (simp_all add: file_ops_def)

section \<open>Invariant and abstraction\<close>

definition file_inv :: "dir \<Rightarrow> bool" where
  "file_inv d \<longleftrightarrow> distinct (map fst d) \<and>
     (\<forall>n r. map_of d n = Some (Some r) \<longrightarrow> is_json n \<longrightarrow> file_path (r_id r) = Inr n)"

definition file_content :: "dir \<Rightarrow> string \<Rightarrow> payment_record option" where
  "file_content d i =
     (case file_path i of Inl _ \<Rightarrow> None
      | Inr p \<Rightarrow> (case map_of d p of Some (Some r) \<Rightarrow> Some r | _ \<Rightarrow> None))"

section \<open>Directories\<close>

lemma map_of_dir_set: "map_of (dir_set n v d) = (map_of d)(n \<mapsto> v)"
proof (cases "map_of d n = None")
  case True
  then show ?thesis
    by (auto simp: dir_set_def map_add_def fun_eq_iff split: option.splits)
next
  case False
  have "map_of (map (\<lambda>(m, u). if m = n then (m, v) else (m, u)) d) x =
      (if x = n \<and> map_of d n \<noteq> None then Some v else map_of d x)" for x
    by (induction d) auto
  then show ?thesis using False by (auto simp: dir_set_def fun_eq_iff)
qed

lemma map_of_dir_remove: "map_of (filter (\<lambda>(m, _). m \<noteq> n) d) = (map_of d)(n := None)"
  by (induction d) (auto simp: fun_eq_iff)

lemma map_of_dir_rename:
  "map_of d src = Some v \<Longrightarrow> map_of (dir_rename src dst d) = (map_of d)(src := None, dst \<mapsto> v)"
  by (simp add: dir_rename_def map_of_dir_set map_of_dir_remove)

lemma distinct_dir_set: "distinct (map fst d) \<Longrightarrow> distinct (map fst (dir_set n v d))"
proof -
  have "map fst (map (\<lambda>(m, u). if m = n then (m, v) else (m, u)) d) = map fst d"
    by (induction d) auto
  then show "distinct (map fst d) \<Longrightarrow> ?thesis"
    by (auto simp: dir_set_def map_of_eq_None_iff simp del: map_map)
qed

lemma distinct_dir_remove: "distinct (map fst d) \<Longrightarrow> distinct (map fst (filter P d))"
  by (rule distinct_map_filter)

lemma map_of_file_write: "map_of (file_write p r d) = (map_of d)(tmp_path p := None, p \<mapsto> Some r)"
  by (simp add: file_write_def write_trace_def Let_def map_of_dir_rename map_of_dir_set)

lemma distinct_file_write: "distinct (map fst d) \<Longrightarrow> distinct (map fst (file_write p r d))"
  by (auto simp: file_write_def write_trace_def Let_def dir_rename_def
      intro!: distinct_dir_set distinct_dir_remove split: option.splits)

lemma file_path_Inr: "file_path i = Inr p \<Longrightarrow> p = file_name i \<and> i \<noteq> []"
  by (auto simp: file_path_def split: if_splits)

lemma file_path_inj: "file_path i = Inr p \<Longrightarrow> file_path j = Inr p \<Longrightarrow> i = j"
  by (auto simp: file_name_def dest!: file_path_Inr)

lemma is_json_path: "file_path i = Inr p \<Longrightarrow> is_json p"
  by (auto simp: is_json_def file_name_def dest!: file_path_Inr)

lemma not_json_tmp: "\<not> is_json (tmp_path p)"
proof
  assume "is_json (tmp_path p)"
  then have "last (drop (length (tmp_path p) - 5) (tmp_path p)) = CHR ''n''" by (simp add: is_json_def)
  then show False by (simp add: tmp_path_def last_drop del: drop_append)
qed

lemma path_not_tmp: "file_path i = Inr p \<Longrightarrow> p \<noteq> tmp_path q"
  using is_json_path not_json_tmp by blast

lemma file_write_inv:
  assumes "file_inv d" and "file_path (r_id r) = Inr p"
  shows "file_inv (file_write p r d)"
  using assms distinct_file_write
  by (auto simp: file_inv_def map_of_file_write split: if_splits)

lemma file_write_content:
  assumes "file_path (r_id r) = Inr p"
  shows "file_content (file_write p r d) = (file_content d)(r_id r \<mapsto> r)"
  using assms path_not_tmp file_path_inj
  by (fastforce simp: fun_eq_iff file_content_def map_of_file_write split: sum.splits)

lemma file_get_content: "file_get i d = Inr x \<Longrightarrow> x = file_content d i"
  by (auto simp: file_get_def file_read_def file_content_def result_simps split: option.splits)

lemma file_collect_mem:
  "file_collect states d = Inr rs \<Longrightarrow> r \<in> set rs \<Longrightarrow>
   r_state r \<in> set states \<and> (\<exists>n. is_json n \<and> (n, Some r) \<in> set d)"
proof (induction d arbitrary: rs)
  case (Cons e d)
  then show ?case
    by (cases e) (auto simp: result_simps split: if_splits option.splits, blast+)
qed simp

lemma file_list_mem:
  assumes "file_inv d" and "file_list states d = Inr rs" and "r \<in> set rs"
  shows "file_content d (r_id r) = Some r \<and> r_state r \<in> set states"
proof -
  obtain n where n: "is_json n" "(n, Some r) \<in> set d" "r_state r \<in> set states"
    using assms(2,3) file_collect_mem by (fastforce simp: file_list_def result_simps)
  have "map_of d n = Some (Some r)" using n(2) assms(1) by (simp add: file_inv_def)
  then show ?thesis using n(1,3) assms(1) by (auto simp: file_inv_def file_content_def)
qed

lemma file_insert_InrD:
  assumes "file_insert r d = (Inr u, d')"
  shows "\<exists>p. file_path (r_id r) = Inr p \<and> map_of d p = None \<and> d' = file_write p r d"
  using assms by (auto simp: file_insert_def split: sum.splits if_splits)

lemma file_update_InrD:
  assumes "file_update r now d = (Inr r', d')"
  shows "\<exists>p c. file_path (r_id r) = Inr p \<and> map_of d p = Some (Some c) \<and> same_policy c r \<and>
           r_version c = r_version r \<and> r' = next_version now r \<and> d' = file_write p r' d"
  using assms
  by (auto simp: file_update_def file_read_def result_simps next_version_def same_policy_def
      split: sum.splits if_splits option.splits)

lemma file_update_Inl: "file_update r now d = (Inl e, d') \<Longrightarrow> d' = d"
  by (auto simp: file_update_def split: sum.splits)

lemma file_insert_Inl: "file_insert r d = (Inl e, d') \<Longrightarrow> d' = d"
  by (auto simp: file_insert_def split: sum.splits if_splits)

lemma file_migrate_InrD:
  assumes "file_migrate_legacy_policy cr i v b now d = (Inr r', d')"
  shows "\<exists>p c. file_path i = Inr p \<and> map_of d p = Some (Some c) \<and>
           migrated_policy cr c v b now = Inr r' \<and> r_id r' = r_id c \<and> d' = file_write p r' d"
proof -
  obtain p c where p: "file_path i = Inr p" "file_read p d = Inr (Some c)"
    "migrated_policy cr c v b now = Inr r'" "d' = file_write p r' d"
    using assms
    by (auto simp: file_migrate_legacy_policy_def result_simps split: sum.splits prod.splits)
  then show ?thesis
    using migrated_policy_InrD [OF p(3)] by (auto simp: file_read_def split: option.splits)
qed

lemma file_migrate_Inl: "file_migrate_legacy_policy cr i v b now d = (Inl e, d') \<Longrightarrow> d' = d"
  by (auto simp: file_migrate_legacy_policy_def split: sum.splits)

lemmas default_defs = default_require_signing_def default_reserve_signer_for_record_def
  default_reserve_signer_def default_cancel_preparation_def

lemma file_content_key:
  assumes "file_inv d" and "file_content d i = Some r"
  shows "r_id r = i"
proof -
  obtain p where p: "file_path i = Inr p" "map_of d p = Some (Some r)"
    using assms(2) by (auto simp: file_content_def split: sum.splits option.splits)
  then have "file_path (r_id r) = Inr p" using assms(1) is_json_path by (auto simp: file_inv_def)
  then show ?thesis using p(1) by (rule file_path_inj)
qed

lemma file_update_content:
  assumes "file_update r now d = (Inr r', d')"
  shows "\<exists>c. file_content d (r_id r) = Some c \<and> r_version c = r_version r \<and> same_policy c r \<and>
    r' = next_version now r \<and> file_content d' = (file_content d)(r_id r \<mapsto> r')"
proof -
  obtain p c where p: "file_path (r_id r) = Inr p" "map_of d p = Some (Some c)" "same_policy c r"
    "r_version c = r_version r" "r' = next_version now r" "d' = file_write p r' d"
    using file_update_InrD [OF assms] by fastforce
  have "file_content d' = (file_content d)(r_id r' \<mapsto> r')"
    unfolding p(6) using p(1,5) by (intro file_write_content) simp
  then show ?thesis using p by (simp add: file_content_def)
qed

text \<open>A migration writes the file that it has read.\<close>

lemma file_migrate_writes:
  assumes "file_inv d" and "file_migrate_legacy_policy cr i ver b now d = (Inr r', d')"
  obtains p c where "file_path i = Inr p" and "map_of d p = Some (Some c)" and "migrated_policy cr c ver b now = Inr r'"
    and "file_path (r_id r') = Inr p" and "i = r_id r'" and "d' = file_write p r' d"
proof -
  obtain p c where p: "file_path i = Inr p" "map_of d p = Some (Some c)" "r_id r' = r_id c"
      "migrated_policy cr c ver b now = Inr r'" "d' = file_write p r' d"
    using file_migrate_InrD [OF assms(2)] by fastforce
  then have q: "file_path (r_id r') = Inr p" using assms(1) is_json_path [OF p(1)] by (simp add: file_inv_def)
  then show thesis using that [OF p(1,2,4) q _ p(5)] p(1) file_path_inj by blast
qed

interpretation fs: cas_store "file_ops cr" file_inv file_content
  for cr :: "'k crypto"
proof (unfold_locales, goal_cases)
  case 1 then show ?case by (rule file_content_key)
next
  case 2 then show ?case using file_get_content by simp
next
  case 3 then show ?case using file_list_mem by simp
next
  case (4 d r d')
  then obtain p where p: "file_path (r_id r) = Inr p" "map_of d p = None" "d' = file_write p r d"
    using file_insert_InrD by fastforce
  then show ?case using file_write_content by (simp add: file_content_def)
next
  case 5 then show ?case using file_insert_Inl by simp
next
  case (6 d r y d')
  then show ?case
    using file_insert_InrD [of r d] file_insert_Inl [of r d] file_write_inv by (cases y) auto
next
  case (7 d r now r' d') then show ?case using file_update_content [of r now d r' d'] by auto
next
  case 8 then show ?case using file_update_Inl by simp
next
  case (9 d r now z d')
  then show ?case
    using file_update_InrD [of r now d] file_update_Inl [of r now d] file_write_inv by (cases z) fastforce+
next
  case (13 d i ver b now r' d')
  then obtain p c where p: "map_of d p = Some (Some c)" "migrated_policy cr c ver b now = Inr r'" "file_path (r_id r') = Inr p"
      "i = r_id r'" "d' = file_write p r' d"
    by (auto elim: file_migrate_writes)
  then show ?case
    using file_write_content [OF p(3)] migrated_policy_pristine [OF p(2)] by (simp add: file_content_def)
next
  case 14 then show ?case using file_migrate_Inl by simp
next
  case (15 d i ver b now z d')
  then show ?case
    using file_migrate_Inl [of cr i ver b now d] file_write_inv [OF 15(1)]
    by (cases z) (auto elim!: file_migrate_writes [OF 15(1)])
qed (auto simp: default_defs)

section \<open>Properties\<close>

text \<open>C20: writes are atomic: whatever system call a crash interrupts, reading any payment gives
  what it gave before the write or, for the written one, the complete new record; and the
  listing never sees the temporary file.\<close>

theorem file_write_crash_safe:
  assumes "file_path (r_id r) = Inr p" and "crashed \<in> set (write_trace p r d)"
  shows "(file_get i crashed = file_get i d \<or> i = r_id r \<and> file_get i crashed = Inr (Some r)) \<and>
         \<not> is_json (tmp_path p)"
proof -
  have f: "file_get i x = file_get i d"
    if "\<And>q. q \<noteq> tmp_path p \<Longrightarrow> map_of x q = map_of d q" for x
    using that path_not_tmp by (cases "file_path i") (auto simp: file_get_def file_read_def)
  have last: "file_get i (file_write p r d) = (if i = r_id r then Inr (Some r) else file_get i d)"
    using assms(1) path_not_tmp [of i] file_path_inj [OF assms(1), of i]
    by (cases "file_path i") (auto simp: file_get_def file_read_def map_of_file_write)
  have "crashed = d \<or> crashed = dir_set (tmp_path p) None d \<or>
      crashed = dir_set (tmp_path p) (Some r) (dir_set (tmp_path p) None d) \<or>
      crashed = file_write p r d"
    using assms(2) by (auto simp: write_trace_def file_write_def Let_def)
  then have "file_get i crashed = file_get i d \<or> i = r_id r \<and> file_get i crashed = Inr (Some r)"
  proof (elim disjE)
    assume "crashed = file_write p r d"
    then show ?thesis using last by simp
  qed (auto intro!: f simp: map_of_dir_set)
  then show ?thesis using not_json_tmp by blast
qed

text \<open>The file store has the same compare and swap as the database, its version check
  included; only here the version counter wraps, so the guarantee is for fewer than \<open>2^64\<close>
  writes.  It cannot sign: reservations are refused and leave the directory alone.\<close>

theorem no_lost_update_file:
  assumes "file_inv d" and "file_get i d = Inr (Some c)"
    and "d' = fold (\<lambda>(r, now) d. snd (file_update r now d)) ws d"
    and "unat (r_version c) + length ws < 2 ^ 64"
    and "r_id r = i" and "r_version r = r_version c"
    and "file_update r now d' = (Inr r', d'')"
  shows "file_get i d' = Inr (Some c) \<and> file_get i d'' = Inr (Some r') \<and>
         r' = next_version now r \<and> same_policy c r' \<and>
         so_reserve_signer_for_record (file_ops cr) s r tok d'' =
           (Inl (ErrStore ''atomic signer reservation unsupported''), d'')"
proof -
  have "(\<lambda>(r, now) d. snd (file_update r now d)) = attempt_write (file_ops plain_crypto)"
    by (auto simp: attempt_write_def fun_eq_iff)
  then have d': "d' = fold (attempt_write (file_ops plain_crypto)) ws d" using assms(3) by simp
  have c: "file_content d i = Some c" using file_get_content [OF assms(2)] by simp
  have u: "so_update (file_ops plain_crypto) r now
      (fold (attempt_write (file_ops plain_crypto)) ws d) = (Inr r', d'')"
    using assms(7) d' by simp
  have "file_content d' i = Some c \<and> file_content d'' i = Some (next_version now r) \<and> same_policy c r"
    using fs.no_lost_update [OF assms(1) c assms(4-6) u] d' by simp
  moreover have "r' = next_version now r" using file_update_InrD [OF assms(7)] by auto
  moreover have "file_get i x = Inr (Some q)" if "file_content x i = Some q" for x q
    using that by (auto simp: file_content_def file_get_def file_read_def split: sum.splits option.splits)
  ultimately show ?thesis by (simp add: default_defs)
qed

theorem file_write_crash_safe_witness:
  "let r = test_record ''a''; crashed = dir_set ''a.json.tmp'' None [] in
   (file_get ''a'' crashed = file_get ''a'' [] \<or> ''a'' = r_id r \<and> file_get ''a'' crashed = Inr (Some r)) \<and>
   \<not> is_json (tmp_path ''a.json'')"
proof -
  have p: "file_path (r_id (test_record ''a'')) = Inr ''a.json''"
    by (simp add: file_path_def file_name_def is_ascii_alphanumeric_def is_ascii_digit_def byte_of_def)
  have "dir_set ''a.json.tmp'' None [] \<in> set (write_trace ''a.json'' (test_record ''a'') [])"
    by (simp add: write_trace_def Let_def tmp_path_def)
  then show ?thesis unfolding Let_def by (rule file_write_crash_safe [OF p])
qed

theorem no_lost_update_file_witness:
  "let r = test_record ''a''; d = [(''a.json'', Some r)]; w = r\<lparr>r_detected_alpha := 9\<rparr> in
   file_get ''a'' d = Inr (Some r) \<and> same_policy r (next_version 7 w)"
proof -
  let ?r = "test_record ''a''"
  let ?d = "[(''a.json'', Some ?r)]" and ?w = "?r\<lparr>r_detected_alpha := 9\<rparr>"
  have p: "file_path ''a'' = Inr ''a.json''"
    by (simp add: file_path_def file_name_def is_ascii_alphanumeric_def is_ascii_digit_def byte_of_def)
  have inv: "file_inv ?d" using p by (auto simp: file_inv_def split: if_splits)
  have g: "file_get ''a'' ?d = Inr (Some ?r)" using p by (simp add: file_get_def file_read_def)
  obtain d'' where u: "file_update ?w 7 ?d = (Inr (next_version 7 ?w), d'')"
    using p by (simp add: file_update_def file_read_def next_version_def)
  show ?thesis
    unfolding Let_def
    using g no_lost_update_file [OF inv g, of ?d "[]" ?w, OF _ _ _ _ u] by simp
qed

end
