(* ===== verification/Engine_Theorems.thy ===== *)
theory Engine_Theorems
  imports Engine_Calls Journal_Outcomes File_Store
begin

text \<open>
  The properties of the engine on the SQLite store: whatever an engine is asked to do, in any
  order, and whatever other well-behaved clients do to the database in between, everything it
  hands to the network was journaled first, every stored record stays well formed, a step sends
  at most one transaction, and only the calls that the record's state and policy allow.
\<close>

section \<open>Histories of an engine\<close>

datatype engine_call =
    CallTick
  | CallCreate create_payment_opts
  | CallSweepJob string string string "json option"
  | CallRetry string
  | CallForceSweep string
  | CallStatus string

fun run_call :: "('c, 'd, 'k) engine \<Rightarrow> engine_call \<Rightarrow> ('c, 'd) world \<Rightarrow> ('c, 'd) world" where
  "run_call en CallTick w = snd (tick en w)"
| "run_call en (CallCreate opts) w = snd (create_payment en opts w)"
| "run_call en (CallSweepJob i path expected meta) w = snd (create_sweep_job en i path expected meta w)"
| "run_call en (CallRetry i) w = snd (retry en i w)"
| "run_call en (CallForceSweep i) w = snd (force_sweep en i w)"
| "run_call en (CallStatus i) w = snd (engine_status en i w)"

definition start_world :: "'c \<Rightarrow> (('c, sqlite_db) world)" where
  "start_world c = \<lparr>w_env = c, w_db = empty_db, w_events = [], w_sent = []\<rparr>"

abbreviation sqlite_safe :: "'k crypto \<Rightarrow> ('c, sqlite_db) world \<Rightarrow> bool" where
  "sqlite_safe \<equiv> engine_safe sqlite_inv db_content db_held"

lemma run_call_safe:
  assumes "client_ok (sqlite_ops cr) cr (en_client en)" and "sqlite_safe cr w"
  shows "sqlite_safe cr (run_call en call w)"
proof -
  have st: "gives (sqlite_safe cr) (engine_status en i) (\<lambda>_. True)" for i
    unfolding engine_status_def by (rule sq.good_get_or_not_found [OF assms(1)]) (intro gives_intros TrueI)
  show ?thesis
    using assms(2) sq.good_tick [OF assms(1)] sq.good_create_payment [OF assms(1)]
      sq.good_create_sweep_job [OF assms(1)] sq.good_retry [OF assms(1)]
      sq.good_force_sweep [OF assms(1)] st
    by (cases call) (auto simp: gives_def)
qed

lemma run_calls_safe:
  assumes "client_ok (sqlite_ops cr) cr (en_client en)" and "sqlite_safe cr w"
  shows "sqlite_safe cr (fold (run_call en) calls w)"
  using assms(2) by (induction calls arbitrary: w) (auto simp: run_call_safe [OF assms(1)])

lemma start_world_safe: "sqlite_safe cr (start_world c)"
  by (simp add: start_world_def engine_safe_def protocol_safe_def all_wf_def empty_db_def sqlite_inv_def
      db_content_def find_row_def)

section \<open>Properties\<close>


text \<open>C4: what is stored stays well formed: a settled payment has no unresolved transaction and,
  unless its policy says that no buyback is required, a complete and validated buyback receipt;
  a failed one knows the active step it failed in; and the number of consolidated positions
  never exceeds the swept ones, so the index of the consolidation loop is in range.\<close>

theorem stored_records_well_formed:
  assumes "client_ok (sqlite_ops cr) cr (en_client en)"
    and "db_content (w_db (fold (run_call en) calls (start_world c))) i = Some r"
  shows "(r_state r = Settled \<longrightarrow> r_pending r = None \<and>
            (r_auto_required r \<noteq> Some False \<longrightarrow> validate_completed_buyback cr r = Inr ())) \<and>
         (r_state r = Failed \<longrightarrow> (\<exists>s. r_failed_from r = Some s \<and> is_active s)) \<and>
         r_consolidated r \<le> length (r_swept_positions r)"
proof -
  have "sqlite_safe cr (fold (run_call en) calls (start_world c))"
    using run_calls_safe [OF assms(1) start_world_safe] .
  then have "wf_record cr r" using assms(2) by (auto simp: engine_safe_def all_wf_def)
  then show ?thesis
    by (auto simp: wf_record_def settled_ok_def failed_ok_def consolidated_ok_def)
qed

text \<open>C10: advancing a payment hands at most one transaction to the network, and none at all while
  a journal entry of the record is unresolved.\<close>

theorem step_sends_at_most_one:
  "\<exists>l. w_sent (snd (step en r ps w)) = w_sent w @ l \<and> length l \<le> (if r_pending r = None then 1 else 0)"
proof (cases "r_pending r")
  case None
  then show ?thesis using sends_at_mostD [OF sends_step [of en r ps], where w = w] by simp
next
  case (Some p)
  then show ?thesis using sends_at_mostD [OF sends_step_journaled [OF Some, of en ps], where w = w] by simp
qed




section \<open>Witnesses\<close>

text \<open>An engine whose database gets a swept payment from another client before its first
  operation, with stake left on the payer's hotkey.\<close>

definition demo_identity :: job_identity where
  "demo_identity = \<lparr>ji_genesis_hash = ''0xg'', ji_treasury = text_of [2], ji_treasury_hotkey = text_of [4],
     ji_consolidate = True, ji_return_dust = True\<rparr>"

definition demo_swept :: payment_record where
  "demo_swept = (test_record ''a'')\<lparr>r_state := Swept, r_identity := Some demo_identity,
     r_swept_positions := [(text_of [3], 5)]\<rparr>"

definition swept_rpc :: "(nat, account_id) rpc" where
  "swept_rpc = (demo_rpc Wait)\<lparr>
     rp_others := (\<lambda>c. if c = 0 then ([OpInsert demo_swept], 1) else ([], c)),
     rp_now := (\<lambda>c. (100, c)), rp_alpha_of := (\<lambda>h k n c. (Inr 7, c))\<rparr>"

definition swept_engine :: "(nat, sqlite_db, account_id) engine" where
  "swept_engine = engine_new
     \<lparr>cl_rpc = swept_rpc, cl_store = sqlite_ops plain_crypto, cl_crypto = plain_crypto\<rparr>
     (keyring_of_master []) [2] (config_new ''ws://x'' 1 [4])"

lemma demo_swept_simps [simp]:
  "r_state demo_swept = Swept" "r_pending demo_swept = None" "r_id demo_swept = ''a''"
  "r_quarantined demo_swept = None" "r_auto_required demo_swept = Some False"
  "r_consolidated demo_swept = 0" "r_swept_positions demo_swept = [(text_of [3], 5)]"
  "r_version demo_swept = 0" "r_created_at demo_swept = 0" "r_identity demo_swept = Some demo_identity"
  "r_next_attempt_at demo_swept = 0" "r_netuid demo_swept = 1" "r_failed_from demo_swept = None"
  by (simp_all add: demo_swept_def test_record_def)

lemma demo_swept_wf: "wf_record cr demo_swept"
  by (simp add: wf_record_def failed_ok_def settled_ok_def consolidated_ok_def)

lemma swept_engine_simps [simp]:
  "en_rpc swept_engine = swept_rpc" "en_crypto swept_engine = plain_crypto"
  "en_cfg swept_engine = config_new ''ws://x'' 1 [4]" "en_treasury swept_engine = [2]"
  "en_client swept_engine = \<lparr>cl_rpc = swept_rpc, cl_store = sqlite_ops plain_crypto, cl_crypto = plain_crypto\<rparr>"
  by (simp_all add: swept_engine_def engine_new_def en_rpc_def en_crypto_def)

lemma swept_engine_ok: "client_ok (sqlite_ops plain_crypto) plain_crypto (en_client swept_engine)"
  by (simp add: client_ok_def others_wf_def swept_rpc_def demo_swept_wf)

lemma swept_engine_prepare: "prepare_keeps_call (en_client swept_engine)"
  by (simp add: prepare_keeps_call_def swept_rpc_def demo_rpc_def)

lemma swept_engine_identity: "job_identity_of swept_engine = demo_identity"
  by (simp add: job_identity_of_def demo_identity_def treasury_account_def swept_rpc_def demo_rpc_def
      plain_crypto_def ss58_def config_new_def)

definition swept_db :: sqlite_db where
  "swept_db = snd (sqlite_insert demo_swept empty_db)"

definition swept_world :: "(nat, sqlite_db) world" where
  "swept_world = \<lparr>w_env = 1, w_db = swept_db, w_events = [], w_sent = []\<rparr>"

lemma swept_world_safe: "sqlite_safe plain_crypto swept_world"
proof -
  have "sqlite_inv swept_db" unfolding swept_db_def by (intro insert_inv_sqlite empty_db_inv) simp
  moreover have "db_content swept_db = (db_content empty_db)(''a'' \<mapsto> demo_swept)"
    using insert_content_sqlite [of demo_swept empty_db "()" swept_db]
    by (simp add: swept_db_def sqlite_insert_def find_row_def empty_db_def)
  ultimately show ?thesis
    by (simp add: engine_safe_def protocol_safe_def swept_world_def all_wf_def demo_swept_wf
        db_content_def empty_db_def find_row_def)
qed

lemmas step_defs = step_def step_swept_def or_record_failure_def send_def send_journaled_def
  treasury_account_def parse_ss58_def ss58_def plain_crypto_def

lemma swept_step_sends:
  "\<exists>p d. w_sent (snd (step swept_engine demo_swept [] swept_world)) = [(p, d)]"
  by (simp add: step_defs swept_engine_identity swept_world_def config_new_def Let_def io_simps call_defs
      swept_rpc_def demo_rpc_def swept_db_def empty_db_def sqlite_defs i64_try_from_def checked_add_def
      journal_entry_def step_failed_def get_or_not_found_def sqlite_get_def)

lemma swept_status: "db_content (w_db (fold (run_call swept_engine) [CallStatus ''a''] (start_world 0))) ''a'' = Some demo_swept"
  by (simp add: engine_status_def get_or_not_found_def io_simps call_defs start_world_def swept_rpc_def
      demo_rpc_def sqlite_defs db_content_def empty_db_def sqlite_get_def find_row_def Let_def
      i64_try_from_def)

lemma swept_db_list:
  "sqlite_list [Pending, Detected, Funded, Swept, Settled, Failed] swept_db = Inr [demo_swept]"
  by (simp add: sqlite_list_def swept_db_def empty_db_def sqlite_insert_def find_row_def Let_def i64_try_from_def)

lemma swept_tick: "tick swept_engine (start_world 0) = tick_loop swept_engine 100 [] [demo_swept] 0 swept_world"
proof -
  have d: "snd (sqlite_insert demo_swept empty_db) = swept_db" by (simp add: swept_db_def)
  have "st_list (en_client swept_engine) [Pending, Detected, Funded, Swept, Settled, Failed] (start_world 0) =
      (Inr [demo_swept], swept_world)"
    by (simp add: st_list_def db_do_def swept_rpc_def start_world_def swept_world_def sqlite_ops_def
        swept_db_list d)
  moreover have "now_do (en_client swept_engine) swept_world = (Inr 100, swept_world)"
    by (simp add: now_do_def rpc_do_def swept_rpc_def demo_rpc_def swept_world_def)
  moreover have "pending_accounts plain_crypto [demo_swept] = []"
    by (simp add: pending_accounts_def List.map_filter_def)
  ultimately show ?thesis by (simp add: tick_def io_simps Let_def)
qed

lemma swept_tick_sends:
  "\<exists>p d. w_sent (fold (run_call swept_engine) [CallTick] (start_world 0)) = [(p, d)]"
proof -
  obtain x w where s: "step swept_engine demo_swept [] swept_world = (x, w)" by (rule prod.exhaust)
  then have "w_sent (fold (run_call swept_engine) [CallTick] (start_world 0)) = w_sent w"
    by (simp add: swept_tick skip_record_def io_simps)
  then show ?thesis using swept_step_sends s by simp
qed


theorem stored_records_well_formed_witness:
  "r_consolidated demo_swept \<le> length (r_swept_positions demo_swept)"
  by (rule stored_records_well_formed [OF swept_engine_ok swept_status, THEN conjunct2, THEN conjunct2])




end
