(* ===== verification/Chain_Client.thy ===== *)
theory Chain_Client
  imports Keys
begin

text \<open>
  The subtensor client \<open>Chain\<close> of \<open>src/src/chain.rs\<close>: reading balances, stake and prices, the
  metadata check, decoding the events of an extrinsic, preparing and broadcasting transactions,
  looking for a journaled transaction in finalized blocks, deposits of a block, and connecting.

  The node is reached through third-party code (\<open>subxt\<close>, \<open>jsonrpsee\<close>).  It is the record
  \<open>('c, 'k) node\<close> of the requests the client makes; \<open>'c\<close> is the state of everything outside and
  a request may fail with a message.  \<open>ClientAtBlock\<close> is the number and the hash of its block.
  The decoders of event fields are the record \<open>codec\<close>.  \<open>finalized_chain\<close> says what the theorems
  about scanning rely on: answered reads of finalized blocks are answered from one chain.
\<close>

section \<open>The node\<close>

datatype event_phase = ApplyExtrinsic u32 | Finalization | Initialization

record chain_event =
  ev_phase :: event_phase
  ev_index :: u32
  ev_pallet :: string
  ev_name :: string
  ev_bytes :: "u8 list"

record codec =
  dc_stake_added :: "chain_event \<Rightarrow> string + account_id \<times> account_id \<times> u64 \<times> u64 \<times> u16 \<times> u64"
  dc_destroyed :: "chain_event \<Rightarrow> string + account_id \<times> account_id \<times> u64 \<times> u16"
  dc_transferred :: "chain_event \<Rightarrow> string + account_id \<times> account_id \<times> account_id \<times> u16 \<times> u16 \<times> u64"
  dc_moved :: "chain_event \<Rightarrow> string + account_id \<times> account_id \<times> u16 \<times> account_id \<times> u16 \<times> u64"
  dc_balance :: "chain_event \<Rightarrow> string + account_id \<times> account_id \<times> u64"

record extrinsic =
  xt_index :: nat
  xt_hash :: string
  xt_address :: "u8 list option"
  xt_nonce :: "u64 option"
  xt_call_data :: "u8 list"

record block_ref =
  bk_number :: u64
  bk_hash :: string

record call_variant =
  cv_index :: u8
  cv_fields :: "string option list"

record pallet_metadata =
  pm_calls :: "(string \<times> call_variant) list"
  pm_events :: "(string \<times> u8) list option"

record metadata =
  md_spec_version :: u32
  md_pallets :: "(string \<times> pallet_metadata) list"

record raw_stake_info =
  ri_hotkey :: account_id
  ri_netuid :: u16
  ri_stake :: u64

text \<open>A decoded storage value, as far as \<open>i96f32_to_rao\<close> distinguishes them.\<close>

datatype storage_value = SI128 int | SU128 u128 | SComposite "storage_value list" | SOther

type_synonym ('c, 'a) request = "'c \<Rightarrow> (string + 'a) \<times> 'c"

record ('c, 'k) node =
  nd_codec :: codec
  nd_genesis_hash :: string
  nd_current :: "('c, block_ref) request"
  nd_at_block :: "u64 \<Rightarrow> ('c, block_ref) request"
  nd_metadata :: "block_ref \<Rightarrow> metadata"
  nd_extrinsics :: "block_ref \<Rightarrow> ('c, (string + extrinsic) list) request"
  nd_events :: "block_ref \<Rightarrow> ('c, (string + chain_event) list) request"
  nd_extrinsic_events :: "block_ref \<Rightarrow> extrinsic \<Rightarrow> ('c, (string + chain_event) list) request"
  nd_account :: "block_ref \<Rightarrow> account_id \<Rightarrow> ('c, (u64 \<times> u32) option) request"
  nd_timestamp :: "string \<Rightarrow> ('c, u64 option) request"
  nd_existential_deposit :: "block_ref \<Rightarrow> string + u64"
  nd_stake_info :: "block_ref \<Rightarrow> account_id \<Rightarrow> ('c, raw_stake_info list) request"
  nd_stake_infos :: "block_ref \<Rightarrow> account_id list \<Rightarrow> ('c, (account_id \<times> raw_stake_info list) list) request"
  nd_alpha_price :: "block_ref \<Rightarrow> u16 \<Rightarrow> ('c, u64) request"
  nd_moving_price :: "block_ref \<Rightarrow> u16 \<Rightarrow> ('c, storage_value) request"
  nd_owner :: "block_ref \<Rightarrow> account_id \<Rightarrow> ('c, account_id) request"
  nd_account_nonce :: "block_ref \<Rightarrow> account_id \<Rightarrow> ('c, u64) request"
  nd_create_signed :: "block_ref \<Rightarrow> string \<times> string \<times> scale_value list \<Rightarrow> 'k \<Rightarrow> (u64 \<times> u64) option \<Rightarrow>
    ('c, string \<times> u8 list) request"
  nd_call_data :: "block_ref \<Rightarrow> string \<times> string \<times> scale_value list \<Rightarrow> string + u8 list"
  nd_query_info :: "block_ref \<Rightarrow> u8 list \<Rightarrow> ('c, u8 list) request"
  nd_submit_and_watch :: "u8 list \<Rightarrow> ('c, unit) request"
  nd_wait_for_finalized :: "u8 list \<Rightarrow> ('c, string) request"
  nd_wait_for_success :: "u8 list \<Rightarrow> ('c, (string + chain_event) list) request"

text \<open>\<open>.await.map_err(chain_err)?\<close>\<close>

definition chain_err :: "string \<Rightarrow> error" where
  "chain_err e = ErrChain e"

definition ask_with :: "(string \<Rightarrow> error) \<Rightarrow> ('c, 'a) request \<Rightarrow> ('c, error, 'a) io" where
  "ask_with g f = (\<lambda>c. case f c of (x, c') \<Rightarrow> (map_err g x, c'))"

definition ask :: "('c, 'a) request \<Rightarrow> ('c, error, 'a) io" where
  "ask f = ask_with chain_err f"

section \<open>Events\<close>

text \<open>One iteration of the loop of \<open>from_events\<close>.  The sum of transfers wraps, as \<open>+\<close> on \<open>u64\<close>
  does in a release build.\<close>

definition add_event :: "codec \<Rightarrow> string + chain_event \<Rightarrow> event_summary \<Rightarrow> event_summary res" where
  "add_event dc item s =
     and_then (map_err chain_err item) (\<lambda>ev.
     let p = ev_pallet ev; n = ev_name ev in
     and_then
       (if p = ''System'' \<and> n = ''ExtrinsicFailed'' then Inr (s\<lparr>es_failed := True\<rparr>)
        else if p = PALLET \<and> n = ''StakeAdded''
        then and_then (map_err chain_err (dc_stake_added dc ev)) (\<lambda>(_, _, tao, alpha, _, _).
             Inr (s\<lparr>es_stake_added := Some (tao, alpha)\<rparr>))
        else if p = PALLET \<and> (n = ''AlphaBurned'' \<or> n = ''AlphaRecycled'')
        then and_then (map_err chain_err (dc_destroyed dc ev)) (\<lambda>(_, _, amount, _).
             Inr (s\<lparr>es_alpha_destroyed := Some amount\<rparr>))
        else if p = PALLET \<and> n = ''StakeTransferred''
        then and_then (map_err chain_err (dc_transferred dc ev)) (\<lambda>(_, _, _, _, _, tao).
             Inr (s\<lparr>es_stake_moved_tao := Some tao\<rparr>))
        else if p = PALLET \<and> n = ''StakeMoved''
        then and_then (map_err chain_err (dc_moved dc ev)) (\<lambda>(_, _, _, _, _, tao).
             Inr (s\<lparr>es_stake_moved_tao := Some tao\<rparr>))
        else if p = ''Balances'' \<and> n = ''Transfer''
        then and_then (map_err chain_err (dc_balance dc ev)) (\<lambda>(_, _, amount).
             Inr (s\<lparr>es_transferred := Some ((case es_transferred s of None \<Rightarrow> 0 | Some t \<Rightarrow> t) + amount)\<rparr>))
        else Inr s)
       (\<lambda>s. Inr (s\<lparr>es_names := es_names s @ [(p, n)]\<rparr>)))"

definition from_events :: "codec \<Rightarrow> (string + chain_event) list \<Rightarrow> event_summary res" where
  "from_events dc evs = fold_result (add_event dc) evs empty_summary"

section \<open>Reads\<close>

definition chain_genesis_hash :: "('c, 'k) node \<Rightarrow> string" where
  "chain_genesis_hash nd = nd_genesis_hash nd"

definition best_finalized_number :: "('c, 'k) node \<Rightarrow> ('c, error, u64) io" where
  "best_finalized_number nd = io_bind (ask (nd_current nd)) (\<lambda>b. io_ret (bk_number b))"

definition finalized_head :: "('c, 'k) node \<Rightarrow> ('c, error, u64 \<times> string) io" where
  "finalized_head nd = io_bind (ask (nd_current nd)) (\<lambda>b. io_ret (bk_number b, bk_hash b))"

definition block_hash_at :: "('c, 'k) node \<Rightarrow> u64 \<Rightarrow> ('c, error, string option) io" where
  "block_hash_at nd number =
     io_bind (io_attempt (ask (nd_at_block nd number))) (\<lambda>x.
     case x of Inl _ \<Rightarrow> io_ret None | Inr b \<Rightarrow> io_ret (Some (bk_hash b)))"

definition chain_account :: "('c, 'k) node \<Rightarrow> account_id \<Rightarrow> ('c, error, u64 \<times> u32) io" where
  "chain_account nd who =
     io_bind (ask (nd_current nd)) (\<lambda>b.
     io_bind (ask (nd_account nd b who)) (\<lambda>info.
     io_ret (case info of None \<Rightarrow> (0, 0) | Some v \<Rightarrow> v)))"

definition chain_free_balance :: "('c, 'k) node \<Rightarrow> account_id \<Rightarrow> ('c, error, u64) io" where
  "chain_free_balance nd who = io_bind (chain_account nd who) (\<lambda>v. io_ret (fst v))"

definition block_timestamp_ms :: "('c, 'k) node \<Rightarrow> string \<Rightarrow> ('c, error, u64) io" where
  "block_timestamp_ms nd block_hash =
     io_bind (ask (nd_timestamp nd block_hash)) (\<lambda>v.
     io_lift (ok_or (ErrChain ''block timestamp unavailable'') v))"

definition chain_existential_deposit :: "('c, 'k) node \<Rightarrow> ('c, error, u64) io" where
  "chain_existential_deposit nd =
     io_bind (ask (nd_current nd)) (\<lambda>b. io_lift (map_err chain_err (nd_existential_deposit nd b)))"

definition positions_of :: "raw_stake_info list \<Rightarrow> stake_position list" where
  "positions_of raw =
     map (\<lambda>r. \<lparr>sp_hotkey = ri_hotkey r, sp_netuid = ri_netuid r, sp_alpha = ri_stake r\<rparr>)
       (filter (\<lambda>r. 0 < ri_stake r) raw)"

definition stake_positions :: "('c, 'k) node \<Rightarrow> account_id \<Rightarrow> ('c, error, stake_position list) io" where
  "stake_positions nd coldkey =
     io_bind (ask (nd_current nd)) (\<lambda>b.
     io_bind (ask (nd_stake_info nd b coldkey)) (\<lambda>raw. io_ret (positions_of raw)))"

definition chain_alpha_on ::
    "('c, 'k) node \<Rightarrow> account_id \<Rightarrow> u16 \<Rightarrow> ('c, error, u64 \<times> stake_position list) io" where
  "chain_alpha_on nd coldkey netuid =
     io_bind (stake_positions nd coldkey) (\<lambda>all.
     let pos = filter (\<lambda>p. sp_netuid p = netuid) all in
     io_ret (sum_list (map sp_alpha pos), pos))"

definition chain_alpha_of ::
    "('c, 'k) node \<Rightarrow> account_id \<Rightarrow> account_id \<Rightarrow> u16 \<Rightarrow> ('c, error, u64) io" where
  "chain_alpha_of nd hotkey coldkey netuid =
     io_bind (stake_positions nd coldkey) (\<lambda>all.
     io_ret (sum_list (map sp_alpha (filter (\<lambda>p. sp_netuid p = netuid \<and> sp_hotkey p = hotkey) all))))"

definition chain_alpha_price :: "('c, 'k) node \<Rightarrow> u16 \<Rightarrow> ('c, error, u64) io" where
  "chain_alpha_price nd netuid =
     io_bind (ask (nd_current nd)) (\<lambda>b. ask (nd_alpha_price nd b netuid))"

text \<open>\<open>find\<close> of \<open>i96f32_to_rao\<close>: the first 128-bit number in a value, depth first.\<close>

fun find_bits :: "storage_value \<Rightarrow> int option"
  and find_first :: "storage_value list \<Rightarrow> int option" where
  "find_bits (SI128 b) = Some b"
| "find_bits (SU128 b) = (if uint b < 2 ^ 127 then Some (uint b) else None)"
| "find_bits (SComposite vs) = find_first vs"
| "find_bits SOther = None"
| "find_first [] = None"
| "find_first (v # vs) = (case find_bits v of Some b \<Rightarrow> Some b | None \<Rightarrow> find_first vs)"

definition i96f32_to_rao :: "storage_value \<Rightarrow> u64 res" where
  "i96f32_to_rao v =
     and_then (ok_or (ErrChain ''cannot decode SubnetMovingPrice'') (find_bits v)) (\<lambda>bits.
     Inr (if bits \<le> 0 then 0 else fixed_bits_to_rao (word_of_int bits) 32))"

definition moving_price_at :: "('c, 'k) node \<Rightarrow> block_ref \<Rightarrow> u16 \<Rightarrow> ('c, error, u64) io" where
  "moving_price_at nd b netuid =
     io_bind (ask (nd_moving_price nd b netuid)) (\<lambda>v. io_lift (i96f32_to_rao v))"

definition moving_alpha_price :: "('c, 'k) node \<Rightarrow> u16 \<Rightarrow> ('c, error, u64) io" where
  "moving_alpha_price nd netuid = io_bind (ask (nd_current nd)) (\<lambda>b. moving_price_at nd b netuid)"

definition chain_hotkey_owner :: "('c, 'k) node \<Rightarrow> account_id \<Rightarrow> ('c, error, account_id option) io" where
  "chain_hotkey_owner nd hotkey =
     io_bind (ask (nd_current nd)) (\<lambda>b.
     io_bind (ask (nd_owner nd b hotkey)) (\<lambda>owner.
     io_ret (if owner \<noteq> replicate 32 0 then Some owner else None)))"

fun chunks64 :: "'a list \<Rightarrow> 'a list list" where
  "chunks64 [] = []"
| "chunks64 (x # xs) = take 64 (x # xs) # chunks64 (drop 64 (x # xs))"

text \<open>A later answer for the same coldkey replaces an earlier one; the engine only looks keys up,
  so the order of the map does not matter.\<close>

definition put_positions ::
    "account_id \<times> raw_stake_info list \<Rightarrow> (account_id \<times> stake_position list) list \<Rightarrow>
     (account_id \<times> stake_position list) list" where
  "put_positions x out = (fst x, positions_of (snd x)) # filter (\<lambda>y. fst y \<noteq> fst x) out"

fun positions_loop ::
    "('c, 'k) node \<Rightarrow> block_ref \<Rightarrow> account_id list list \<Rightarrow> (account_id \<times> stake_position list) list \<Rightarrow>
     ('c, error, (account_id \<times> stake_position list) list) io" where
  "positions_loop nd b [] out = io_ret out"
| "positions_loop nd b (chunk # chunks) out =
     io_bind (ask (nd_stake_infos nd b chunk)) (\<lambda>infos.
     positions_loop nd b chunks (fold put_positions infos out))"

definition chain_stake_positions_many ::
    "('c, 'k) node \<Rightarrow> account_id list \<Rightarrow> ('c, error, (account_id \<times> stake_position list) list) io" where
  "chain_stake_positions_many nd coldkeys =
     io_bind (ask (nd_current nd)) (\<lambda>b. positions_loop nd b (chunks64 coldkeys) [])"

section \<open>Metadata\<close>

definition join :: "string \<Rightarrow> string list \<Rightarrow> string" where
  "join sep xs = (case xs of [] \<Rightarrow> '''' | x # ys \<Rightarrow> x @ concat (map (\<lambda>y. sep @ y) ys))"

text \<open>The \<open>Debug\<close> form of a slice of strings.\<close>

definition debug_list :: "string list \<Rightarrow> string" where
  "debug_list xs = ''['' @ join '', '' (map str_debug xs) @ '']''"

definition pallet_by_name :: "metadata \<Rightarrow> string \<Rightarrow> pallet_metadata res" where
  "pallet_by_name md pallet =
     ok_or (ErrChain (''pallet '' @ pallet @ '' missing'')) (map_of (md_pallets md) pallet)"

definition verify_call :: "metadata \<Rightarrow> string \<times> string \<times> string list \<Rightarrow> string list \<Rightarrow> string list res" where
  "verify_call md required out =
     (case required of (pallet, call, args) \<Rightarrow>
     and_then (pallet_by_name md pallet) (\<lambda>p.
     and_then (ok_or (ErrChain (''call '' @ pallet @ ''.'' @ call @ '' missing from runtime''))
                (map_of (pm_calls p) call)) (\<lambda>v.
     let names = List.map_filter id (cv_fields v) in
     if names \<noteq> args
     then Inl (ErrChain (''call '' @ pallet @ ''.'' @ call @ '' has args '' @ debug_list names @
                 '', expected '' @ debug_list args))
     else Inr (out @ [''call '' @ pallet @ ''.'' @ call @ '' #'' @ show_nat (unat (cv_index v)) @ ''('' @
                        join '', '' names @ '')'']))))"

definition verify_event :: "metadata \<Rightarrow> string \<times> string \<Rightarrow> string list \<Rightarrow> string list res" where
  "verify_event md required out =
     (case required of (pallet, ev) \<Rightarrow>
     and_then (pallet_by_name md pallet) (\<lambda>p.
     and_then (ok_or (ErrChain (''event '' @ pallet @ ''.'' @ ev @ '' missing''))
                (Option.bind (pm_events p) (find (\<lambda>v. fst v = ev)))) (\<lambda>v.
     Inr (out @ [''event '' @ pallet @ ''.'' @ ev @ '' #'' @ show_nat (unat (snd v))]))))"

definition verify_against :: "metadata \<Rightarrow> string list res" where
  "verify_against md =
     and_then (fold_result (verify_call md) REQUIRED_CALLS
                [''spec_version '' @ show_nat (unat (md_spec_version md))]) (\<lambda>out.
     fold_result (verify_event md) REQUIRED_EVENTS out)"

definition verify_metadata :: "('c, 'k) node \<Rightarrow> ('c, error, string list) io" where
  "verify_metadata nd =
     io_bind (ask (nd_current nd)) (\<lambda>b. io_lift (verify_against (nd_metadata nd b)))"

section \<open>Fees\<close>

text \<open>The SCALE decoders of the crate \<open>codec\<close>: the two compact weights and the class give the
  rest of the input.\<close>

record scale =
  sc_weights :: "u8 list \<Rightarrow> u8 list option"
  sc_u64 :: "u8 list \<Rightarrow> u64 option"
  sc_u128 :: "u8 list \<Rightarrow> u128 option"
  sc_encode_u32 :: "u32 \<Rightarrow> u8 list"

definition decode_partial_fee :: "scale \<Rightarrow> u8 list \<Rightarrow> u64 res" where
  "decode_partial_fee sc bytes =
     (let bad = ErrChain ''cannot decode RuntimeDispatchInfo'' in
      and_then (ok_or bad (sc_weights sc bytes)) (\<lambda>cur.
      if length cur = 8 then ok_or bad (sc_u64 sc cur)
      else if length cur = 16
      then and_then (ok_or bad (sc_u128 sc cur)) (\<lambda>x. ok_or bad (u64_try_from x))
      else Inl bad))"

definition chain_estimate_fee ::
    "scale \<Rightarrow> ('c, 'k) node \<Rightarrow> chain_call \<Rightarrow> 'k \<Rightarrow> ('c, error, u64) io" where
  "chain_estimate_fee sc nd call signer =
     io_bind (ask (nd_current nd)) (\<lambda>b.
     io_bind (ask (nd_create_signed nd b (payload call) signer None)) (\<lambda>(_, encoded).
     io_bind (ask (nd_query_info nd b (encoded @ sc_encode_u32 sc (of_nat (length encoded))))) (\<lambda>out.
     io_lift (decode_partial_fee sc out))))"

section \<open>Transactions\<close>

definition chain_prepare ::
    "'k crypto \<Rightarrow> ('c, 'k) node \<Rightarrow> chain_call \<Rightarrow> 'k \<Rightarrow> ('c, error, prepared_tx) io" where
  "chain_prepare cr nd call signer =
     (let who = cr_account_id cr signer in
      io_bind (ask (nd_current nd)) (\<lambda>b.
      io_bind (ask (nd_account_nonce nd b who)) (\<lambda>nonce.
      io_bind (ask (nd_create_signed nd b (payload call) signer (Some (nonce, MORTALITY)))) (\<lambda>(hash, encoded).
      io_ret \<lparr>pp_call = call, pp_signer = ss58 cr who, pp_nonce = nonce, pp_tx_hash = hash,
              pp_birth_block = bk_number b, pp_bytes = encoded\<rparr>))))"

definition chain_broadcast :: "('c, 'k) node \<Rightarrow> prepared_tx \<Rightarrow> ('c, error, finalized_tx) io" where
  "chain_broadcast nd p =
     io_bind (ask (nd_current nd)) (\<lambda>_.
     io_bind (ask (nd_submit_and_watch nd (pp_bytes p))) (\<lambda>_.
     io_bind (ask (nd_wait_for_finalized nd (pp_bytes p))) (\<lambda>block_hash.
     io_bind (ask_with (\<lambda>e. ErrChain (call_name (pp_call p) @ '' failed in '' @ block_hash @ '': '' @ e))
                (nd_wait_for_success nd (pp_bytes p))) (\<lambda>evs.
     io_bind (io_lift (from_events (nd_codec nd) evs)) (\<lambda>summary.
     let res = \<lparr>ft_tx = \<lparr>tr_action = call_name (pp_call p), tr_tx_hash = pp_tx_hash p,
                          tr_block_hash = block_hash, tr_amount = call_amount (pp_call p)\<rparr>,
                ft_summary = summary\<rparr>;
         (pal, e) = expected_event (pp_call p)
     in if \<not> summary_has (ft_summary res) pal e then io_fail (EventMissing e) else io_ret res)))))"

definition chain_submit :: "'k crypto \<Rightarrow> ('c, 'k) node \<Rightarrow> chain_call \<Rightarrow> 'k \<Rightarrow> ('c, error, finalized_tx) io" where
  "chain_submit cr nd call signer =
     io_bind (chain_prepare cr nd call signer) (chain_broadcast nd)"

section \<open>Looking for a journaled transaction\<close>

text \<open>The inner loop: the first extrinsic with the hash, unless an undecodable one comes first.\<close>

fun find_extrinsic :: "string \<Rightarrow> (string + extrinsic) list \<Rightarrow> extrinsic option res" where
  "find_extrinsic h [] = Inr None"
| "find_extrinsic h (x # xs) =
     and_then (map_err chain_err x) (\<lambda>ext.
     if xt_hash ext = h then Inr (Some ext) else find_extrinsic h xs)"

fun scan_blocks :: "('c, 'k) node \<Rightarrow> string \<Rightarrow> u64 list \<Rightarrow> ('c, error, pending_outcome option) io" where
  "scan_blocks nd h [] = io_ret None"
| "scan_blocks nd h (n # ns) =
     io_bind (ask (nd_at_block nd n)) (\<lambda>b.
     io_bind (ask (nd_extrinsics nd b)) (\<lambda>exts.
     io_bind (io_lift (find_extrinsic h exts)) (\<lambda>found.
     case found of
       Some ext \<Rightarrow>
         io_bind (ask (nd_extrinsic_events nd b ext)) (\<lambda>evs.
         io_bind (io_lift (from_events (nd_codec nd) evs)) (\<lambda>summary.
         io_ret (Some (Included (bk_hash b) summary))))
     | None \<Rightarrow> scan_blocks nd h ns)))"

text \<open>The range \<open>a..=b\<close> of block numbers.\<close>

definition block_range :: "u64 \<Rightarrow> u64 \<Rightarrow> u64 list" where
  "block_range a b = map of_nat [unat a ..< Suc (unat b)]"

definition mortality_horizon :: "u64 \<Rightarrow> u64 option" where
  "mortality_horizon birth = Option.bind (checked_add birth MORTALITY) (\<lambda>n. checked_add n 1)"

definition chain_find_pending :: "('c, 'k) node \<Rightarrow> pending_tx \<Rightarrow> ('c, error, pending_outcome) io" where
  "chain_find_pending nd p =
     io_bind (best_finalized_number nd) (\<lambda>head.
     io_bind (io_lift (ok_or (ErrChain ''transaction mortality overflow'')
                (mortality_horizon (pd_birth_block p)))) (\<lambda>horizon.
     io_bind (scan_blocks nd (pd_tx_hash p) (block_range (pd_birth_block p) (min head horizon))) (\<lambda>found.
     io_ret (case found of Some x \<Rightarrow> x | None \<Rightarrow> if horizon < head then Dead else Wait))))"

section \<open>The best head\<close>

definition hex_value :: "char \<Rightarrow> nat option" where
  "hex_value c =
     (let b = byte_of c in
      if 48 \<le> b \<and> b \<le> 57 then Some (b - 48)
      else if 65 \<le> b \<and> b \<le> 70 then Some (b - 55)
      else if 97 \<le> b \<and> b \<le> 102 then Some (b - 87) else None)"

text \<open>\<open>u64::from_str_radix(s, 16)\<close>.\<close>

definition u64_from_hex :: "string \<Rightarrow> u64 option" where
  "u64_from_hex s =
     (let t = (case s of c # r \<Rightarrow> if c = CHR ''+'' then r else s | [] \<Rightarrow> []);
          ds = map hex_value t;
          v = foldl (\<lambda>a d. a * 16 + the d) 0 ds
      in if t \<noteq> [] \<and> list_all (\<lambda>d. d \<noteq> None) ds \<and> v < 2 ^ 64 then Some (of_nat v) else None)"

text \<open>The answer of \<open>chain_getHeader\<close> is the text of its number.\<close>

definition best_number :: "('c, string) request \<Rightarrow> ('c, error, u64) io" where
  "best_number get_header =
     io_bind (ask get_header) (\<lambda>number.
     io_lift (ok_or (ErrChain ''bad best header number'') (u64_from_hex (trim_start_0x number))))"

end
