(* ===== verification/Engine_Run.thy ===== *)
theory Engine_Run
  imports Engine_Theorems Chain_Client
begin

text \<open>
  The endless loop of an engine, \<open>Engine::run\<close> of \<open>src/src/engine.rs\<close> over \<open>finalized_blocks\<close> of
  \<open>src/src/chain.rs\<close>, as a step relation: subscribe to finalized blocks, make one pass for every
  block, and after an error or the end of the stream wait and subscribe again.  The loop has no
  end, so it is described by the states it goes through.
\<close>

section \<open>The loop\<close>

text \<open>The subscription: opening it, the next item (none when the stream ends), and waiting.\<close>

record 'c block_stream =
  bs_open :: "('c, unit) request"
  bs_next :: "'c \<Rightarrow> (string + u64) option \<times> 'c"
  bs_sleep :: "u64 \<Rightarrow> 'c \<Rightarrow> 'c"

datatype run_phase = Subscribing | Streaming

definition finalized_blocks :: "'c block_stream \<Rightarrow> ('c, error, unit) io" where
  "finalized_blocks bs = ask (bs_open bs)"

definition next_block :: "'c block_stream \<Rightarrow> ('c, 'd) world \<Rightarrow> u64 res option \<times> ('c, 'd) world" where
  "next_block bs w = (case bs_next bs (w_env w) of (x, c) \<Rightarrow> (map_option (map_err chain_err) x, w\<lparr>w_env := c\<rparr>))"

definition wait3 :: "'c block_stream \<Rightarrow> ('c, 'd) world \<Rightarrow> ('c, 'd) world" where
  "wait3 bs w = w\<lparr>w_env := bs_sleep bs 3 (w_env w)\<rparr>"

inductive run_step ::
    "('c, 'd, 'k) engine \<Rightarrow> 'c block_stream \<Rightarrow> run_phase \<times> ('c, 'd) world \<Rightarrow> run_phase \<times> ('c, 'd) world \<Rightarrow> bool"
  for en bs where
  subscribed: "rpc_do (finalized_blocks bs) w = (Inr (), w') \<Longrightarrow> run_step en bs (Subscribing, w) (Streaming, w')"
| refused: "rpc_do (finalized_blocks bs) w = (Inl e, w') \<Longrightarrow> run_step en bs (Subscribing, w) (Subscribing, wait3 bs w')"
| block: "next_block bs w = (Some (Inr n), w') \<Longrightarrow> run_step en bs (Streaming, w) (Streaming, snd (tick en w'))"
| broken: "next_block bs w = (Some (Inl e), w') \<Longrightarrow> run_step en bs (Streaming, w) (Subscribing, wait3 bs w')"
| finished: "next_block bs w = (None, w') \<Longrightarrow> run_step en bs (Streaming, w) (Subscribing, wait3 bs w')"

inductive_cases run_stepE [elim!]: "run_step en bs s s'"

inductive_simps run_step_iff: "run_step en bs (ph, w) s'"

inductive run_reaches ::
    "('c, 'd, 'k) engine \<Rightarrow> 'c block_stream \<Rightarrow> ('c, 'd) world \<Rightarrow> run_phase \<times> ('c, 'd) world \<Rightarrow> bool"
  for en bs w0 where
  start: "run_reaches en bs w0 (Subscribing, w0)"
| more: "run_reaches en bs w0 s \<Longrightarrow> run_step en bs s s' \<Longrightarrow> run_reaches en bs w0 s'"

section \<open>Facts\<close>

text \<open>The loop never stops and leaves nothing to chance: every state has exactly one next state.\<close>

lemma run_step_total: "\<exists>!s'. run_step en bs s s'"
proof -
  obtain ph w where s: "s = (ph, w)" by (rule prod.exhaust)
  show ?thesis
  proof (cases ph)
    case Subscribing
    obtain x w' where x: "rpc_do (finalized_blocks bs) w = (x, w')" by force
    then show ?thesis by (cases x) (auto simp: s Subscribing run_step_iff)
  next
    case Streaming
    obtain x w' where x: "next_block bs w = (x, w')" by force
    show ?thesis
    proof (cases x)
      case (Some y)
      then show ?thesis using x by (cases y) (auto simp: s Streaming run_step_iff)
    qed (use x in \<open>auto simp: s Streaming run_step_iff\<close>)
  qed
qed

text \<open>What does not concern the outside survives everything but the passes.\<close>

definition ignores_env :: "(('c, 'd) world \<Rightarrow> bool) \<Rightarrow> bool" where
  "ignores_env I \<longleftrightarrow> (\<forall>w c. I w \<longrightarrow> I (w\<lparr>w_env := c\<rparr>))"

lemma run_reaches_invariant:
  assumes "run_reaches en bs w0 s" and "I w0" and "ignores_env I" and "\<And>w. I w \<Longrightarrow> I (snd (tick en w))"
  shows "I (snd s)"
  using assms(1)
proof induction
  case (more s s')
  then show ?case
    using assms(3,4) unfolding ignores_env_def
    by (auto simp: rpc_do_def next_block_def wait3_def case_prod_beta Let_def)
qed (simp add: assms(2))

text \<open>Every state that the loop reaches is safe: whatever was handed to the network was journaled,
  and every stored record is well formed.\<close>

lemma run_reaches_safe:
  assumes "client_ok (sqlite_ops cr) cr (en_client en)" and "run_reaches en bs (start_world c) s"
  shows "sqlite_safe cr (snd s)"
proof (rule run_reaches_invariant [where I = "sqlite_safe cr", OF assms(2) start_world_safe])
  show "ignores_env (sqlite_safe cr)"
    by (simp add: ignores_env_def engine_safe_def protocol_safe_def)
  show "sqlite_safe cr (snd (tick en w))" if "sqlite_safe cr w" for w
    using run_call_safe [OF assms(1) that, of CallTick] by simp
qed

end
