(* ===== verification/Engine_Wallets.thy ===== *)
theory Engine_Wallets
  imports Engine Journal_Outcomes
begin

text \<open>
  The deposit wallets of new payments: what \<open>create_payment\<close> seals and stores opens again to the
  wallet whose address was handed out, under every later keyring that keeps the key.
\<close>

section \<open>What the libraries promise\<close>

text \<open>Documented behaviour of BIP39: a generated phrase is text, and not of 32 bytes.\<close>

definition phrases_ok :: "'k crypto \<Rightarrow> bool" where
  "phrases_ok cr \<longleftrightarrow>
     (\<forall>e s. cr_mnemonic_of_entropy cr e = Inr s \<longrightarrow> utf8_valid (bytes_of s) \<and> length s \<noteq> 32)"

text \<open>The random generator fills the buffer it is given.\<close>

definition random_ok :: "('c, 'k) rpc \<Rightarrow> bool" where
  "random_ok rp \<longleftrightarrow> (\<forall>n c. length (fst (rp_random rp n c)) = n)"

section \<open>Sealed wallets\<close>

lemma wallet_generate_secret:
  assumes "phrases_ok cr" and "wallet_generate cr e = Inr w"
  shows "wallet_from_secret_bytes cr (wl_secret w) = Inr w"
  using assms
  by (auto simp: wallet_generate_def wallet_from_phrase_def wallet_from_secret_bytes_def phrases_ok_def from_utf8_def
      result_simps bytes_of_def [symmetric]) (simp_all add: bytes_of_def)

lemma wallet_seal_recovers:
  assumes "aead_correct cr" and "hex_correct cr" and "length nonce = 24"
    and "wallet_seal_with cr w kr nonce aad = Inr s"
    and "wallet_from_secret_bytes cr (wl_secret w) = Inr w"
    and "map_of (kr_keys kr') (kr_active kr) = map_of (kr_keys kr) (kr_active kr)"
  shows "wallet_unseal_with cr kr' s aad = Inr w"
  using keyring_roundtrip [OF assms(1-3) _ assms(6)] assms(4,5)
  by (simp add: wallet_unseal_with_def wallet_seal_with_def)

lemma db_insert_stores:
  assumes "cl_store cl = sqlite_ops cr" and "st_insert cl r w = (Inr u, w')"
  shows "db_content (w_db w') (r_id r) = Some r"
  using assms insert_content_sqlite
  by (auto simp: st_insert_def db_do_def case_prod_beta Let_def) (metis fun_upd_same prod.collapse)

lemma random_do_length:
  assumes "random_ok (cl_rpc cl)" and "random_do cl n w = (Inr b, w')"
  shows "length b = n"
  using assms by (auto simp: random_ok_def random_do_def rpc_do_def case_prod_beta Let_def)

section \<open>Property\<close>

text \<open>C17: no payment request is handed out whose deposit could not be swept.  When \<open>create_payment\<close>
  returns, the record is stored as pending with the address, minimum and expiry of the request
  and the identity of the engine, and from the stored record the engine recovers a wallet that
  controls exactly that address, also after the keyring was extended or its active key changed,
  as long as the sealing key is kept.\<close>

theorem created_wallet_recoverable:
  assumes "aead_correct (en_crypto en)" and "hex_correct (en_crypto en)" and "phrases_ok (en_crypto en)"
    and "random_ok (en_rpc en)"
    and "cl_store (en_client en) = sqlite_ops cr"
    and "create_payment en opts w = (Inr req, w')"
    and "map_of (kr_keys kr) (kr_active (en_keyring en)) = map_of (kr_keys (en_keyring en)) (kr_active (en_keyring en))"
  shows "\<exists>r wallet. db_content (w_db w') (pr_id req) = Some r \<and> r_state r = Pending \<and> r_address r = pr_address req \<and>
     r_min_alpha r = pr_min_alpha req \<and> r_expires_at r = pr_expires_at req \<and> r_identity r = Some (job_identity_of en) \<and>
     wallet_of (en\<lparr>en_keyring := kr\<rparr>) r = Inr wallet \<and>
     ss58 (en_crypto en) (wallet_account_id (en_crypto en) wallet) = pr_address req"
proof -
  let ?cl = "en_client en" and ?cr = "en_crypto en"
  obtain entropy wa w1 w2 i nonce sealed t w3 w4 w5 where
    g: "wallet_generate ?cr entropy = Inr wa"
    and n: "random_do ?cl 24 w1 = (Inr nonce, w2)"
    and s: "wallet_seal_with ?cr wa (en_keyring en) nonce (wallet_aad i (ss58 ?cr (wallet_account_id ?cr wa))) = Inr sealed"
    and ins: "st_insert ?cl (payment_record_of en opts i (ss58 ?cr (wallet_account_id ?cr wa)) sealed t) w3 = (Inr (), w')"
    and req: "pr_id req = i" "pr_address req = ss58 ?cr (wallet_account_id ?cr wa)"
      "pr_min_alpha req = r_min_alpha (payment_record_of en opts i (ss58 ?cr (wallet_account_id ?cr wa)) sealed t)"
      "pr_expires_at req = r_expires_at (payment_record_of en opts i (ss58 ?cr (wallet_account_id ?cr wa)) sealed t)"
    using assms(6)
    by (auto simp: create_payment_def Let_def result_simps io_lift_def io_ret_def)
  let ?r = "payment_record_of en opts i (ss58 ?cr (wallet_account_id ?cr wa)) sealed t"
  have "length nonce = 24" using random_do_length [OF _ n] assms(4) by (simp add: en_rpc_def)
  then have "wallet_unseal_with ?cr kr sealed (wallet_aad i (ss58 ?cr (wallet_account_id ?cr wa))) = Inr wa"
    using wallet_seal_recovers [OF assms(1,2) _ s wallet_generate_secret [OF assms(3) g] assms(7)] by simp
  then have "wallet_of (en\<lparr>en_keyring := kr\<rparr>) ?r = Inr wa"
    by (simp add: wallet_of_def payment_record_of_def new_record_def en_crypto_def Let_def)
  moreover have "db_content (w_db w') i = Some ?r"
    using db_insert_stores [OF assms(5) ins] by (simp add: payment_record_of_def new_record_def)
  ultimately show ?thesis
    using req by (auto simp: payment_record_of_def new_record_def)
qed
section \<open>Witness\<close>

definition phrase_crypto :: "account_id crypto" where
  "phrase_crypto = plain_crypto\<lparr>cr_mnemonic_of_entropy := (\<lambda>e. Inr (replicate 40 CHR ''w''))\<rparr>"

definition wallet_engine :: "(nat, sqlite_db, account_id) engine" where
  "wallet_engine = engine_new \<lparr>cl_rpc = demo_rpc Wait, cl_store = sqlite_ops phrase_crypto, cl_crypto = phrase_crypto\<rparr>
     (keyring_of_master [1]) [2] (config_new ''ws://127.0.0.1:9944'' 1 [3])"

definition rotated :: keyring where
  "rotated = \<lparr>kr_active = ''k1'', kr_keys = [(''k1'', [9]), (''k0'', [1])]\<rparr>"

lemma phrase_crypto_ok:
  "aead_correct phrase_crypto" "hex_correct phrase_crypto" "phrases_ok phrase_crypto" "random_ok (demo_rpc v)"
proof -
  have "utf8_valid (bytes_of (replicate 40 CHR ''w''))"
    by (rule utf8_ascii) (simp add: bytes_of_def byte_of_def list_all_length)
  then show "phrases_ok phrase_crypto" by (simp add: phrases_ok_def phrase_crypto_def)
qed (use plain_crypto_correct in
      \<open>simp_all add: phrase_crypto_def aead_correct_def hex_correct_def random_ok_def demo_rpc_def\<close>)

lemma wallet_engine_simps [simp]:
  "en_crypto wallet_engine = phrase_crypto" "en_rpc wallet_engine = demo_rpc Wait"
  "cl_store (en_client wallet_engine) = sqlite_ops phrase_crypto" "en_keyring wallet_engine = keyring_of_master [1]"
  by (simp_all add: wallet_engine_def engine_new_def en_crypto_def en_rpc_def)

lemma wallet_engine_creates:
  "\<exists>req w'. create_payment wallet_engine \<lparr>cp_min_alpha = None, cp_expiry_secs = None, cp_metadata = None,
     cp_callback_url = None\<rparr> (demo_world empty_db) = (Inr req, w')"
  by (simp add: create_payment_def io_simps call_defs wallet_engine_def engine_new_def en_crypto_def demo_rpc_def
      empty_db_def sqlite_defs sqlite_require_signing_def phrase_crypto_def plain_crypto_def wallet_generate_def wallet_from_phrase_def wallet_seal_with_def
      keyring_seal_def keyring_of_master_def master_seal_def check_policy_def payment_record_of_def new_record_def
      config_new_def map_err_def Let_def)

theorem created_wallet_recoverable_witness:
  "\<exists>req w' r wallet. create_payment wallet_engine \<lparr>cp_min_alpha = None, cp_expiry_secs = None, cp_metadata = None,
     cp_callback_url = None\<rparr> (demo_world empty_db) = (Inr req, w') \<and>
     db_content (w_db w') (pr_id req) = Some r \<and> wallet_of (wallet_engine\<lparr>en_keyring := rotated\<rparr>) r = Inr wallet \<and>
     ss58 phrase_crypto (wallet_account_id phrase_crypto wallet) = pr_address req"
proof -
  obtain req w' where c: "create_payment wallet_engine \<lparr>cp_min_alpha = None, cp_expiry_secs = None, cp_metadata = None,
     cp_callback_url = None\<rparr> (demo_world empty_db) = (Inr req, w')" using wallet_engine_creates by blast
  have "map_of (kr_keys rotated) (kr_active (en_keyring wallet_engine)) =
      map_of (kr_keys (en_keyring wallet_engine)) (kr_active (en_keyring wallet_engine))"
    by (simp add: rotated_def keyring_of_master_def DEFAULT_KEY_ID_def)
  with created_wallet_recoverable [OF _ _ _ _ _ c, of phrase_crypto rotated] show ?thesis
    using c phrase_crypto_ok by auto
qed

end
