(* ===== verification/Chain_Verdict.thy ===== *)
theory Chain_Verdict
  imports Chain_Client
begin

text \<open>
  What the answers of the client mean, for a node that answers reads of finalized blocks from one
  chain (\<open>finalized_chain\<close>): the verdict on a journaled transaction, the summary of events against
  a reference definition, and what the metadata check guarantees for the calls of the crate.
\<close>

section \<open>What the node answers\<close>

record chain_block =
  cb_hash :: string
  cb_extrinsics :: "extrinsic list"
  cb_events :: "extrinsic \<Rightarrow> chain_event list"

text \<open>Every item of an answer is the expected one or a decoding error.\<close>

definition answers :: "('e + 'a) list \<Rightarrow> 'a list \<Rightarrow> bool" where
  "answers xs ys \<longleftrightarrow> list_all2 (\<lambda>x y. x = Inr y \<or> (\<exists>m. x = Inl m)) xs ys"

text \<open>The documented behaviour of a node: requests may fail, but those about finalized blocks are
  answered from one and the same chain.\<close>

definition finalized_chain :: "('c, 'k) node \<Rightarrow> (u64 \<Rightarrow> chain_block) \<Rightarrow> bool" where
  "finalized_chain nd ch \<longleftrightarrow>
     (\<forall>n c b c'. nd_at_block nd n c = (Inr b, c') \<longrightarrow> bk_number b = n \<and> bk_hash b = cb_hash (ch n)) \<and>
     (\<forall>b c xs c'. nd_extrinsics nd b c = (Inr xs, c') \<longrightarrow> answers xs (cb_extrinsics (ch (bk_number b)))) \<and>
     (\<forall>b e c evs c'. nd_extrinsic_events nd b e c = (Inr evs, c') \<longrightarrow>
        answers evs (cb_events (ch (bk_number b)) e))"

text \<open>The transaction with a hash is on the chain in block \<open>n\<close>.\<close>

definition included_at :: "(u64 \<Rightarrow> chain_block) \<Rightarrow> string \<Rightarrow> u64 \<Rightarrow> bool" where
  "included_at ch h n \<longleftrightarrow> h \<in> xt_hash ` set (cb_extrinsics (ch n))"

lemma ask_Inr_iff [result_simps]: "ask f c = (Inr x, c') \<longleftrightarrow> f c = (Inr x, c')"
  by (auto simp: ask_def ask_with_def map_err_def split: prod.splits sum.splits)

lemma io_lift_Inr_iff [result_simps]: "io_lift r w = (Inr x, w') \<longleftrightarrow> r = Inr x \<and> w' = w"
  by (auto simp: io_lift_def)

lemma io_ret_iff [result_simps]: "io_ret x w = (Inr y, w') \<longleftrightarrow> y = x \<and> w' = w"
  by (auto simp: io_ret_def)

lemma finalized_chainD:
  assumes "finalized_chain nd ch"
  shows "nd_at_block nd n c = (Inr b, c') \<Longrightarrow> bk_number b = n \<and> bk_hash b = cb_hash (ch n)"
    and "nd_extrinsics nd b c = (Inr xs, c') \<Longrightarrow> answers xs (cb_extrinsics (ch (bk_number b)))"
    and "nd_extrinsic_events nd b e c = (Inr evs, c') \<Longrightarrow> answers evs (cb_events (ch (bk_number b)) e)"
  using assms unfolding finalized_chain_def by blast+

lemma answers_simps [simp]:
  "answers [] ys \<longleftrightarrow> ys = []" "answers (x # xs) (y # ys) \<longleftrightarrow> (x = Inr y \<or> (\<exists>m. x = Inl m)) \<and> answers xs ys"
  "answers (x # xs) [] \<longleftrightarrow> False"
  by (auto simp: answers_def)

lemma answers_map [simp]: "answers (map Inr ys) ys"
  by (simp add: answers_def list.rel_map list.rel_refl)

lemma answers_ConsE:
  assumes "answers (x # xs) zs"
  obtains y ys where "zs = y # ys" "x = Inr y \<or> (\<exists>m. x = Inl m)" "answers xs ys"
  using assms by (cases zs) auto

lemma find_extrinsic_find:
  "answers xs ys \<Longrightarrow> find_extrinsic h xs = Inr f \<Longrightarrow> f = find (\<lambda>e. xt_hash e = h) ys"
proof (induction xs arbitrary: ys)
  case (Cons x xs)
  then show ?case by (elim answers_ConsE) (auto simp: result_simps split: if_splits)
qed simp

lemma from_events_answers:
  "answers evs ys \<Longrightarrow> from_events dc evs = Inr s \<Longrightarrow> evs = map Inr ys"
proof -
  have "fold_result (add_event dc) evs a = Inr s \<Longrightarrow> answers evs ys \<Longrightarrow> evs = map Inr ys" for a
  proof (induction evs arbitrary: ys a)
    case (Cons x xs)
    then obtain y zs where z: "ys = y # zs" "x = Inr y \<or> (\<exists>m. x = Inl m)" "answers xs zs"
      by (auto elim: answers_ConsE)
    then have "x = Inr y" using Cons.prems(1) by (auto simp: add_event_def)
    then show ?case using z Cons by (auto simp: result_simps)
  qed simp
  then show "answers evs ys \<Longrightarrow> from_events dc evs = Inr s \<Longrightarrow> evs = map Inr ys"
    by (simp add: from_events_def)
qed

lemma set_block_range: "n \<in> set (block_range a b) \<longleftrightarrow> a \<le> n \<and> n \<le> b"
proof -
  have "n \<in> set (block_range a b) \<longleftrightarrow> unat a \<le> unat n \<and> unat n \<le> unat b"
  proof
    assume "n \<in> set (block_range a b)"
    then obtain k where "n = of_nat k" "unat a \<le> k" "k \<le> unat b" by (auto simp: block_range_def)
    moreover have "k < 2 ^ 64" by (rule le_less_trans [OF \<open>k \<le> unat b\<close>]) simp
    ultimately show "unat a \<le> unat n \<and> unat n \<le> unat b" by (simp add: unat_of_nat_u64)
  next
    assume "unat a \<le> unat n \<and> unat n \<le> unat b"
    then show "n \<in> set (block_range a b)"
      unfolding block_range_def set_map by (intro image_eqI [of _ _ "unat n"]) auto
  qed
  then show ?thesis by (simp add: word_le_nat_alt)
qed

lemma scan_blocks_sound:
  assumes "finalized_chain nd ch" and "scan_blocks nd h ns c = (Inr x, c')"
  shows "case x of
      None \<Rightarrow> \<forall>n \<in> set ns. \<not> included_at ch h n
    | Some y \<Rightarrow> \<exists>n \<in> set ns. \<exists>e s. find (\<lambda>e. xt_hash e = h) (cb_extrinsics (ch n)) = Some e \<and>
        from_events (nd_codec nd) (map Inr (cb_events (ch n) e)) = Inr s \<and> y = Included (cb_hash (ch n)) s"
  using assms(2)
proof (induction ns arbitrary: c)
  case (Cons n ns)
  obtain b c1 xs c2 f where r: "nd_at_block nd n c = (Inr b, c1)" "nd_extrinsics nd b c1 = (Inr xs, c2)"
    "find_extrinsic h xs = Inr f"
    and rest: "(case f of
       Some ext \<Rightarrow>
         io_bind (ask (nd_extrinsic_events nd b ext)) (\<lambda>evs.
         io_bind (io_lift (from_events (nd_codec nd) evs)) (\<lambda>summary.
         io_ret (Some (Included (bk_hash b) summary))))
     | None \<Rightarrow> scan_blocks nd h ns) c2 = (Inr x, c')"
    using Cons.prems by (auto simp: result_simps)
  have b: "bk_number b = n" "bk_hash b = cb_hash (ch n)" using finalized_chainD(1) [OF assms(1) r(1)] by auto
  have f: "f = find (\<lambda>e. xt_hash e = h) (cb_extrinsics (ch n))"
    using find_extrinsic_find [OF finalized_chainD(2) [OF assms(1) r(2)] r(3)] b by simp
  show ?case
  proof (cases f)
    case None
    then have "\<not> included_at ch h n" using f by (auto simp: included_at_def find_None_iff)
    then show ?thesis using Cons.IH rest None by (force split: option.splits)
  next
    case (Some e)
    then obtain evs s c3 where e: "nd_extrinsic_events nd b e c2 = (Inr evs, c3)"
      "from_events (nd_codec nd) evs = Inr s" "x = Some (Included (bk_hash b) s)"
      using rest by (auto simp: result_simps)
    then show ?thesis
      using from_events_answers [OF finalized_chainD(3) [OF assms(1) e(1)] e(2)] Some f b by auto
  qed
qed (simp add: result_simps)

lemma mortality_horizon_Some:
  "mortality_horizon b = Some h \<Longrightarrow> unat h = unat b + 65"
  by (auto simp: mortality_horizon_def MORTALITY_def dest!: checked_add_SomeD split: Option.bind_splits)


section \<open>Reference definitions\<close>

text \<open>The summary of a list of events, field by field: the last event of a kind decides, transfers
  are added up.\<close>

definition is_event :: "string \<Rightarrow> string list \<Rightarrow> chain_event \<Rightarrow> bool" where
  "is_event p ns e \<longleftrightarrow> ev_pallet e = p \<and> ev_name e \<in> set ns"

definition last_of :: "('a \<Rightarrow> bool) \<Rightarrow> ('a \<Rightarrow> 'b) \<Rightarrow> 'a list \<Rightarrow> 'b option" where
  "last_of P g xs = (case filter P xs of [] \<Rightarrow> None | ys \<Rightarrow> Some (g (last ys)))"

definition fields_ok :: "codec \<Rightarrow> chain_event \<Rightarrow> bool" where
  "fields_ok dc e \<longleftrightarrow>
     (is_event PALLET [''StakeAdded''] e \<longrightarrow> is_ok (dc_stake_added dc e)) \<and>
     (is_event PALLET [''AlphaBurned'', ''AlphaRecycled''] e \<longrightarrow> is_ok (dc_destroyed dc e)) \<and>
     (is_event PALLET [''StakeTransferred''] e \<longrightarrow> is_ok (dc_transferred dc e)) \<and>
     (is_event PALLET [''StakeMoved''] e \<longrightarrow> is_ok (dc_moved dc e)) \<and>
     (is_event ''Balances'' [''Transfer''] e \<longrightarrow> is_ok (dc_balance dc e))"

definition transfer_amount :: "codec \<Rightarrow> chain_event \<Rightarrow> u64" where
  "transfer_amount dc e = snd (snd (projr (dc_balance dc e)))"

definition moved_tao :: "codec \<Rightarrow> chain_event \<Rightarrow> u64" where
  "moved_tao dc e =
     (if ev_name e = ''StakeMoved'' then snd (snd (snd (snd (snd (projr (dc_moved dc e))))))
      else snd (snd (snd (snd (snd (projr (dc_transferred dc e)))))))"

definition summary_of :: "codec \<Rightarrow> chain_event list \<Rightarrow> event_summary" where
  "summary_of dc evs =
     \<lparr>es_names = map (\<lambda>e. (ev_pallet e, ev_name e)) evs,
      es_failed = list_ex (is_event ''System'' [''ExtrinsicFailed'']) evs,
      es_stake_added = last_of (is_event PALLET [''StakeAdded''])
        (\<lambda>e. case projr (dc_stake_added dc e) of (_, _, tao, alpha, _, _) \<Rightarrow> (tao, alpha)) evs,
      es_alpha_destroyed = last_of (is_event PALLET [''AlphaBurned'', ''AlphaRecycled''])
        (\<lambda>e. case projr (dc_destroyed dc e) of (_, _, amount, _) \<Rightarrow> amount) evs,
      es_stake_moved_tao = last_of (is_event PALLET [''StakeTransferred'', ''StakeMoved'']) (moved_tao dc) evs,
      es_transferred = (let ts = filter (is_event ''Balances'' [''Transfer'']) evs in
        if ts = [] then None else Some (sum_list (map (transfer_amount dc) ts)))\<rparr>"

lemma last_of_snoc: "last_of P g (xs @ [x]) = (if P x then Some (g x) else last_of P g xs)"
  by (cases "filter P xs") (auto simp: last_of_def)

lemma add_event_summary:
  "add_event dc (Inr e) (summary_of dc evs) = Inr s \<longleftrightarrow> fields_ok dc e \<and> s = summary_of dc (evs @ [e])"
proof -
  note defs = add_event_def fields_ok_def is_event_def summary_of_def last_of_snoc Let_def PALLET_def
    transfer_amount_def moved_tao_def
  consider (failed) "ev_pallet e = ''System'' \<and> ev_name e = ''ExtrinsicFailed''"
    | (added) "ev_pallet e = PALLET \<and> ev_name e = ''StakeAdded''"
    | (destroyed) "ev_pallet e = PALLET \<and> (ev_name e = ''AlphaBurned'' \<or> ev_name e = ''AlphaRecycled'')"
    | (transferred) "ev_pallet e = PALLET \<and> ev_name e = ''StakeTransferred''"
    | (moved) "ev_pallet e = PALLET \<and> ev_name e = ''StakeMoved''"
    | (balance) "ev_pallet e = ''Balances'' \<and> ev_name e = ''Transfer''"
    | (other) "\<not> is_event ''System'' [''ExtrinsicFailed''] e"
      "\<not> is_event PALLET [''StakeAdded'', ''AlphaBurned'', ''AlphaRecycled'', ''StakeTransferred'', ''StakeMoved''] e"
      "\<not> is_event ''Balances'' [''Transfer''] e"
    unfolding is_event_def by auto
  then show ?thesis
  proof cases
    case failed
    then show ?thesis by (auto simp: defs)
  next
    case added
    then show ?thesis by (cases "dc_stake_added dc e") (auto simp: defs)
  next
    case destroyed
    then show ?thesis by (cases "dc_destroyed dc e") (auto simp: defs)
  next
    case transferred
    then show ?thesis by (cases "dc_transferred dc e") (auto simp: defs)
  next
    case moved
    then show ?thesis by (cases "dc_moved dc e") (auto simp: defs)
  next
    case balance
    then show ?thesis by (cases "dc_balance dc e") (auto simp: defs)
  next
    case other
    then have ok: "fields_ok dc e" unfolding fields_ok_def is_event_def by auto
    have add: "add_event dc (Inr e) a = Inr (a\<lparr>es_names := es_names a @ [(ev_pallet e, ev_name e)]\<rparr>)" for a
      using other unfolding is_event_def by (auto simp: add_event_def Let_def)
    have "summary_of dc (evs @ [e]) =
        (summary_of dc evs)\<lparr>es_names := es_names (summary_of dc evs) @ [(ev_pallet e, ev_name e)]\<rparr>"
      using other unfolding is_event_def by (auto simp: summary_of_def last_of_snoc is_event_def)
    then show ?thesis using ok add by auto
  qed
qed

lemma from_events_summary_of:
  "from_events dc (map Inr evs) = Inr s \<longleftrightarrow> list_all (fields_ok dc) evs \<and> s = summary_of dc evs"
proof (induction evs arbitrary: s rule: rev_induct)
  case Nil
  then show ?case
    by (auto simp: from_events_def summary_of_def empty_summary_def last_of_def)
next
  case (snoc e evs)
  have "from_events dc (map Inr (evs @ [e])) =
      and_then (from_events dc (map Inr evs)) (add_event dc (Inr e))"
    by (simp add: from_events_def fold_result_append and_then_def split: sum.splits)
  then show ?case using snoc add_event_summary by (auto simp: result_simps)
qed

lemma find_Some_mem: "find P xs = Some x \<Longrightarrow> x \<in> set xs \<and> P x"
  by (auto simp: find_Some_iff)

lemma verify_calls_all:
  assumes "fold_result (verify_call md) rs out = Inr out'" and "(pal, cn, args) \<in> set rs"
  shows "\<exists>p v. map_of (md_pallets md) pal = Some p \<and> map_of (pm_calls p) cn = Some v \<and>
           List.map_filter id (cv_fields v) = args"
  using assms
  by (induction rs arbitrary: out)
    (auto simp: verify_call_def pallet_by_name_def Let_def result_simps split: if_splits)

lemma verify_events_all:
  assumes "fold_result (verify_event md) rs out = Inr out'" and "(pal, en) \<in> set rs"
  shows "\<exists>q evs i. map_of (md_pallets md) pal = Some q \<and> pm_events q = Some evs \<and> (en, i) \<in> set evs"
  using assms
proof (induction rs arbitrary: out)
  case (Cons r rs)
  obtain o1 where o1: "verify_event md r out = Inr o1" "fold_result (verify_event md) rs o1 = Inr out'"
    using Cons.prems(1) by (auto simp: result_simps)
  show ?case
  proof (cases "(pal, en) = r")
    case True
    then show ?thesis
      using o1(1) by (fastforce simp: verify_event_def pallet_by_name_def result_simps bind_eq_Some_conv
          dest!: find_Some_mem)
  next
    case False
    then show ?thesis using Cons.IH [OF o1(2)] Cons.prems(2) by auto
  qed
qed simp

section \<open>Properties\<close>

lemma find_pending_sound:
  assumes "finalized_chain nd ch" and "chain_find_pending nd p c = (Inr x, c')"
  shows "\<exists>head c1. nd_current nd c = (Inr head, c1) \<and> (case x of
      Included h s \<Rightarrow> \<exists>n e. pd_birth_block p \<le> n \<and> n \<le> bk_number head \<and> unat n \<le> unat (pd_birth_block p) + 65 \<and>
        find (\<lambda>e. xt_hash e = pd_tx_hash p) (cb_extrinsics (ch n)) = Some e \<and>
        h = cb_hash (ch n) \<and> from_events (nd_codec nd) (map Inr (cb_events (ch n) e)) = Inr s
    | Dead \<Rightarrow> unat (pd_birth_block p) + 65 < unat (bk_number head) \<and>
        (\<forall>n. pd_birth_block p \<le> n \<longrightarrow> unat n \<le> unat (pd_birth_block p) + 65 \<longrightarrow> \<not> included_at ch (pd_tx_hash p) n)
    | Wait \<Rightarrow> unat (bk_number head) \<le> unat (pd_birth_block p) + 65 \<and>
        (\<forall>n. pd_birth_block p \<le> n \<longrightarrow> n \<le> bk_number head \<longrightarrow> \<not> included_at ch (pd_tx_hash p) n))"
proof -
  obtain b c1 hz found c2 where f: "nd_current nd c = (Inr b, c1)" "mortality_horizon (pd_birth_block p) = Some hz"
    "scan_blocks nd (pd_tx_hash p) (block_range (pd_birth_block p) (min (bk_number b) hz)) c1 = (Inr found, c2)"
    "x = (case found of Some y \<Rightarrow> y | None \<Rightarrow> if hz < bk_number b then Dead else Wait)"
    using assms(2) by (auto simp: chain_find_pending_def best_finalized_number_def result_simps)
  have hz: "unat hz = unat (pd_birth_block p) + 65" using mortality_horizon_Some [OF f(2)] .
  note scan = scan_blocks_sound [OF assms(1) f(3)]
  show ?thesis
  proof (cases found)
    case None
    then have none: "pd_birth_block p \<le> n \<Longrightarrow> n \<le> bk_number b \<Longrightarrow> n \<le> hz \<Longrightarrow> \<not> included_at ch (pd_tx_hash p) n" for n
      using scan by (auto simp: set_block_range)
    show ?thesis
      using None f(1,4) none hz by (auto simp: word_less_nat_alt word_le_nat_alt)
  next
    case (Some y)
    then obtain n e s where n: "n \<in> set (block_range (pd_birth_block p) (min (bk_number b) hz))"
      "find (\<lambda>e. xt_hash e = pd_tx_hash p) (cb_extrinsics (ch n)) = Some e"
      "from_events (nd_codec nd) (map Inr (cb_events (ch n) e)) = Inr s" "y = Included (cb_hash (ch n)) s"
      using scan by auto
    then have "pd_birth_block p \<le> n" "n \<le> bk_number b" "unat n \<le> unat (pd_birth_block p) + 65"
      using hz by (simp_all add: set_block_range word_le_nat_alt unat_min_word)
    then show ?thesis using Some f(1,4) n by auto
  qed
qed

text \<open>C32: decoding the events of an extrinsic succeeds exactly when every event it looks into is
  decodable, and then the summary is the reference one: all names in order, whether the extrinsic
  failed, the amounts of the last event of each kind, and the sum of all transfers.\<close>

theorem from_events_reference:
  "from_events dc items = Inr s \<longleftrightarrow>
   (\<exists>evs. items = map Inr evs \<and> list_all (fields_ok dc) evs \<and> s = summary_of dc evs)"
proof
  assume s: "from_events dc items = Inr s"
  have "answers items (map projr items)" by (induction items) (auto, metis sum.exhaust_sel)
  then show "\<exists>evs. items = map Inr evs \<and> list_all (fields_ok dc) evs \<and> s = summary_of dc evs"
    using s from_events_answers from_events_summary_of by metis
qed (auto simp: from_events_summary_of)

text \<open>C13: the verdict on a journaled transaction is what the finalized chain says.  \<open>Included\<close> names
  the block that holds the transaction, at or after its birth, with the summary of its events;
  \<open>Dead\<close> is answered only when the head is beyond the horizon of 65 blocks and none of the
  blocks up to the horizon holds it; \<open>Wait\<close> only up to the horizon and when no block so far
  holds it.\<close>

theorem find_pending_verdict:
  assumes "finalized_chain nd ch" and "chain_find_pending nd p c = (Inr x, c')"
  shows "\<exists>head c1. nd_current nd c = (Inr head, c1) \<and> (case x of
      Included h s \<Rightarrow> \<exists>n e. pd_birth_block p \<le> n \<and> n \<le> bk_number head \<and> unat n \<le> unat (pd_birth_block p) + 65 \<and>
        find (\<lambda>e. xt_hash e = pd_tx_hash p) (cb_extrinsics (ch n)) = Some e \<and>
        h = cb_hash (ch n) \<and> from_events (nd_codec nd) (map Inr (cb_events (ch n) e)) = Inr s
    | Dead \<Rightarrow> unat (pd_birth_block p) + 65 < unat (bk_number head) \<and>
        (\<forall>n. pd_birth_block p \<le> n \<longrightarrow> unat n \<le> unat (pd_birth_block p) + 65 \<longrightarrow> \<not> included_at ch (pd_tx_hash p) n)
    | Wait \<Rightarrow> unat (bk_number head) \<le> unat (pd_birth_block p) + 65 \<and>
        (\<forall>n. pd_birth_block p \<le> n \<longrightarrow> n \<le> bk_number head \<longrightarrow> \<not> included_at ch (pd_tx_hash p) n))"
  using assms by (rule find_pending_sound)

text \<open>C33: a runtime that passed the metadata check can take every call of the crate: the pallet
  has the call under the name of the payload, with as many named arguments as the payload has
  values, and the event the client waits for exists (association waits for none).\<close>

theorem verify_metadata_covers_calls:
  assumes "verify_metadata nd c = (Inr out, c')"
  shows "\<exists>b p v. fst (nd_current nd c) = Inr b \<and>
     map_of (md_pallets (nd_metadata nd b)) (fst (payload call)) = Some p \<and>
     map_of (pm_calls p) (fst (snd (payload call))) = Some v \<and>
     length (List.map_filter id (cv_fields v)) = length (snd (snd (payload call))) \<and>
     ((\<exists>h. call = AssociateHotkey h) \<or>
      (\<exists>q evs i. map_of (md_pallets (nd_metadata nd b)) (fst (expected_event call)) = Some q \<and>
         pm_events q = Some evs \<and> (snd (expected_event call), i) \<in> set evs))"
proof -
  obtain b where b: "fst (nd_current nd c) = Inr b" "verify_against (nd_metadata nd b) = Inr out"
    using assms by (auto simp: verify_metadata_def result_simps)
  let ?md = "nd_metadata nd b"
  have calls: "\<exists>p v. map_of (md_pallets ?md) pal = Some p \<and> map_of (pm_calls p) cn = Some v \<and>
      List.map_filter id (cv_fields v) = args" if "(pal, cn, args) \<in> set REQUIRED_CALLS" for pal cn args
    using b(2) that verify_calls_all unfolding verify_against_def by (force simp: result_simps)
  have events: "\<exists>q evs i. map_of (md_pallets ?md) pal = Some q \<and> pm_events q = Some evs \<and> (en, i) \<in> set evs"
    if "(pal, en) \<in> set REQUIRED_EVENTS" for pal en
    using b(2) that verify_events_all unfolding verify_against_def by (force simp: result_simps)
  have "\<exists>args. (fst (payload call), fst (snd (payload call)), args) \<in> set REQUIRED_CALLS \<and>
      length args = length (snd (snd (payload call)))"
    by (cases call) (simp_all add: REQUIRED_CALLS_def PALLET_def)
  moreover have "(\<exists>h. call = AssociateHotkey h) \<or> expected_event call \<in> set REQUIRED_EVENTS"
    by (cases call) (simp_all add: REQUIRED_EVENTS_def PALLET_def)
  ultimately show ?thesis using b(1) calls events by (metis surjective_pairing)
qed

section \<open>Witnesses\<close>

text \<open>A node on a small chain: block 12 holds one extrinsic, which moved 7 rao.\<close>

definition demo_codec :: codec where
  "demo_codec = \<lparr>dc_stake_added = (\<lambda>_. Inr ([1], [2], 5, 6, 1, 0)), dc_destroyed = (\<lambda>_. Inr ([1], [2], 6, 1)),
     dc_transferred = (\<lambda>_. Inr ([1], [2], [3], 1, 1, 5)), dc_moved = (\<lambda>_. Inr ([1], [2], 1, [3], 1, 5)),
     dc_balance = (\<lambda>_. Inr ([1], [2], 7))\<rparr>"

definition demo_event :: chain_event where
  "demo_event = \<lparr>ev_phase = ApplyExtrinsic 0, ev_index = 0, ev_pallet = ''Balances'', ev_name = ''Transfer'',
     ev_bytes = []\<rparr>"

definition demo_extrinsic :: extrinsic where
  "demo_extrinsic = \<lparr>xt_index = 0, xt_hash = ''0x1'', xt_address = Some (0 # replicate 32 2), xt_nonce = Some 4,
     xt_call_data = [9]\<rparr>"

definition demo_chain :: "u64 \<Rightarrow> chain_block" where
  "demo_chain n = \<lparr>cb_hash = ''0xb'', cb_extrinsics = (if n = 12 then [demo_extrinsic] else []),
     cb_events = (\<lambda>_. [demo_event])\<rparr>"

definition demo_metadata :: metadata where
  "demo_metadata = \<lparr>md_spec_version = 1, md_pallets =
     map (\<lambda>p. (p, \<lparr>pm_calls = map (\<lambda>(_, n, args). (n, \<lparr>cv_index = 3, cv_fields = map Some args\<rparr>))
                              (filter (\<lambda>x. fst x = p) REQUIRED_CALLS),
                 pm_events = Some (map (\<lambda>(_, n). (n, 4)) REQUIRED_EVENTS)\<rparr>))
       [''Balances'', PALLET]\<rparr>"

definition demo_node :: "u64 \<Rightarrow> (nat, account_id) node" where
  "demo_node head =
     \<lparr>nd_codec = demo_codec, nd_genesis_hash = ''0xg'',
      nd_current = (\<lambda>c. (Inr \<lparr>bk_number = head, bk_hash = ''0xb''\<rparr>, c)),
      nd_at_block = (\<lambda>n c. (Inr \<lparr>bk_number = n, bk_hash = ''0xb''\<rparr>, c)),
      nd_metadata = (\<lambda>_. demo_metadata),
      nd_extrinsics = (\<lambda>b c. (Inr (map Inr (cb_extrinsics (demo_chain (bk_number b)))), c)),
      nd_events = (\<lambda>b c. (Inr [Inr demo_event], c)), nd_extrinsic_events = (\<lambda>b e c. (Inr [Inr demo_event], c)),
      nd_account = (\<lambda>b a c. (Inr None, c)), nd_timestamp = (\<lambda>h c. (Inr None, c)),
      nd_existential_deposit = (\<lambda>b. Inr 500), nd_stake_info = (\<lambda>b a c. (Inr [], c)),
      nd_stake_infos = (\<lambda>b ks c. (Inr [], c)), nd_alpha_price = (\<lambda>b n c. (Inr 1000000000, c)),
      nd_moving_price = (\<lambda>b n c. (Inr (SI128 4294967296), c)), nd_owner = (\<lambda>b h c. (Inr [], c)),
      nd_account_nonce = (\<lambda>b a c. (Inr 0, c)), nd_create_signed = (\<lambda>b p k o' c. (Inr (''0x1'', [1]), c)),
      nd_call_data = (\<lambda>b p. Inr [9]), nd_query_info = (\<lambda>b x c. (Inr [], c)),
      nd_submit_and_watch = (\<lambda>x c. (Inl ''timeout'', c)), nd_wait_for_finalized = (\<lambda>x c. (Inr ''0xb'', c)),
      nd_wait_for_success = (\<lambda>x c. (Inr [Inr demo_event], c))\<rparr>"

lemmas demo_node_defs = demo_node_def demo_chain_def demo_codec_def demo_extrinsic_def demo_event_def

lemma demo_node_chain: "finalized_chain (demo_node head) demo_chain"
  by (auto simp: finalized_chain_def demo_node_def demo_chain_def)

definition demo_entry :: pending_tx where
  "demo_entry = \<lparr>pd_action = Fund, pd_reservation = Some ''tok'', pd_signer = ''T'', pd_nonce = 0,
     pd_tx_hash = ''0x1'', pd_birth_block = 11, pd_amount = 7\<rparr>"

lemma demo_find_pending:
  "chain_find_pending (demo_node 12) demo_entry c = (Inr (Included ''0xb'' (summary_of demo_codec [demo_event])), c)"
  by (simp add: chain_find_pending_def best_finalized_number_def io_simps ask_def ask_with_def map_err_def
      mortality_horizon_def checked_add_def MORTALITY_def block_range_def demo_entry_def demo_node_defs
      from_events_def add_event_def summary_of_def last_of_def is_event_def transfer_amount_def PALLET_def
      empty_summary_def upt_rec chain_err_def word_less_nat_alt min_def Let_def)

theorem find_pending_verdict_witness:
  "\<exists>head c1. nd_current (demo_node 12) 0 = (Inr head, c1) \<and>
     (\<exists>n e. pd_birth_block demo_entry \<le> n \<and> n \<le> bk_number head \<and>
        find (\<lambda>e. xt_hash e = ''0x1'') (cb_extrinsics (demo_chain n)) = Some e)"
  using find_pending_verdict [OF demo_node_chain demo_find_pending [of 0]]
  by (auto simp: demo_entry_def)

lemma demo_verify: "\<exists>out. verify_metadata (demo_node 12) 0 = (Inr out, 0)"
  by (simp add: verify_metadata_def verify_against_def REQUIRED_CALLS_def REQUIRED_EVENTS_def demo_metadata_def
      demo_node_def verify_call_def verify_event_def pallet_by_name_def PALLET_def List.map_filter_def
      io_simps ask_def ask_with_def map_err_def Let_def)

theorem verify_metadata_covers_calls_witness:
  "\<exists>out b p v. verify_metadata (demo_node 12) 0 = (Inr out, 0) \<and> fst (nd_current (demo_node 12) 0) = Inr b \<and>
     map_of (md_pallets (nd_metadata (demo_node 12) b)) PALLET = Some p \<and>
     map_of (pm_calls p) ''burn_alpha'' = Some v \<and> length (List.map_filter id (cv_fields v)) = 3"
proof -
  obtain out where o: "verify_metadata (demo_node 12) 0 = (Inr out, 0)" using demo_verify by blast
  show ?thesis using o verify_metadata_covers_calls [OF o, of "BurnAlpha [1] 2 3"] by auto
qed
end
