(* ===== verification/Chain_Engine.thy ===== *)
theory Chain_Engine
  imports Chain_Verdict Journal_Outcomes
begin

text \<open>
  The engine's transport over the chain client: \<open>impl EngineRpc for Chain\<close> and
  \<open>impl TransactionRpc for Chain\<close> of \<open>src/src/engine.rs\<close>.  With a node that answers from one
  finalized chain, the two halves fit: what reconciliation writes is what happened to the
  transaction on the chain, and past the lifetime of a transaction reconciliation settles it.
\<close>

section \<open>The transport\<close>

text \<open>Everything the two traits forward to \<open>Chain\<close>; clock, random numbers, other clients and
  webhooks are not part of them and stay those of \<open>base\<close>.\<close>

definition chain_rpc :: "'k crypto \<Rightarrow> scale \<Rightarrow> ('c, 'k) node \<Rightarrow> ('c, 'k) rpc \<Rightarrow> ('c, 'k) rpc" where
  "chain_rpc cr sc nd base =
     base\<lparr>rp_prepare := chain_prepare cr nd, rp_broadcast := chain_broadcast nd,
       rp_find_pending := chain_find_pending nd, rp_genesis_hash := chain_genesis_hash nd,
       rp_free_balance := chain_free_balance nd, rp_account := chain_account nd,
       rp_alpha_on := chain_alpha_on nd, rp_alpha_of := chain_alpha_of nd,
       rp_estimate_fee := chain_estimate_fee sc nd,
       rp_existential_deposit := chain_existential_deposit nd,
       rp_alpha_price := chain_alpha_price nd, rp_hotkey_owner := chain_hotkey_owner nd,
       rp_stake_positions_many := chain_stake_positions_many nd\<rparr>"

lemma chain_rpc_simps [simp]:
  "rp_find_pending (chain_rpc cr sc nd base) = chain_find_pending nd"
  "rp_prepare (chain_rpc cr sc nd base) = chain_prepare cr nd"
  "rp_broadcast (chain_rpc cr sc nd base) = chain_broadcast nd"
  "rp_others (chain_rpc cr sc nd base) = rp_others base" "rp_now (chain_rpc cr sc nd base) = rp_now base"
  by (simp_all add: chain_rpc_def)

section \<open>What the chain promises\<close>

text \<open>A mortal transaction is in no block before its birth or after its last valid block.\<close>

definition mortal :: "(u64 \<Rightarrow> chain_block) \<Rightarrow> pending_tx \<Rightarrow> bool" where
  "mortal ch p \<longleftrightarrow>
     (\<forall>n. included_at ch (pd_tx_hash p) n \<longrightarrow> pd_birth_block p \<le> n \<and> unat n \<le> unat (pd_birth_block p) + 65)"

text \<open>A node that answers every read of a finalized block, with items the client can decode.\<close>

definition responsive :: "('c, 'k) node \<Rightarrow> (u64 \<Rightarrow> chain_block) \<Rightarrow> bool" where
  "responsive nd ch \<longleftrightarrow>
     (\<forall>n c. \<exists>b c'. nd_at_block nd n c = (Inr b, c')) \<and>
     (\<forall>b c. \<exists>c'. nd_extrinsics nd b c = (Inr (map Inr (cb_extrinsics (ch (bk_number b)))), c')) \<and>
     (\<forall>b e c. \<exists>c'. nd_extrinsic_events nd b e c = (Inr (map Inr (cb_events (ch (bk_number b)) e)), c')) \<and>
     (\<forall>n e. list_all (fields_ok (nd_codec nd)) (cb_events (ch n) e))"

section \<open>The client answers\<close>

lemma ask_answer: "f c = (Inr x, c') \<Longrightarrow> ask f c = (Inr x, c')"
  by (simp add: ask_Inr_iff)

lemma io_lift_answer: "io_lift (Inr x) c = (Inr x, c)"
  by (simp add: io_lift_def)

lemma find_extrinsic_decoded: "\<exists>x. find_extrinsic h (map Inr es) = Inr x"
  by (induction es) (auto simp: map_err_def)

lemma scan_blocks_returns:
  assumes "responsive nd ch"
  shows "\<exists>x c'. scan_blocks nd h ns c = (Inr x, c')"
proof (induction ns arbitrary: c)
  case (Cons n ns)
  obtain b c1 where b: "nd_at_block nd n c = (Inr b, c1)" using assms unfolding responsive_def by meson
  obtain c2 where xs: "nd_extrinsics nd b c1 = (Inr (map Inr (cb_extrinsics (ch (bk_number b)))), c2)"
    using assms unfolding responsive_def by meson
  obtain f where f: "find_extrinsic h (map Inr (cb_extrinsics (ch (bk_number b)))) = Inr f"
    using find_extrinsic_decoded by blast
  have step: "scan_blocks nd h (n # ns) c = (case f of
       Some ext \<Rightarrow> io_bind (ask (nd_extrinsic_events nd b ext)) (\<lambda>evs.
         io_bind (io_lift (from_events (nd_codec nd) evs)) (\<lambda>s. io_ret (Some (Included (bk_hash b) s))))
     | None \<Rightarrow> scan_blocks nd h ns) c2"
    using ask_answer [of "nd_at_block nd n", OF b] ask_answer [of "nd_extrinsics nd b", OF xs] f by (simp add: io_bind_eval io_lift_answer)
  show ?case
  proof (cases f)
    case None
    then show ?thesis using Cons.IH step by simp
  next
    case (Some e)
    let ?evs = "cb_events (ch (bk_number b)) e"
    obtain c3 where ev: "nd_extrinsic_events nd b e c2 = (Inr (map Inr ?evs), c3)"
      using assms unfolding responsive_def by meson
    moreover have "from_events (nd_codec nd) (map Inr ?evs) = Inr (summary_of (nd_codec nd) ?evs)"
      using assms from_events_summary_of unfolding responsive_def by blast
    ultimately show ?thesis
      using Some step ask_answer [of "nd_extrinsic_events nd b e", OF ev] by (simp add: io_bind_eval io_lift_def io_ret_def)
  qed
qed (auto simp: io_ret_def)

lemma mortality_horizon_exists:
  assumes "unat (b :: u64) + 65 < 2 ^ 64"
  shows "\<exists>h. mortality_horizon b = Some h"
proof -
  have "checked_add b 64 = Some (b + 64)" "unat (b + 64) = unat b + 64"
    using assms by (simp_all add: checked_add_def unat_word_ariths)
  then show ?thesis using assms by (simp add: mortality_horizon_def MORTALITY_def checked_add_def)
qed

text \<open>Past the lifetime of a transaction, a responsive node never leaves the client waiting.\<close>

lemma find_pending_answers:
  assumes "finalized_chain nd ch" and "responsive nd ch" and "nd_current nd c = (Inr head, c1)"
    and "unat (pd_birth_block p) + 65 < unat (bk_number head)"
  shows "\<exists>x c'. chain_find_pending nd p c = (Inr x, c') \<and> x \<noteq> Wait"
proof -
  have "unat (pd_birth_block p) + 65 < 2 ^ 64"
    using less_trans [OF assms(4) unat_u64_less] by simp
  then obtain hz where hz: "mortality_horizon (pd_birth_block p) = Some hz"
    using mortality_horizon_exists by blast
  obtain found c2 where "scan_blocks nd (pd_tx_hash p)
      (block_range (pd_birth_block p) (min (bk_number head) hz)) c1 = (Inr found, c2)"
    using scan_blocks_returns [OF assms(2)] by metis
  then obtain x where x: "chain_find_pending nd p c = (Inr x, c2)"
    using hz assms(3)
    by (simp add: chain_find_pending_def best_finalized_number_def io_bind_eval ask_def ask_with_def
        map_err_def io_lift_def io_ret_def)
  then show ?thesis
    using find_pending_sound [OF assms(1) x] assms(3,4) by auto
qed

section \<open>The store settles\<close>

lemma apply_action_policy:
  "apply_action a tx s r = Inr r' \<Longrightarrow> r_version r' = r_version r \<and> same_policy r r'"
  by (cases a) (auto simp: result_simps transition_def same_policy_def split: if_splits)

lemma apply_tx_policy: "apply_tx r tx s = Inr r' \<Longrightarrow> r_version r' = r_version r \<and> same_policy r r'"
  by (auto simp: apply_tx_def result_simps same_policy_def dest!: apply_action_policy)

lemma record_failure_policy:
  "r_version (record_failure e m now r) = r_version r \<and> same_policy r (record_failure e m now r)"
  by (simp add: record_failure_def same_policy_def Let_def)

lemma resolution_policy:
  assumes "resolution r p m now x = Some r'"
  shows "r_version r' = r_version r \<and> same_policy r r'"
proof (cases x)
  case (Included b s)
  have f: "r_version (record_failure e k now q) = r_version r \<and> same_policy r (record_failure e k now q)"
    if "r_version q = r_version r" "same_policy r q" for e k q
    using record_failure_policy [of e k now q] that by (auto simp: same_policy_def)
  show ?thesis
  proof (cases "apply_tx r (pending_tx_ref p b) s")
    case (Inl e)
    then show ?thesis
      using assms Included f [of "r\<lparr>r_pending := None\<rparr>"]
        f [of "r\<lparr>r_pending := None, r_quarantined := Some p, r_txs := r_txs r @ [pending_tx_ref p b]\<rparr>"]
      by (auto simp: same_policy_def)
  next
    case (Inr q)
    then show ?thesis
      using assms Included apply_tx_policy [OF Inr] f [of "r\<lparr>r_pending := None\<rparr>"]
      by (auto simp: same_policy_def split: if_splits)
  qed
qed (use assms in \<open>auto simp: same_policy_def\<close>)

text \<open>Resolving the stored entry of a job is a write that the database accepts.\<close>

lemma sqlite_update_resolves:
  assumes "sqlite_inv d" and "db_content d (r_id r) = Some r" and "r_pending r = Some p"
    and "pd_reservation p \<noteq> None" and "unat (r_version r) + 1 < 2 ^ 64" and "resolution r p m t x = Some r'"
  shows "\<exists>q d'. sqlite_update r' now d = (Inr q, d')"
proof -
  have f: "r_id r' = r_id r" "r_pending r' = None" "r_version r' = r_version r" "same_policy r r'"
    using resolution_frame [OF assms(6)] resolution_policy [OF assms(6)] by auto
  then show ?thesis
    using sqlite_update_iff [of d r' r now] assms(1-5) by (simp add: f)
qed

lemma st_update_resolves:
  assumes "cl_store cl = sqlite_ops cr" and "quiet cl" and "sqlite_inv (w_db w)"
    and "db_content (w_db w) (r_id r) = Some r" and "r_pending r = Some p"
    and "pd_reservation p \<noteq> None" and "unat (r_version r) + 1 < 2 ^ 64" and "resolution r p m t x = Some r'"
  shows "\<exists>q w'. io_bind (st_update cl r') (\<lambda>r. io_ret (True, r)) w = (Inr (True, q), w')"
proof -
  have "\<exists>q d'. sqlite_update r' now (w_db w) = (Inr q, d')" for now
    using sqlite_update_resolves [OF assms(3-8)] .
  then show ?thesis
    using assms(1,2)
    by (auto simp: st_update_def now_do_def rpc_do_def db_do_def quiet_def io_bind_def io_ret_def case_prod_beta Let_def
        split: sum.splits) (metis Inl_Inr_False fst_conv sum.inject(2))+
qed

lemma reconcile_settles:
  assumes "cl_store cl = sqlite_ops cr" and "quiet cl" and "sqlite_inv (w_db w)"
    and "db_content (w_db w) (r_id r) = Some r" and "r_pending r = Some p"
    and "pd_reservation p \<noteq> None" and "unat (r_version r) + 1 < 2 ^ 64"
    and "rp_find_pending (cl_rpc cl) p (w_env w) = (Inr x, c')" and "x \<noteq> Wait"
  shows "\<exists>r' w'. reconcile_journaled cl r p m w = (Inr (True, r'), w')"
proof -
  let ?w = "w\<lparr>w_env := c'\<rparr>"
  have w: "rpc_do (rp_find_pending (cl_rpc cl) p) w = (Inr x, ?w)" using assms(8) by (simp add: rpc_do_def)
  have settle: "\<exists>q w'. io_bind (st_update cl r') (\<lambda>r. io_ret (True, r)) w1 = (Inr (True, q), w')"
    if "w_db w1 = w_db w" "resolution r p m t x = Some r'" for w1 t r'
    using st_update_resolves [OF assms(1,2), of w1 r p m t x r'] assms(3-7) that by simp
  show ?thesis
  proof (cases x)
    case Dead
    then show ?thesis using settle [of ?w 0] w assms(5) by (simp add: reconcile_journaled_def io_bind_eval)
  next
    case (Included b s)
    obtain y w2 where y: "included_record cl r p m b s ?w = (y, w2)" by force
    then obtain now r0 where r0: "y = Inr r0" "resolution r p m now x = Some r0" "w_db w2 = w_db w"
      using sq.included_record_resolution [OF y] Included by auto
    then show ?thesis
      using settle [OF r0(3,2)] Included w y assms(5) by (simp add: reconcile_journaled_def io_bind_eval)
  qed (use assms(9) in simp)
qed

section \<open>The interface between reconciliation and the chain\<close>

text \<open>What a verdict promises about the chain.\<close>

definition verdict_ok ::
    "('c, 'k) node \<Rightarrow> (u64 \<Rightarrow> chain_block) \<Rightarrow> pending_tx \<Rightarrow> pending_outcome \<Rightarrow> bool" where
  "verdict_ok nd ch p x \<longleftrightarrow>
     (case x of
        Included h s \<Rightarrow> \<exists>n e. find (\<lambda>e. xt_hash e = pd_tx_hash p) (cb_extrinsics (ch n)) = Some e \<and>
          h = cb_hash (ch n) \<and> from_events (nd_codec nd) (map Inr (cb_events (ch n) e)) = Inr s
      | Dead \<Rightarrow> \<forall>n. pd_birth_block p \<le> n \<longrightarrow> unat n \<le> unat (pd_birth_block p) + 65 \<longrightarrow> \<not> included_at ch (pd_tx_hash p) n
      | Wait \<Rightarrow> True)"

text \<open>A source of verdicts that reconciliation can rely on: truthful, and not undecided for ever.\<close>

locale verdict_source =
  fixes find_pending :: "('c, 'k) node \<Rightarrow> pending_tx \<Rightarrow> ('c, error, pending_outcome) io"
  assumes truthful: "finalized_chain nd ch \<Longrightarrow> find_pending nd p c = (Inr x, c') \<Longrightarrow> verdict_ok nd ch p x"
    and decided: "finalized_chain nd ch \<Longrightarrow> responsive nd ch \<Longrightarrow> nd_current nd c = (Inr head, c1) \<Longrightarrow>
      unat (pd_birth_block p) + 65 < unat (bk_number head) \<Longrightarrow>
      \<exists>x c'. find_pending nd p c = (Inr x, c') \<and> x \<noteq> Wait"
begin

lemma fate_of_resolved:
  assumes "cl_store cl = sqlite_ops cr" and "rp_find_pending (cl_rpc cl) = find_pending nd" and "quiet cl"
    and "sqlite_inv (w_db w)" and "db_content (w_db w) (r_id r) = Some r" and "r_pending r = Some p"
    and "finalized_chain nd ch" and "mortal ch p"
    and "reconcile_journaled cl r p m w = (Inr (True, r'), w')"
  shows "db_content (w_db w') = (db_content (w_db w))(r_id r \<mapsto> r') \<and>
     ((\<exists>n e s now now' r0. find (\<lambda>e. xt_hash e = pd_tx_hash p) (cb_extrinsics (ch n)) = Some e \<and>
         from_events (nd_codec nd) (map Inr (cb_events (ch n) e)) = Inr s \<and>
         resolution r p m now (Included (cb_hash (ch n)) s) = Some r0 \<and> r' = next_version now' r0) \<or>
      (\<forall>n. \<not> included_at ch (pd_tx_hash p) n) \<and> (\<exists>now'. r' = next_version now' (r\<lparr>r_pending := None\<rparr>)))"
proof -
  obtain x now now' r0 where x: "fst (find_pending nd p (w_env w)) = Inr x"
    and r0: "resolution r p m now x = Some r0" "r' = next_version now' r0"
    and c: "db_content (w_db w') = (db_content (w_db w))(r_id r \<mapsto> r')"
    using sq.reconcile_outcome [OF assms(1,3-6,9)] assms(2) by auto
  have "find_pending nd p (w_env w) = (Inr x, snd (find_pending nd p (w_env w)))"
    using x by (metis prod.collapse)
  note v = truthful [OF assms(7) this]
  show ?thesis
  proof (cases x)
    case Dead
    then have "\<not> included_at ch (pd_tx_hash p) n" for n
      using v assms(8) by (auto simp: mortal_def verdict_ok_def)
    then show ?thesis using Dead r0 c by auto
  next
    case (Included b s)
    then show ?thesis using v r0 c by (fastforce simp: verdict_ok_def)
  qed (use r0 in simp)
qed

lemma settles_expired:
  assumes "cl_store cl = sqlite_ops cr" and "rp_find_pending (cl_rpc cl) = find_pending nd" and "quiet cl"
    and "sqlite_inv (w_db w)" and "db_content (w_db w) (r_id r) = Some r" and "r_pending r = Some p"
    and "pd_reservation p \<noteq> None" and "unat (r_version r) + 1 < 2 ^ 64"
    and "finalized_chain nd ch" and "responsive nd ch" and "nd_current nd (w_env w) = (Inr head, c1)"
    and "unat (pd_birth_block p) + 65 < unat (bk_number head)"
  shows "\<exists>r' w'. reconcile_journaled cl r p m w = (Inr (True, r'), w') \<and> r_pending r' = None \<and>
           db_content (w_db w') (r_id r) = Some r' \<and> (\<forall>j t. (pd_signer p, j, t) \<notin> db_held (w_db w'))"
proof -
  obtain x c' where x: "find_pending nd p (w_env w) = (Inr x, c')" "x \<noteq> Wait"
    using decided [OF assms(9-12)] by blast
  then have "rp_find_pending (cl_rpc cl) p (w_env w) = (Inr x, c')" using assms(2) by simp
  then obtain r' w' where r': "reconcile_journaled cl r p m w = (Inr (True, r'), w')"
    using reconcile_settles [OF assms(1,3-8) _ x(2)] by metis
  then obtain t where t: "pd_reservation p = Some t" "r_pending r' = None" "db_content (w_db w') (r_id r) = Some r'"
    "db_held (w_db w') = db_held (w_db w) - {(pd_signer p, r_id r, t)}"
    using sq.reconcile_outcome [OF assms(1,3-6) r'] resolution_frame by auto
  have "(pd_signer p, r_id r, t) \<in> db_held (w_db w)"
    using sq.held_claims [OF assms(4,5)] assms(6) t(1) by (simp add: journal_claim_def)
  then have "(pd_signer p, j, u) \<notin> db_held (w_db w')" for j u
    using t(4) sq.held_signer [OF assms(4)] by blast
  then show ?thesis using r' t by blast
qed

end

interpretation cv: verdict_source chain_find_pending
proof
  fix nd :: "('c, 'k) node" and ch p c x c'
  assume "finalized_chain nd ch" and "chain_find_pending nd p c = (Inr x, c')"
  note v = find_pending_sound [OF this]
  show "verdict_ok nd ch p x"
  proof (cases x)
    case (Included h s)
    then show ?thesis using v by (simp add: verdict_ok_def) blast
  qed (use v in \<open>auto simp: verdict_ok_def\<close>)
qed (rule find_pending_answers)

section \<open>Properties\<close>

text \<open>C6: reconciliation tells the truth about the chain.  Over a node that answers from one
  finalized chain, when reconciliation resolves the entry of a job, then either the transaction
  is in a block of the chain and the record becomes the resolution for the events of that very
  extrinsic, or the transaction is in no block of the chain at all, now or later, and the record
  only loses the entry, so that sending again cannot execute twice.\<close>

theorem resolved_entry_fate:
  assumes "cl_store cl = sqlite_ops cr" and "cl_rpc cl = chain_rpc cr sc nd base" and "quiet cl"
    and "sqlite_inv (w_db w)" and "db_content (w_db w) (r_id r) = Some r" and "r_pending r = Some p"
    and "finalized_chain nd ch" and "mortal ch p"
    and "reconcile_journaled cl r p m w = (Inr (True, r'), w')"
  shows "db_content (w_db w') = (db_content (w_db w))(r_id r \<mapsto> r') \<and>
     ((\<exists>n e s now now' r0. find (\<lambda>e. xt_hash e = pd_tx_hash p) (cb_extrinsics (ch n)) = Some e \<and>
         from_events (nd_codec nd) (map Inr (cb_events (ch n) e)) = Inr s \<and>
         resolution r p m now (Included (cb_hash (ch n)) s) = Some r0 \<and> r' = next_version now' r0) \<or>
      (\<forall>n. \<not> included_at ch (pd_tx_hash p) n) \<and> (\<exists>now'. r' = next_version now' (r\<lparr>r_pending := None\<rparr>)))"
  using cv.fate_of_resolved [OF assms(1) _ assms(3-9)] assms(2) by simp

text \<open>C9: no job stays stuck on a transaction.  Once the finalized head is past the lifetime of a
  journaled transaction and the node answers, reconciliation returns, the entry of the job is
  gone, and its signer is free for the next transaction.\<close>

theorem expired_entry_settles:
  assumes "cl_store cl = sqlite_ops cr" and "cl_rpc cl = chain_rpc cr sc nd base" and "quiet cl"
    and "sqlite_inv (w_db w)" and "db_content (w_db w) (r_id r) = Some r" and "r_pending r = Some p"
    and "pd_reservation p \<noteq> None" and "unat (r_version r) + 1 < 2 ^ 64"
    and "finalized_chain nd ch" and "responsive nd ch" and "nd_current nd (w_env w) = (Inr head, c1)"
    and "unat (pd_birth_block p) + 65 < unat (bk_number head)"
  shows "\<exists>r' w'. reconcile_journaled cl r p m w = (Inr (True, r'), w') \<and> r_pending r' = None \<and>
           db_content (w_db w') (r_id r) = Some r' \<and> (\<forall>j t. (pd_signer p, j, t) \<notin> db_held (w_db w'))"
  using cv.settles_expired [OF assms(1) _ assms(3-12)] assms(2) by simp

section \<open>Witnesses\<close>

definition demo_scale :: scale where
  "demo_scale = \<lparr>sc_weights = Some, sc_u64 = (\<lambda>_. Some 1), sc_u128 = (\<lambda>_. Some 1), sc_encode_u32 = (\<lambda>_. [])\<rparr>"

definition chain_client :: "(nat, sqlite_db, account_id) client" where
  "chain_client = \<lparr>cl_rpc = chain_rpc plain_crypto demo_scale (demo_node 100) (demo_rpc Wait),
     cl_store = sqlite_ops plain_crypto, cl_crypto = plain_crypto\<rparr>"

definition entry_job :: payment_record where
  "entry_job = next_version 5 ((test_record ''a'')\<lparr>r_pending := Some demo_pending\<rparr>)"

lemma chain_client_simps [simp]:
  "cl_store chain_client = sqlite_ops plain_crypto" "quiet chain_client"
  "cl_rpc chain_client = chain_rpc plain_crypto demo_scale (demo_node 100) (demo_rpc Wait)"
  by (simp_all add: chain_client_def quiet_def demo_rpc_def)

lemma entry_job_simps [simp]:
  "r_pending entry_job = Some demo_pending" "r_id entry_job = ''a''" "unat (r_version entry_job) = 1"
  "sqlite_inv (demo_db entry_job)" "db_content (demo_db entry_job) ''a'' = Some entry_job"
  using demo_inv by (simp_all add: entry_job_def demo_content next_version_def test_record_def)

lemma demo_pending_simps [simp]:
  "pd_reservation demo_pending = Some ''tok''" "pd_birth_block demo_pending = 10"
  "pd_tx_hash demo_pending = ''0x1''" "pd_signer demo_pending = ''T''"
  by (simp_all add: demo_pending_def)

lemma demo_responsive: "responsive (demo_node 100) demo_chain"
  by (simp add: responsive_def demo_node_def demo_chain_def fields_ok_def demo_codec_def)

lemma demo_mortal: "mortal demo_chain demo_pending"
  by (auto simp: mortal_def included_at_def demo_chain_def)

lemma demo_head: "nd_current (demo_node 100) c = (Inr \<lparr>bk_number = 100, bk_hash = ''0xb''\<rparr>, c)"
  by (simp add: demo_node_def)

theorem expired_entry_settles_witness:
  "\<exists>r' w'. reconcile_journaled chain_client entry_job demo_pending 8 (demo_world (demo_db entry_job)) = (Inr (True, r'), w') \<and>
     r_pending r' = None \<and> (\<forall>j t. (''T'', j, t) \<notin> db_held (w_db w'))"
  using expired_entry_settles [of chain_client plain_crypto demo_scale "demo_node 100" "demo_rpc Wait"
      "demo_world (demo_db entry_job)" entry_job demo_pending demo_chain, OF _ _ _ _ _ _ _ _ demo_node_chain demo_responsive demo_head]
  by fastforce

theorem resolved_entry_fate_witness:
  "\<exists>r' w'. reconcile_journaled chain_client entry_job demo_pending 8 (demo_world (demo_db entry_job)) = (Inr (True, r'), w') \<and>
     db_content (w_db w') = (db_content (demo_db entry_job))(''a'' \<mapsto> r') \<and>
     (\<exists>s now now' r0. resolution entry_job demo_pending 8 now (Included ''0xb'' s) = Some r0 \<and> r' = next_version now' r0)"
proof -
  let ?w = "demo_world (demo_db entry_job)"
  obtain x c' where x: "chain_find_pending (demo_node 100) demo_pending 0 = (Inr x, c')" "x \<noteq> Wait"
    using find_pending_answers [OF demo_node_chain demo_responsive demo_head [of 0], of demo_pending] by auto
  then have "rp_find_pending (cl_rpc chain_client) demo_pending (w_env ?w) = (Inr x, c')" by simp
  then obtain r' w' where r: "reconcile_journaled chain_client entry_job demo_pending 8 ?w = (Inr (True, r'), w')"
    using reconcile_settles [of chain_client plain_crypto ?w entry_job demo_pending x c' 8] x(2) by auto
  have "included_at demo_chain ''0x1'' 12" by (simp add: included_at_def demo_chain_def demo_extrinsic_def)
  moreover have "cb_hash (demo_chain n) = ''0xb''" for n by (simp add: demo_chain_def)
  ultimately show ?thesis
    using r resolved_entry_fate [OF chain_client_simps(1,3,2) _ _ _ demo_node_chain demo_mortal r]
    by (simp del: resolution.simps) metis
qed

end
