(* ===== verification/Chain_Deposits.thy ===== *)
theory Chain_Deposits
  imports Chain_Verdict
begin

text \<open>
  \<open>deposits_in_block\<close> of \<open>src/src/chain.rs\<close>: the stake that landed on watched coldkeys in a block.
  The definitions follow the passes of the code: collect the \<open>StakeAdded\<close> events on watched
  coldkeys, index the extrinsics, collect the successful ones, then price the hits with a cache
  per subnet.  The property compares it with a one-line reference definition.
\<close>

section \<open>Definitions\<close>

record deposit =
  dp_block_number :: u64
  dp_block_hash :: string
  dp_extrinsic_index :: u32
  dp_event_index :: u32
  dp_extrinsic_hash :: string
  dp_from :: "account_id option"
  dp_coldkey :: account_id
  dp_hotkey :: account_id
  dp_netuid :: u16
  dp_alpha :: u64
  dp_tao_value :: u64
  dp_spot_price :: u64
  dp_moving_price :: u64

record block_deposits =
  bd_number :: u64
  bd_block_hash :: string
  bd_deposits :: "deposit list"

record hit =
  ht_extrinsic :: u32
  ht_event :: u32
  ht_coldkey :: account_id
  ht_hotkey :: account_id
  ht_tao :: u64
  ht_alpha :: u64
  ht_netuid :: u16

fun collect_hits :: "codec \<Rightarrow> account_id list \<Rightarrow> (string + chain_event) list \<Rightarrow> hit list res" where
  "collect_hits dc watched [] = Inr []"
| "collect_hits dc watched (x # xs) =
     and_then (map_err chain_err x) (\<lambda>ev.
     if ev_pallet ev \<noteq> PALLET \<or> ev_name ev \<noteq> ''StakeAdded'' then collect_hits dc watched xs
     else
       (case ev_phase ev of
          ApplyExtrinsic xt \<Rightarrow>
            and_then (map_err chain_err (dc_stake_added dc ev)) (\<lambda>(coldkey, hotkey, tao, alpha, netuid, _).
            and_then (collect_hits dc watched xs) (\<lambda>hits.
            Inr (if coldkey \<in> set watched
                 then \<lparr>ht_extrinsic = xt, ht_event = ev_index ev, ht_coldkey = coldkey, ht_hotkey = hotkey,
                       ht_tao = tao, ht_alpha = alpha, ht_netuid = netuid\<rparr> # hits
                 else hits)))
        | _ \<Rightarrow> collect_hits dc watched xs))"

type_synonym extrinsic_index = "(u32 \<times> string \<times> u8 list option) list"

text \<open>A later extrinsic with the same index replaces an earlier one.\<close>

fun collect_hashes :: "(string + extrinsic) list \<Rightarrow> extrinsic_index \<Rightarrow> extrinsic_index res" where
  "collect_hashes [] hashes = Inr hashes"
| "collect_hashes (x # xs) hashes =
     and_then (map_err chain_err x) (\<lambda>ext.
     collect_hashes xs ((of_nat (xt_index ext), xt_hash ext, xt_address ext) # hashes))"

fun collect_ok :: "(string + chain_event) list \<Rightarrow> u32 list res" where
  "collect_ok [] = Inr []"
| "collect_ok (x # xs) =
     and_then (map_err chain_err x) (\<lambda>ev.
     and_then (collect_ok xs) (\<lambda>ok.
     Inr (case ev_phase ev of
            ApplyExtrinsic i \<Rightarrow>
              if ev_pallet ev = ''System'' \<and> ev_name ev = ''ExtrinsicSuccess'' then i # ok else ok
          | _ \<Rightarrow> ok)))"

definition price_of ::
    "('c, 'k) node \<Rightarrow> block_ref \<Rightarrow> u16 \<Rightarrow> (u16 \<times> u64 \<times> u64) list \<Rightarrow>
     ('c, error, (u64 \<times> u64) \<times> (u16 \<times> u64 \<times> u64) list) io" where
  "price_of nd b netuid prices =
     (case map_of prices netuid of
        Some p \<Rightarrow> io_ret (p, prices)
      | None \<Rightarrow>
          io_bind (ask (nd_alpha_price nd b netuid)) (\<lambda>spot.
          io_bind (moving_price_at nd b netuid) (\<lambda>moving.
          io_ret ((spot, moving), (netuid, spot, moving) # prices))))"

definition deposit_of ::
    "block_ref \<Rightarrow> u64 \<Rightarrow> (u32 \<Rightarrow> (string \<times> u8 list option) option) \<Rightarrow> hit \<Rightarrow> u64 \<times> u64 \<Rightarrow> deposit" where
  "deposit_of b number hashes h price =
     (let (hash, from) = (case hashes (ht_extrinsic h) of None \<Rightarrow> ('''', None) | Some x \<Rightarrow> x) in
      \<lparr>dp_block_number = number, dp_block_hash = bk_hash b, dp_extrinsic_index = ht_extrinsic h,
       dp_event_index = ht_event h, dp_extrinsic_hash = hash, dp_from = Option.bind from signer_of,
       dp_coldkey = ht_coldkey h, dp_hotkey = ht_hotkey h, dp_netuid = ht_netuid h, dp_alpha = ht_alpha h,
       dp_tao_value = ht_tao h, dp_spot_price = fst price, dp_moving_price = snd price\<rparr>)"

fun price_hits ::
    "('c, 'k) node \<Rightarrow> block_ref \<Rightarrow> u64 \<Rightarrow> u32 list \<Rightarrow> extrinsic_index \<Rightarrow> (u16 \<times> u64 \<times> u64) list \<Rightarrow> hit list \<Rightarrow>
     ('c, error, deposit list) io" where
  "price_hits nd b number ok hashes prices [] = io_ret []"
| "price_hits nd b number ok hashes prices (h # hs) =
     (if ht_extrinsic h \<notin> set ok then price_hits nd b number ok hashes prices hs
      else
        io_bind (price_of nd b (ht_netuid h) prices) (\<lambda>(price, prices).
        io_bind (price_hits nd b number ok hashes prices hs) (\<lambda>ds.
        io_ret (deposit_of b number (map_of hashes) h price # ds))))"

definition deposits_in_block ::
    "('c, 'k) node \<Rightarrow> u64 \<Rightarrow> account_id list \<Rightarrow> ('c, error, block_deposits) io" where
  "deposits_in_block nd number watched =
     io_bind (ask (nd_at_block nd number)) (\<lambda>b.
     let out = (\<lambda>ds. \<lparr>bd_number = number, bd_block_hash = bk_hash b, bd_deposits = ds\<rparr>) in
     if watched = [] then io_ret (out [])
     else
       io_bind (ask (nd_events nd b)) (\<lambda>events.
       io_bind (io_lift (collect_hits (nd_codec nd) watched events)) (\<lambda>hits.
       if hits = [] then io_ret (out [])
       else
         io_bind (ask (nd_extrinsics nd b)) (\<lambda>exts.
         io_bind (io_lift (collect_hashes exts [])) (\<lambda>hashes.
         io_bind (io_lift (collect_ok events)) (\<lambda>ok.
         io_bind (price_hits nd b number ok hashes [] hits) (\<lambda>ds. io_ret (out ds))))))))"

section \<open>Reference definition\<close>

definition hit_of :: "codec \<Rightarrow> chain_event \<Rightarrow> hit" where
  "hit_of dc ev =
     (case projr (dc_stake_added dc ev) of (coldkey, hotkey, tao, alpha, netuid, _) \<Rightarrow>
      \<lparr>ht_extrinsic = (case ev_phase ev of ApplyExtrinsic xt \<Rightarrow> xt | _ \<Rightarrow> 0), ht_event = ev_index ev,
       ht_coldkey = coldkey, ht_hotkey = hotkey, ht_tao = tao, ht_alpha = alpha, ht_netuid = netuid\<rparr>)"

definition stake_event :: "chain_event \<Rightarrow> bool" where
  "stake_event ev \<longleftrightarrow> is_event PALLET [''StakeAdded''] ev \<and> (\<exists>xt. ev_phase ev = ApplyExtrinsic xt)"

definition succeeded :: "chain_event list \<Rightarrow> u32 \<Rightarrow> bool" where
  "succeeded evs i \<longleftrightarrow> list_ex (\<lambda>ev. is_event ''System'' [''ExtrinsicSuccess''] ev \<and> ev_phase ev = ApplyExtrinsic i) evs"

text \<open>The deposits of a block: one per \<open>StakeAdded\<close> event on a watched coldkey of an extrinsic that
  succeeded, in the order of the events, with the hash and signer of that extrinsic and the prices
  of its subnet.\<close>

definition deposits_of ::
    "codec \<Rightarrow> account_id list \<Rightarrow> block_ref \<Rightarrow> (u32 \<Rightarrow> (string \<times> u8 list option) option) \<Rightarrow>
     (u16 \<Rightarrow> u64 \<times> u64) \<Rightarrow> chain_event list \<Rightarrow> deposit list" where
  "deposits_of dc watched b hashes prices evs =
     map (\<lambda>h. deposit_of b (bk_number b) hashes h (prices (ht_netuid h)))
       (filter (\<lambda>h. ht_coldkey h \<in> set watched \<and> succeeded evs (ht_extrinsic h))
         (map (hit_of dc) (filter stake_event evs)))"

lemma collect_hits_filter:
  "list_all (fields_ok dc) evs \<Longrightarrow>
   collect_hits dc watched (map Inr evs) =
     Inr (filter (\<lambda>h. ht_coldkey h \<in> set watched) (map (hit_of dc) (filter stake_event evs)))"
proof (induction evs)
  case (Cons e evs)
  show ?case
  proof (cases "is_event PALLET [''StakeAdded''] e")
    case True
    then obtain x where x: "dc_stake_added dc e = Inr x"
      using Cons.prems by (auto simp: fields_ok_def is_ok_iff)
    show ?thesis
      using True Cons x by (cases x) (auto simp: is_event_def stake_event_def hit_of_def split: event_phase.splits)
  next
    case False
    then show ?thesis using Cons by (auto simp: is_event_def stake_event_def)
  qed
qed simp

lemma collect_ok_succeeded:
  "\<exists>ok. collect_ok (map Inr evs) = Inr ok \<and> (\<forall>i. i \<in> set ok \<longleftrightarrow> succeeded evs i)"
  by (induction evs) (auto simp: succeeded_def is_event_def split: event_phase.splits)

lemma collect_hashes_map:
  "collect_hashes (map Inr exts) hashes =
     Inr (rev (map (\<lambda>e. (of_nat (xt_index e), xt_hash e, xt_address e)) exts) @ hashes)"
  by (induction exts arbitrary: hashes) simp_all

text \<open>Prices that do not change while the block is read.\<close>

definition stable_prices :: "('c, 'k) node \<Rightarrow> block_ref \<Rightarrow> (u16 \<Rightarrow> u64 \<times> u64) \<Rightarrow> bool" where
  "stable_prices nd b prices \<longleftrightarrow>
     (\<forall>n c. fst (ask (nd_alpha_price nd b n) c) = Inr (fst (prices n)) \<and>
            fst (moving_price_at nd b n c) = Inr (snd (prices n)))"

definition caches :: "(u16 \<Rightarrow> u64 \<times> u64) \<Rightarrow> (u16 \<times> u64 \<times> u64) list \<Rightarrow> bool" where
  "caches prices cache \<longleftrightarrow> (\<forall>n p. map_of cache n = Some p \<longrightarrow> p = prices n)"

lemma price_of_stable:
  assumes "stable_prices nd b prices" and "caches prices cache"
  obtains cache' c' where "price_of nd b n cache c = (Inr (prices n, cache'), c')" "caches prices cache'"
proof (cases "map_of cache n")
  case None
  obtain c1 where 1: "ask (nd_alpha_price nd b n) c = (Inr (fst (prices n)), c1)"
    using assms(1) by (metis stable_prices_def prod.collapse)
  obtain c2 where 2: "moving_price_at nd b n c1 = (Inr (snd (prices n)), c2)"
    using assms(1) by (metis stable_prices_def prod.collapse)
  show ?thesis
    by (rule that [of "(n, prices n) # cache" c2])
      (use None 1 2 assms(2) in \<open>auto simp: price_of_def caches_def io_simps split: if_splits\<close>)
next
  case (Some p)
  then have "p = prices n" using assms(2) unfolding caches_def by blast
  then show ?thesis using that [of cache c] Some assms(2) by (simp add: price_of_def io_simps)
qed

lemma price_hits_map:
  assumes "stable_prices nd b prices" and "caches prices cache"
  shows "fst (price_hits nd b number ok hashes cache hs c) =
     Inr (map (\<lambda>h. deposit_of b number (map_of hashes) h (prices (ht_netuid h)))
            (filter (\<lambda>h. ht_extrinsic h \<in> set ok) hs))"
  using assms(2)
proof (induction hs arbitrary: cache c)
  case (Cons h hs)
  show ?case
  proof (cases "ht_extrinsic h \<in> set ok")
    case True
    obtain cache' c' where p: "price_of nd b (ht_netuid h) cache c = (Inr (prices (ht_netuid h), cache'), c')"
      "caches prices cache'"
      using price_of_stable [OF assms(1) Cons.prems] by blast
    obtain x c'' where r: "price_hits nd b number ok hashes cache' hs c' = (x, c'')" by (rule prod.exhaust)
    then have "x = Inr (map (\<lambda>h. deposit_of b number (map_of hashes) h (prices (ht_netuid h)))
            (filter (\<lambda>h. ht_extrinsic h \<in> set ok) hs))" using Cons.IH [OF p(2), of c'] by simp
    then show ?thesis using True p(1) r by (simp add: io_simps)
  next
    case False
    then show ?thesis using Cons by simp
  qed
qed (simp add: io_simps)

section \<open>Property\<close>

text \<open>C31: the four passes over a block find exactly the reference deposits, and the price cache
  does not change them: nothing is missed, nothing is counted twice, failed extrinsics and
  unwatched coldkeys do not count.\<close>

theorem deposits_in_block_reference:
  assumes "nd_at_block nd number c = (Inr b, c1)" and "bk_number b = number"
    and "nd_events nd b c1 = (Inr (map Inr evs), c2)" and "nd_extrinsics nd b c2 = (Inr (map Inr exts), c3)"
    and "list_all (fields_ok (nd_codec nd)) evs" and "stable_prices nd b prices"
  shows "fst (deposits_in_block nd number watched c) = Inr
     \<lparr>bd_number = number, bd_block_hash = bk_hash b,
      bd_deposits = deposits_of (nd_codec nd) watched b
        (map_of (rev (map (\<lambda>e. (of_nat (xt_index e), xt_hash e, xt_address e)) exts))) prices evs\<rparr>"
proof -
  let ?hits = "filter (\<lambda>h. ht_coldkey h \<in> set watched) (map (hit_of (nd_codec nd)) (filter stake_event evs))"
  let ?ix = "rev (map (\<lambda>e. (of_nat (xt_index e), xt_hash e, xt_address e)) exts)"
  obtain ok where ok: "collect_ok (map Inr evs) = Inr ok" "\<forall>i. i \<in> set ok \<longleftrightarrow> succeeded evs i"
    using collect_ok_succeeded by blast
  obtain x c4 where p: "price_hits nd b number ok ?ix [] ?hits c3 = (x, c4)" by (rule prod.exhaust)
  have x: "x = Inr (deposits_of (nd_codec nd) watched b (map_of ?ix) prices evs)"
    using price_hits_map [OF assms(6), of "[]" number ok ?ix ?hits c3] p ok(2) assms(2)
    by (simp add: caches_def deposits_of_def conj_commute)
  have none: "?hits = [] \<Longrightarrow> deposits_of (nd_codec nd) watched b (map_of ?ix) prices evs = []"
    by (auto simp: deposits_of_def filter_empty_conv)
  show ?thesis
    using assms(1,3,4) p x none
    by (auto simp: deposits_in_block_def io_simps ask_def ask_with_def collect_hits_filter [OF assms(5)]
        collect_hashes_map ok(1) Let_def deposits_of_def)
qed

lemma fixed_bits_to_rao_one: "fixed_bits_to_rao 4294967296 32 = 1000000000"
  by (simp add: fixed_bits_to_rao_def Let_def RAO_PER_TAO_def saturating_add_def saturating_mul_def
      u64_try_from_def drop_bit_eq_div push_bit_eq_mult)

section \<open>Witness\<close>

definition stake_added_event :: chain_event where
  "stake_added_event = \<lparr>ev_phase = ApplyExtrinsic 0, ev_index = 3, ev_pallet = PALLET, ev_name = ''StakeAdded'',
     ev_bytes = []\<rparr>"

definition success_event :: chain_event where
  "success_event = \<lparr>ev_phase = ApplyExtrinsic 0, ev_index = 4, ev_pallet = ''System'',
     ev_name = ''ExtrinsicSuccess'', ev_bytes = []\<rparr>"

definition deposit_node :: "(nat, account_id) node" where
  "deposit_node = (demo_node 12)\<lparr>nd_events := (\<lambda>b c. (Inr (map Inr [stake_added_event, success_event]), c))\<rparr>"

theorem deposits_in_block_reference_witness:
  "\<exists>d. fst (deposits_in_block deposit_node 12 [[1]] 0) = Inr d \<and>
     map dp_coldkey (bd_deposits d) = [[1]] \<and> map dp_from (bd_deposits d) = [Some (replicate 32 2)]"
proof -
  let ?b = "\<lparr>bk_number = 12, bk_hash = ''0xb''\<rparr> :: block_ref"
  have st: "stable_prices deposit_node ?b (\<lambda>_. (1000000000, 1000000000))"
    by (simp add: stable_prices_def deposit_node_def demo_node_def ask_def ask_with_def map_err_def
        moving_price_at_def io_simps i96f32_to_rao_def fixed_bits_to_rao_one)
  have "fst (deposits_in_block deposit_node 12 [[1]] 0) = Inr
     \<lparr>bd_number = 12, bd_block_hash = bk_hash ?b,
      bd_deposits = deposits_of (nd_codec deposit_node) [[1]] ?b
        (map_of (rev (map (\<lambda>e. (of_nat (xt_index e), xt_hash e, xt_address e)) [demo_extrinsic])))
        (\<lambda>_. (1000000000, 1000000000)) [stake_added_event, success_event]\<rparr>"
    by (rule deposits_in_block_reference [OF _ _ _ _ _ st, where c = 0 and ?c1.0 = 0 and ?c2.0 = 0 and ?c3.0 = 0])
      (simp_all add: deposit_node_def demo_node_def demo_chain_def fields_ok_def demo_codec_def)
  then show ?thesis
    by (simp add: deposits_of_def deposit_node_def demo_node_def demo_codec_def stake_event_def is_event_def
        stake_added_event_def success_event_def hit_of_def succeeded_def deposit_of_def demo_extrinsic_def PALLET_def)
qed

end
