(* ===== verification/Recovery.thy ===== *)
theory Recovery
  imports Chain_Verdict Sqlite_Store
begin

text \<open>
  Offline recovery of jobs from before the journal: \<open>src/src/recovery.rs\<close>, the archive scan
  \<open>verify_legacy_archive\<close> of \<open>src/src/chain.rs\<close> and \<open>recover_legacy\<close> of \<open>src/src/store.rs\<close>.  An
  operator states every transaction the job ever sent; the manifest is checked against the record,
  the archive is scanned for any other transaction of the two signers, the accounting of the
  record is recomputed from the receipts, and only then the policy is installed, in one database
  transaction.  The JSON texts of the audit row are serialisers given as arguments.
\<close>

section \<open>The manifest\<close>

record legacy_transaction =
  lt_block :: u64
  lt_index :: nat
  lt_signer :: string
  lt_nonce :: u64
  lt_receipt :: tx_ref
  lt_call :: chain_call

record legacy_manifest =
  lm_job :: string
  lm_version :: u64
  lm_genesis_hash :: string
  lm_treasury :: string
  lm_treasury_hotkey :: string
  lm_consolidate :: bool
  lm_return_dust :: bool
  lm_budget :: "buyback_budget option"
  lm_first_block :: u64
  lm_stopped_at :: u64
  lm_maximum_mortality :: u64
  lm_operator_attestation :: string
  lm_all_stopped :: bool
  lm_transactions :: "legacy_transaction list"

record recovery_report =
  rr_job :: string
  rr_previous_version :: u64
  rr_genesis_hash :: string
  rr_finalized_block :: u64
  rr_finalized_hash :: string
  rr_transactions :: nat
  rr_applied :: bool

definition bad_manifest :: error where
  "bad_manifest =
     ErrStore ''legacy recovery requires a complete audited manifest and unresolved-free record''"

text \<open>The two guards of \<open>validate_manifest\<close> on the record.\<close>

definition unfit_record :: "payment_record \<Rightarrow> legacy_manifest \<Rightarrow> bool" where
  "unfit_record r m \<longleftrightarrow>
     r_identity r \<noteq> None
     \<or> r_auto_required r \<noteq> None \<and>
         (r_auto_required r \<noteq> Some (lm_budget m \<noteq> None) \<or> r_buyback_budget r \<noteq> lm_budget m)
     \<or> r_pending r \<noteq> None \<or> r_quarantined r \<noteq> None \<or> r_notified r
     \<or> lm_transactions m = [] \<and> r_state r \<notin> {Pending, Detected}
     \<or> 4096 < length (lm_transactions m)
     \<or> lm_first_block m = 0 \<or> lm_stopped_at m < lm_first_block m
     \<or> lm_maximum_mortality m = 0 \<or> 65536 < lm_maximum_mortality m
     \<or> \<not> lm_all_stopped m
     \<or> length (trim (lm_operator_attestation m)) < 16 \<or> 4096 < length (lm_operator_attestation m)
     \<or> r_state r \<notin> {Pending, Detected, Funded, Swept, Failed}
     \<or> r_state r = Failed \<and> r_failed_from r \<notin> {Some Funded, Some Swept}"

definition started_too_early :: "payment_record \<Rightarrow> legacy_manifest \<Rightarrow> bool" where
  "started_too_early r m \<longleftrightarrow>
     r_state r \<in> {Pending, Detected} \<and>
     (lm_transactions m \<noteq> [] \<or> r_funded_tao r \<noteq> 0 \<or> r_swept_alpha r \<noteq> 0 \<or> r_swept_positions r \<noteq> []
      \<or> r_consolidated r \<noteq> 0 \<or> r_dust_returned r \<or> r_buyback r \<noteq> None \<or> r_buyback_done r)"

text \<open>The loop over the transactions: chronological, within the interval, no hash and no nonce of a
  signer twice, only the two signers, receipts that agree with their calls.\<close>

fun transactions_ok ::
    "payment_record \<Rightarrow> legacy_manifest \<Rightarrow> (u64 \<times> nat) option \<Rightarrow> string set \<Rightarrow> (string \<times> u64) set \<Rightarrow>
     legacy_transaction list \<Rightarrow> bool" where
  "transactions_ok r m prev hashes nonces [] = True"
| "transactions_ok r m prev hashes nonces (t # ts) =
     (if lt_block t < lm_first_block m \<or> lm_stopped_at m < lt_block t
         \<or> (case prev of None \<Rightarrow> False
            | Some (b, i) \<Rightarrow> \<not> (b < lt_block t \<or> b = lt_block t \<and> i < lt_index t))
         \<or> tr_tx_hash (lt_receipt t) \<in> hashes
         \<or> (lt_signer t, lt_nonce t) \<in> nonces
         \<or> lt_signer t \<noteq> lm_treasury m \<and> lt_signer t \<noteq> r_address r
         \<or> tr_action (lt_receipt t) \<noteq> call_name (lt_call t)
         \<or> tr_amount (lt_receipt t) \<noteq> call_amount (lt_call t)
      then False
      else transactions_ok r m (Some (lt_block t, lt_index t)) (insert (tr_tx_hash (lt_receipt t)) hashes)
             (insert (lt_signer t, lt_nonce t) nonces) ts)"

definition validate_manifest :: "'k crypto \<Rightarrow> payment_record \<Rightarrow> legacy_manifest \<Rightarrow> unit res" where
  "validate_manifest cr r m =
     (if r_id r \<noteq> lm_job m \<or> r_version r \<noteq> lm_version m then Inl (Conflict (lm_job m))
      else if unfit_record r m then Inl bad_manifest
      else if started_too_early r m then Inl bad_manifest
      else
        and_then (parse_ss58 cr (lm_treasury m)) (\<lambda>treasury.
        and_then (parse_ss58 cr (r_address r)) (\<lambda>deposit.
        and_then (parse_ss58 cr (lm_treasury_hotkey m)) (\<lambda>_.
        if treasury = deposit \<or> ss58 cr treasury \<noteq> lm_treasury m \<or> ss58 cr deposit \<noteq> r_address r
        then Inl bad_manifest
        else
          and_then (case lm_budget m of None \<Rightarrow> Inr () | Some b \<Rightarrow> budget_validate cr b) (\<lambda>_.
          if \<not> transactions_ok r m None {} {} (lm_transactions m) then Inl bad_manifest
          else if map lt_receipt (lm_transactions m) \<noteq> r_txs r then Inl bad_manifest
          else Inr ())))))"

section \<open>Replay\<close>

record replay_state =
  pl_funded :: u64
  pl_positions :: "(string \<times> u64) list"
  pl_consolidated :: nat
  pl_dust :: bool
  pl_post_sweep :: bool
  pl_buyback :: "buyback_receipt option"

definition replay_start :: replay_state where
  "replay_start = \<lparr>pl_funded = 0, pl_positions = [], pl_consolidated = 0, pl_dust = False,
     pl_post_sweep = False, pl_buyback = None\<rparr>"

definition invalid_replay :: error where
  "invalid_replay = ErrStore ''legacy call, events or stage disagrees with audited job''"

record parties =
  pt_treasury :: account_id
  pt_deposit :: account_id
  pt_hotkey :: account_id

text \<open>The arms of the match on the call; a guard that fails falls through to the last arm.\<close>

definition replay_destroy ::
    "'k crypto \<Rightarrow> legacy_manifest \<Rightarrow> destroy \<Rightarrow> account_id \<Rightarrow> u16 \<Rightarrow> u64 \<Rightarrow> tx_ref \<Rightarrow> event_summary \<Rightarrow>
     replay_state \<Rightarrow> replay_state res" where
  "replay_destroy cr m d target netuid alpha tx s st =
     and_then (ok_or invalid_replay (lm_budget m)) (\<lambda>b.
     and_then (ok_or invalid_replay (pl_buyback st)) (\<lambda>receipt.
     if bb_destroy b \<noteq> d \<or> ss58 cr target \<noteq> bb_hotkey b \<or> netuid \<noteq> bb_netuid b \<or> br_destroy_tx receipt \<noteq> None
        \<or> alpha \<noteq> br_alpha_bought receipt \<or> es_alpha_destroyed s \<noteq> Some alpha
     then Inl invalid_replay
     else Inr (st\<lparr>pl_buyback := Some (receipt\<lparr>br_destroy_tx := Some tx, br_alpha_destroyed := alpha\<rparr>)\<rparr>)))"

fun replay_call ::
    "'k crypto \<Rightarrow> payment_record \<Rightarrow> legacy_manifest \<Rightarrow> parties \<Rightarrow> account_id \<Rightarrow> tx_ref \<Rightarrow> event_summary \<Rightarrow>
     replay_state \<Rightarrow> chain_call \<Rightarrow> replay_state res" where
  "replay_call cr r m pt signer tx s st (TransferTao dest amount) =
     (if signer = pt_treasury pt \<and> dest = pt_deposit pt \<and> pl_funded st = 0 \<and> pl_positions st = [] \<and> \<not> pl_dust st
         \<and> pl_buyback st = None \<and> 0 < amount
      then if es_transferred s \<noteq> Some amount then Inl invalid_replay else Inr (st\<lparr>pl_funded := amount\<rparr>)
      else Inl invalid_replay)"
| "replay_call cr r m pt signer tx s st (TransferStake dest source netuid alpha) =
     (if signer = pt_deposit pt \<and> dest = pt_treasury pt \<and> netuid = r_netuid r \<and> \<not> pl_post_sweep st
         \<and> pl_consolidated st = 0 \<and> \<not> pl_dust st \<and> pl_buyback st = None \<and> 0 < alpha
      then if ss58 cr source \<in> set (map fst (pl_positions st)) then Inl invalid_replay
           else Inr (st\<lparr>pl_positions := pl_positions st @ [(ss58 cr source, alpha)]\<rparr>)
      else Inl invalid_replay)"
| "replay_call cr r m pt signer tx s st (MoveStake from to netuid alpha) =
     (if lm_consolidate m \<and> signer = pt_treasury pt \<and> to = pt_hotkey pt \<and> netuid = r_netuid r \<and> \<not> pl_dust st
         \<and> pl_buyback st = None
      then if \<not> (pl_consolidated st < length (pl_positions st) \<and>
                 pl_positions st ! pl_consolidated st = (ss58 cr from, alpha))
           then Inl invalid_replay
           else Inr (st\<lparr>pl_post_sweep := True, pl_consolidated := pl_consolidated st + 1\<rparr>)
      else Inl invalid_replay)"
| "replay_call cr r m pt signer tx s st (TransferAll dest) =
     (if (lm_return_dust m \<or> 0 < r_detected_tao r) \<and> signer = pt_deposit pt \<and> dest = pt_treasury pt \<and> \<not> pl_dust st
         \<and> pl_buyback st = None
      then if lm_consolidate m \<and> pl_consolidated st \<noteq> length (pl_positions st) then Inl invalid_replay
           else Inr (st\<lparr>pl_post_sweep := True, pl_dust := True\<rparr>)
      else Inl invalid_replay)"
| "replay_call cr r m pt signer tx s st (AddStakeLimit target netuid tao limit_price allow_partial) =
     (if \<not> allow_partial \<and> signer = pt_treasury pt \<and> pl_buyback st = None
      then if lm_consolidate m \<and> pl_consolidated st \<noteq> length (pl_positions st)
              \<or> (lm_return_dust m \<or> 0 < r_detected_tao r) \<and> \<not> pl_dust st
           then Inl invalid_replay
           else
             and_then (ok_or invalid_replay (lm_budget m)) (\<lambda>b.
             and_then (ok_or invalid_replay (es_stake_added s)) (\<lambda>(spent, bought).
             if ss58 cr target \<noteq> bb_hotkey b \<or> netuid \<noteq> bb_netuid b \<or> tao \<noteq> bb_amount_rao b \<or> spent \<noteq> tao
                \<or> bought = 0
             then Inl invalid_replay
             else Inr (st\<lparr>pl_post_sweep := True,
                    pl_buyback := Some \<lparr>br_netuid = netuid, br_tao_spent = spent, br_alpha_bought = bought,
                      br_limit_price = limit_price, br_stake_tx = tx, br_destroy_tx = None,
                      br_alpha_destroyed = 0\<rparr>\<rparr>)))
      else Inl invalid_replay)"
| "replay_call cr r m pt signer tx s st (BurnAlpha target netuid alpha) =
     (if signer = pt_treasury pt then replay_destroy cr m Burn target netuid alpha tx s st
      else Inl invalid_replay)"
| "replay_call cr r m pt signer tx s st (RecycleAlpha target netuid alpha) =
     (if signer = pt_treasury pt then replay_destroy cr m Recycle target netuid alpha tx s st
      else Inl invalid_replay)"
| "replay_call cr r m pt signer tx s st (AssociateHotkey _) = Inl invalid_replay"

definition replay_step ::
    "'k crypto \<Rightarrow> payment_record \<Rightarrow> legacy_manifest \<Rightarrow> parties \<Rightarrow> legacy_transaction \<times> event_summary \<Rightarrow>
     replay_state \<Rightarrow> replay_state res" where
  "replay_step cr r m pt x st =
     (case x of (t, s) \<Rightarrow>
      and_then (parse_ss58 cr (lt_signer t)) (\<lambda>signer.
      let (p, e) = expected_event (lt_call t) in
      if es_failed s \<or> \<not> summary_has s ''System'' ''ExtrinsicSuccess'' \<or> \<not> summary_has s p e
      then Inl invalid_replay
      else replay_call cr r m pt signer (lt_receipt t) s st (lt_call t)))"

definition add_position :: "string \<times> u64 \<Rightarrow> u64 option \<Rightarrow> u64 option" where
  "add_position p amount_sum = Option.bind amount_sum (\<lambda>a. checked_add a (snd p))"

definition replay_stage :: "payment_record \<Rightarrow> payment_state" where
  "replay_stage r =
     (if r_state r = Failed then case r_failed_from r of None \<Rightarrow> r_state r | Some s \<Rightarrow> s else r_state r)"

text \<open>Whether the recomputed accounting is the stored one.\<close>

definition reproduces :: "payment_record \<Rightarrow> legacy_manifest \<Rightarrow> replay_state \<Rightarrow> u64 \<Rightarrow> bool" where
  "reproduces r m st amount_sum \<longleftrightarrow>
     (let complete = (case pl_buyback st of
            None \<Rightarrow> False
          | Some b \<Rightarrow> br_destroy_tx b \<noteq> None \<or> (case lm_budget m of None \<Rightarrow> False | Some p \<Rightarrow> bb_destroy p = Keep))
      in \<not> (replay_stage r = Funded \<and>
              (pl_consolidated st \<noteq> 0 \<or> pl_dust st \<or> pl_buyback st \<noteq> None \<or> r_buyback_done r)
            \<or> pl_funded st \<noteq> r_funded_tao r \<or> pl_positions st \<noteq> r_swept_positions r \<or> amount_sum \<noteq> r_swept_alpha r
            \<or> pl_consolidated st \<noteq> r_consolidated r \<or> pl_dust st \<noteq> r_dust_returned r
            \<or> pl_buyback st \<noteq> r_buyback r \<or> r_buyback_done r \<and> \<not> complete))"

definition recovered_record :: "payment_record \<Rightarrow> legacy_manifest \<Rightarrow> payment_record" where
  "recovered_record r m =
     r\<lparr>r_identity := Some \<lparr>ji_genesis_hash = lm_genesis_hash m, ji_treasury = lm_treasury m,
          ji_treasury_hotkey = lm_treasury_hotkey m, ji_consolidate = lm_consolidate m,
          ji_return_dust = lm_return_dust m\<rparr>,
       r_auto_required := Some (lm_budget m \<noteq> None), r_buyback_budget := lm_budget m\<rparr>"

definition replay ::
    "'k crypto \<Rightarrow> payment_record \<Rightarrow> legacy_manifest \<Rightarrow> event_summary list \<times> u64 \<times> string \<Rightarrow>
     (payment_record \<times> recovery_report) res" where
  "replay cr r m evidence =
     (case evidence of (summaries, block, hash) \<Rightarrow>
      and_then (validate_manifest cr r m) (\<lambda>_.
      if length summaries \<noteq> length (lm_transactions m) then Inl (ErrStore ''missing archived receipts'')
      else
        and_then (parse_ss58 cr (lm_treasury m)) (\<lambda>treasury.
        and_then (parse_ss58 cr (r_address r)) (\<lambda>deposit.
        and_then (parse_ss58 cr (lm_treasury_hotkey m)) (\<lambda>hotkey.
        and_then (fold_result
            (replay_step cr r m \<lparr>pt_treasury = treasury, pt_deposit = deposit, pt_hotkey = hotkey\<rparr>)
            (zip (lm_transactions m) summaries) replay_start) (\<lambda>st.
        and_then (ok_or (ErrStore ''legacy amount overflow'')
            (fold add_position (pl_positions st) (Some 0))) (\<lambda>amount_sum.
        if \<not> reproduces r m st amount_sum
        then Inl (ErrStore ''legacy receipts do not reproduce stored accounting'')
        else Inr (recovered_record r m,
               \<lparr>rr_job = r_id r, rr_previous_version = r_version r, rr_genesis_hash = lm_genesis_hash m,
                rr_finalized_block = block, rr_finalized_hash = hash,
                rr_transactions = length (lm_transactions m), rr_applied = False\<rparr>))))))))"

section \<open>The archive scan\<close>

definition bad_archive :: error where
  "bad_archive = ErrChain ''incomplete or inconsistent legacy archive evidence''"

record archive_state =
  as_nonces :: "(account_id \<times> u64) list"
  as_summaries :: "event_summary list"

definition start_nonce :: "('c, 'k) node \<Rightarrow> block_ref \<Rightarrow> account_id \<Rightarrow> ('c, error, u64) io" where
  "start_nonce nd b who =
     io_bind (ask (nd_account nd b who)) (\<lambda>info.
     io_ret (case info of None \<Rightarrow> 0 | Some (_, nonce) \<Rightarrow> ucast nonce))"

text \<open>One extrinsic of one of the two signers: it must be the next transaction of the manifest.\<close>

definition archive_entry ::
    "'k crypto \<Rightarrow> ('c, 'k) node \<Rightarrow> legacy_manifest \<Rightarrow> block_ref \<Rightarrow> u64 \<Rightarrow> extrinsic \<Rightarrow> account_id \<Rightarrow>
     archive_state \<Rightarrow> ('c, error, archive_state) io" where
  "archive_entry cr nd m b number ext signer st =
     io_bind (io_lift (ok_or (ErrChain (''unexplained signer activity at block '' @ show_nat (unat number) @
          '', extrinsic '' @ show_nat (xt_index ext) @ ''; multi-job treasury histories are unsupported''))
        (if length (as_summaries st) < length (lm_transactions m)
         then Some (lm_transactions m ! length (as_summaries st)) else None))) (\<lambda>expected.
     io_bind (io_lift (ok_or bad_archive (xt_nonce ext))) (\<lambda>nonce.
     if lt_block expected \<noteq> number \<or> lt_index expected \<noteq> xt_index ext
        \<or> lt_signer expected \<noteq> ss58 cr signer \<or> lt_nonce expected \<noteq> nonce
        \<or> map_of (as_nonces st) signer \<noteq> Some nonce
        \<or> tr_tx_hash (lt_receipt expected) \<noteq> xt_hash ext
        \<or> tr_block_hash (lt_receipt expected) \<noteq> bk_hash b
     then io_fail bad_archive
     else
       io_bind (io_lift (map_err chain_err (nd_call_data nd b (payload (lt_call expected))))) (\<lambda>data.
       if data \<noteq> xt_call_data ext then io_fail bad_archive
       else
         io_bind (io_lift (ok_or bad_archive (checked_add nonce 1))) (\<lambda>next.
         io_bind (ask (nd_extrinsic_events nd b ext)) (\<lambda>events.
         io_bind (io_lift (from_events (nd_codec nd) events)) (\<lambda>summary.
         io_ret \<lparr>as_nonces = (signer, next) # as_nonces st, as_summaries = as_summaries st @ [summary]\<rparr>))))))"

fun archive_block ::
    "'k crypto \<Rightarrow> ('c, 'k) node \<Rightarrow> legacy_manifest \<Rightarrow> account_id \<times> account_id \<Rightarrow> block_ref \<Rightarrow> u64 \<Rightarrow>
     (string + extrinsic) list \<Rightarrow> archive_state \<Rightarrow> ('c, error, archive_state) io" where
  "archive_block cr nd m who b number [] st = io_ret st"
| "archive_block cr nd m who b number (x # xs) st =
     io_bind (io_lift (map_err chain_err x)) (\<lambda>ext.
     case xt_address ext of
       None \<Rightarrow> archive_block cr nd m who b number xs st
     | Some address \<Rightarrow>
         io_bind (io_lift (ok_or bad_archive (signer_of address))) (\<lambda>signer.
         if signer \<noteq> fst who \<and> signer \<noteq> snd who then archive_block cr nd m who b number xs st
         else
           io_bind (archive_entry cr nd m b number ext signer st) (archive_block cr nd m who b number xs)))"

fun archive_scan ::
    "'k crypto \<Rightarrow> ('c, 'k) node \<Rightarrow> legacy_manifest \<Rightarrow> account_id \<times> account_id \<Rightarrow> u64 list \<Rightarrow>
     archive_state \<Rightarrow> ('c, error, archive_state) io" where
  "archive_scan cr nd m who [] st = io_ret st"
| "archive_scan cr nd m who (n # ns) st =
     io_bind (ask (nd_at_block nd n)) (\<lambda>b.
     io_bind (ask (nd_extrinsics nd b)) (\<lambda>exts.
     io_bind (archive_block cr nd m who b n exts st) (archive_scan cr nd m who ns)))"

definition archive_horizon :: "legacy_manifest \<Rightarrow> u64 option" where
  "archive_horizon m =
     Option.bind (checked_add (lm_stopped_at m) (lm_maximum_mortality m)) (\<lambda>n. checked_add n 1)"

definition verify_legacy_archive ::
    "'k crypto \<Rightarrow> ('c, 'k) node \<Rightarrow> payment_record \<Rightarrow> legacy_manifest \<Rightarrow>
     ('c, error, event_summary list \<times> u64 \<times> string) io" where
  "verify_legacy_archive cr nd r m =
     (if chain_genesis_hash nd \<noteq> lm_genesis_hash m then io_fail bad_archive
      else
        io_bind (finalized_head nd) (\<lambda>(head, hash).
        io_bind (io_lift (ok_or bad_archive (archive_horizon m))) (\<lambda>horizon.
        if head \<le> horizon then io_fail bad_archive
        else
          io_bind (io_lift (ok_or bad_archive (checked_sub head (lm_first_block m)))) (\<lambda>width.
          if 100000 < width then io_fail bad_archive
          else
            io_bind (io_lift (parse_ss58 cr (lm_treasury m))) (\<lambda>treasury.
            io_bind (io_lift (parse_ss58 cr (r_address r))) (\<lambda>deposit.
            io_bind (ask (nd_at_block nd (lm_first_block m - 1))) (\<lambda>start.
            io_bind (start_nonce nd start treasury) (\<lambda>n1.
            io_bind (start_nonce nd start deposit) (\<lambda>n2.
            io_bind (archive_scan cr nd m (treasury, deposit) (block_range (lm_first_block m) head)
                \<lparr>as_nonces = [(deposit, n2), (treasury, n1)], as_summaries = []\<rparr>) (\<lambda>st.
            if length (as_summaries st) \<noteq> length (lm_transactions m) then io_fail bad_archive
            else
              io_bind (block_hash_at nd head) (\<lambda>anchor.
              if anchor \<noteq> Some hash then io_fail bad_archive
              else io_ret (as_summaries st, head, hash))))))))))))"

definition verify ::
    "'k crypto \<Rightarrow> ('c, 'k) node \<Rightarrow> payment_record \<Rightarrow> legacy_manifest \<Rightarrow>
     ('c, error, payment_record \<times> recovery_report) io" where
  "verify cr nd r m =
     io_bind (io_lift (validate_manifest cr r m)) (\<lambda>_.
     io_bind (verify_legacy_archive cr nd r m) (\<lambda>evidence. io_lift (replay cr r m evidence)))"

definition dry_run ::
    "'k crypto \<Rightarrow> ('c, 'k) node \<Rightarrow> payment_record \<Rightarrow> legacy_manifest \<Rightarrow> ('c, error, recovery_report) io" where
  "dry_run cr nd r m = io_bind (verify cr nd r m) (\<lambda>x. io_ret (snd x))"

section \<open>Applying a manifest\<close>

text \<open>The query \<open>busy\<close>: a reservation of one of the signers or of the job, or a journal entry or a
  quarantined one of a signer.\<close>

definition recovery_busy :: "string list \<Rightarrow> string \<Rightarrow> sqlite_db \<Rightarrow> bool" where
  "recovery_busy signers job d \<longleftrightarrow>
     list_ex (\<lambda>v. rs_signer v \<in> set signers \<or> rs_job v = job) (db_reservations d) \<or>
     list_ex (\<lambda>row. (\<exists>s \<in> set signers. journal_signer (row_record row) = Some s \<or>
                       map_option pd_signer (r_quarantined (row_record row)) = Some s)) (db_payments d)"

record serializers =
  sr_manifest :: "legacy_manifest \<Rightarrow> string"
  sr_report :: "recovery_report \<Rightarrow> string"

text \<open>The writes after verification, on the record that was read; the audit table has the primary key
  of job and previous version.\<close>

definition commit_recovery ::
    "serializers \<Rightarrow> u64 \<Rightarrow> payment_record \<Rightarrow> legacy_manifest \<Rightarrow> payment_record \<times> recovery_report \<Rightarrow> sqlite_db \<Rightarrow>
     (recovery_report \<times> sqlite_db) res" where
  "commit_recovery sr now r m x d =
     (let out_of_range = ErrStore ''out of range integral type conversion attempted'' in
      and_then (ok_or (ErrStore ''version overflow'') (checked_add (r_version (fst x)) 1)) (\<lambda>v.
      let next = (fst x)\<lparr>r_version := v, r_updated_at := now\<rparr>; report = (snd x)\<lparr>rr_applied := True\<rparr> in
      and_then (ok_or out_of_range (i64_try_from v)) (\<lambda>version.
      and_then (ok_or out_of_range (i64_try_from (r_version r))) (\<lambda>previous.
      let hit = (\<lambda>row. row_id row = r_id next \<and> row_version row = previous) in
      if length (filter hit (db_payments d)) \<noteq> 1 then Inl (Conflict (r_id r))
      else if list_ex (\<lambda>l. lr_job l = r_id r \<and> lr_previous_version l = previous) (db_recoveries d)
      then Inl (ErrStore ''UNIQUE constraint failed: legacy_recoveries.job, legacy_recoveries.previous_version'')
      else Inr (report,
             d\<lparr>db_payments := map (\<lambda>row. if hit row then row\<lparr>row_version := version, row_record := next\<rparr>
                                          else row) (db_payments d),
               db_recoveries := db_recoveries d @
                 [\<lparr>lr_job = r_id r, lr_previous_version = previous, lr_manifest = sr_manifest sr m,
                   lr_report = sr_report sr report\<rparr>]\<rparr>)))))"

text \<open>The whole import, on the state of the outside and the database; the database is locked for
  writing from the first read to the commit, and an error rolls back.\<close>

definition recover_legacy ::
    "'k crypto \<Rightarrow> ('c, 'k) node \<Rightarrow> serializers \<Rightarrow> u64 \<Rightarrow> legacy_manifest \<Rightarrow>
     ('c \<times> sqlite_db, error, recovery_report) io" where
  "recover_legacy cr nd sr now m = (\<lambda>(c, d).
     case find_row (lm_job m) d of
       None \<Rightarrow> (Inl (ErrStore ''Query returned no rows''), c, d)
     | Some row \<Rightarrow>
         (let r = row_record row in
          case validate_manifest cr r m of
            Inl e \<Rightarrow> (Inl e, c, d)
          | Inr _ \<Rightarrow>
              if recovery_busy [r_address r, lm_treasury m] (r_id r) d
              then (Inl (Conflict ''legacy recovery signers have unresolved ownership''), c, d)
              else
                (case verify cr nd r m c of
                   (Inl e, c') \<Rightarrow> (Inl e, c', d)
                 | (Inr x, c') \<Rightarrow>
                     (case commit_recovery sr now r m x d of
                        Inl e \<Rightarrow> (Inl e, c', d)
                      | Inr (report, d') \<Rightarrow> (Inr report, c', d')))))"

end
