(* ===== verification/Recovery_Facts.thy ===== *)
theory Recovery_Facts
  imports Recovery Journal
begin

text \<open>
  What an accepted legacy history means: its transactions applied with the engine's own bookkeeping
  reproduce the stored record (a simulation between \<open>replay\<close> and \<open>apply\<close>), they are in the order of
  the engine's steps, they are all the transactions of the two signers, and importing them changes
  the database in one step or not at all.
\<close>

section \<open>Replay and the engine's bookkeeping\<close>

text \<open>The action the engine journals for a call.\<close>

fun action_of :: "'k crypto \<Rightarrow> chain_call \<Rightarrow> action option" where
  "action_of cr (TransferTao _ _) = Some Fund"
| "action_of cr (TransferStake _ hk _ _) = Some (Sweep (ss58 cr hk))"
| "action_of cr (MoveStake hk _ _ _) = Some (Consolidate (ss58 cr hk))"
| "action_of cr (TransferAll _) = Some ReturnDust"
| "action_of cr (AddStakeLimit _ netuid _ limit_price _) = Some (BuyStake netuid limit_price)"
| "action_of cr (BurnAlpha _ netuid _) = Some (Destroy netuid False)"
| "action_of cr (RecycleAlpha _ netuid _) = Some (Destroy netuid True)"
| "action_of cr (AssociateHotkey _) = None"

definition engine_step ::
    "'k crypto \<Rightarrow> legacy_transaction \<times> event_summary \<Rightarrow> payment_record \<Rightarrow> payment_record res" where
  "engine_step cr x q =
     (case action_of cr (lt_call (fst x)) of
        None \<Rightarrow> Inl invalid_replay
      | Some a \<Rightarrow> apply_action a (lt_receipt (fst x)) (snd x) q)"

definition fresh_accounting :: "payment_record \<Rightarrow> payment_record" where
  "fresh_accounting r = r\<lparr>r_state := Detected, r_funded_tao := 0, r_swept_alpha := 0, r_swept_positions := [],
     r_consolidated := 0, r_dust_returned := False, r_buyback := None\<rparr>"

definition same_accounting :: "payment_record \<Rightarrow> payment_record \<Rightarrow> bool" where
  "same_accounting q r \<longleftrightarrow>
     r_funded_tao q = r_funded_tao r \<and> r_swept_alpha q = r_swept_alpha r \<and>
     r_swept_positions q = r_swept_positions r \<and> r_consolidated q = r_consolidated r \<and>
     r_dust_returned q = r_dust_returned r \<and> r_buyback q = r_buyback r"

definition replay_rel :: "replay_state \<Rightarrow> payment_record \<Rightarrow> bool" where
  "replay_rel st q \<longleftrightarrow>
     r_funded_tao q = pl_funded st \<and> r_swept_positions q = pl_positions st \<and>
     r_swept_alpha q = sum_list (map snd (pl_positions st)) \<and> r_consolidated q = pl_consolidated st \<and>
     r_dust_returned q = pl_dust st \<and> r_buyback q = pl_buyback st \<and>
     (pl_funded st = 0 \<longrightarrow> r_state q = Detected) \<and>
     (\<forall>b. pl_buyback st = Some b \<longrightarrow> br_alpha_bought b \<noteq> 0)"

lemma replay_step_InrD:
  assumes "replay_step cr r m pt (t, s) st = Inr st'"
  obtains signer where "parse_ss58 cr (lt_signer t) = Inr signer"
    "summary_has s (fst (expected_event (lt_call t))) (snd (expected_event (lt_call t)))"
    "replay_call cr r m pt signer (lt_receipt t) s st (lt_call t) = Inr st'"
  using assms by (auto simp: replay_step_def Let_def result_simps case_prod_beta split: if_splits)

lemma replay_destroy_simulates:
  assumes "replay_destroy cr m d h n a tx s st = Inr st'" and "replay_rel st q"
  shows "\<exists>q'. apply_action (Destroy n k) tx s q = Inr q' \<and> replay_rel st' q'"
proof -
  obtain b where "pl_buyback st = Some b" "a = br_alpha_bought b" "es_alpha_destroyed s = Some a"
    "st' = st\<lparr>pl_buyback := Some (b\<lparr>br_destroy_tx := Some tx, br_alpha_destroyed := a\<rparr>)\<rparr>"
    using assms(1) by (auto simp: replay_destroy_def result_simps split: if_splits)
  then show ?thesis using assms(2) by (simp add: replay_rel_def)
qed

lemma replay_step_simulates:
  assumes "replay_step cr r m pt (t, s) st = Inr st'" and "replay_rel st q"
    and "tr_amount (lt_receipt t) = call_amount (lt_call t)"
  shows "\<exists>q'. engine_step cr (t, s) q = Inr q' \<and> replay_rel st' q'"
proof -
  obtain signer where c: "replay_call cr r m pt signer (lt_receipt t) s st (lt_call t) = Inr st'"
    and e: "summary_has s (fst (expected_event (lt_call t))) (snd (expected_event (lt_call t)))"
    using replay_step_InrD [OF assms(1)] by metis
  show ?thesis
  proof (cases "lt_call t")
    case (TransferTao d a)
    then show ?thesis using c assms(2,3)
      by (auto simp: engine_step_def replay_rel_def transition_def resume_ok_def split: if_splits)
  next
    case (TransferStake d h n a)
    then show ?thesis using c e assms(2,3)
      by (auto simp: engine_step_def replay_rel_def split: if_splits)
  next
    case (AddStakeLimit h n tao l p)
    then obtain bought where "es_stake_added s = Some (tao, bought)" "bought \<noteq> 0"
      "st' = st\<lparr>pl_post_sweep := True, pl_buyback := Some \<lparr>br_netuid = n, br_tao_spent = tao,
         br_alpha_bought = bought, br_limit_price = l, br_stake_tx = lt_receipt t, br_destroy_tx = None,
         br_alpha_destroyed = 0\<rparr>\<rparr>"
      using c by (auto simp: result_simps split: if_splits)
    then show ?thesis using AddStakeLimit assms(2,3) by (simp add: engine_step_def replay_rel_def)
  next
    case (BurnAlpha h n a)
    then show ?thesis
      using replay_destroy_simulates [of cr m Burn h n a "lt_receipt t" s st st' q False] c assms(2)
      by (simp add: engine_step_def split: if_splits)
  next
    case (RecycleAlpha h n a)
    then show ?thesis
      using replay_destroy_simulates [of cr m Recycle h n a "lt_receipt t" s st st' q True] c assms(2)
      by (simp add: engine_step_def split: if_splits)
  qed (use c assms(2) in \<open>auto simp: engine_step_def replay_rel_def split: if_splits\<close>)
qed

lemma add_positions_sum:
  "fold add_position ps (Some a) = Some x \<Longrightarrow> x = a + sum_list (map snd ps)"
proof (induction ps arbitrary: a)
  case (Cons p ps)
  have simps: "add_position y None = None" "add_position y (Some c) = checked_add c (snd y)" for y c
    by (simp_all add: add_position_def)
  have n: "fold add_position qs None = None" for qs by (induction qs) (simp_all add: simps)
  then obtain b where b: "checked_add a (snd p) = Some b" "fold add_position ps (Some b) = Some x"
    using Cons.prems by (cases "checked_add a (snd p)") (auto simp: simps)
  then have "b = a + snd p" by (auto simp: checked_add_def split: if_splits)
  then show ?case using Cons.IH [OF b(2)] by (simp add: add.assoc)
qed simp

lemma transactions_ok_amounts:
  "transactions_ok r m prev hs ns ts \<Longrightarrow> t \<in> set ts \<Longrightarrow>
   tr_amount (lt_receipt t) = call_amount (lt_call t) \<and> tr_action (lt_receipt t) = call_name (lt_call t) \<and>
   lm_first_block m \<le> lt_block t \<and> lt_block t \<le> lm_stopped_at m \<and>
   (lt_signer t = lm_treasury m \<or> lt_signer t = r_address r)"
  by (induction ts arbitrary: prev hs ns) (auto split: if_splits)

lemma validate_manifest_InrD:
  assumes "validate_manifest cr r m = Inr u"
  shows "r_id r = lm_job m" "r_version r = lm_version m" "\<not> unfit_record r m" "\<not> started_too_early r m"
    "transactions_ok r m None {} {} (lm_transactions m)" "map lt_receipt (lm_transactions m) = r_txs r"
    "\<And>b. lm_budget m = Some b \<Longrightarrow> budget_validate cr b = Inr ()"
  using assms by (auto simp: validate_manifest_def result_simps split: if_splits option.splits)

lemma replay_InrD:
  assumes "replay cr r m (ss, block, hash) = Inr (next, report)"
  obtains pt st x where "validate_manifest cr r m = Inr ()" "length ss = length (lm_transactions m)"
    "fold_result (replay_step cr r m pt) (zip (lm_transactions m) ss) replay_start = Inr st"
    "fold add_position (pl_positions st) (Some 0) = Some x" "reproduces r m st x"
    "next = recovered_record r m"
    "report = \<lparr>rr_job = r_id r, rr_previous_version = r_version r, rr_genesis_hash = lm_genesis_hash m,
       rr_finalized_block = block, rr_finalized_hash = hash, rr_transactions = length (lm_transactions m),
       rr_applied = False\<rparr>"
  using assms by (auto simp: replay_def result_simps split: if_splits)

text \<open>C14: recovery and the running engine keep the same books.  Whenever a legacy history is
  accepted, applying its finalized transactions one by one with the engine's own \<open>apply\<close>, to a job
  that has done nothing yet, succeeds and gives exactly the amounts, positions, counters and
  receipts that the stored record has.\<close>

theorem replay_refines_apply:
  assumes "replay cr r m (ss, block, hash) = Inr (next, report)"
  shows "\<exists>q. fold_result (engine_step cr) (zip (lm_transactions m) ss) (fresh_accounting r) = Inr q \<and>
           same_accounting q r"
proof -
  obtain pt st x where v: "validate_manifest cr r m = Inr ()"
    and st: "fold_result (replay_step cr r m pt) (zip (lm_transactions m) ss) replay_start = Inr st"
    and x: "fold add_position (pl_positions st) (Some 0) = Some x" "reproduces r m st x"
    using replay_InrD [OF assms] by metis
  have "replay_rel replay_start (fresh_accounting r)"
    by (simp add: replay_rel_def replay_start_def fresh_accounting_def)
  from fold_result_simulation [where R = replay_rel, OF st this, of "engine_step cr"]
  obtain q where q: "fold_result (engine_step cr) (zip (lm_transactions m) ss) (fresh_accounting r) = Inr q"
    "replay_rel st q"
    using replay_step_simulates transactions_ok_amounts [OF validate_manifest_InrD(5) [OF v]]
    by (force dest: set_zip_leftD)
  then show ?thesis
    using x(2) add_positions_sum [OF x(1)] by (auto simp: replay_rel_def same_accounting_def reproduces_def Let_def)
qed

section \<open>The order of a legacy history\<close>

fun call_stage :: "chain_call \<Rightarrow> nat" where
  "call_stage (TransferTao _ _) = 0"
| "call_stage (TransferStake _ _ _ _) = 1"
| "call_stage (MoveStake _ _ _ _) = 2"
| "call_stage (TransferAll _) = 3"
| "call_stage (AddStakeLimit _ _ _ _ _) = 4"
| "call_stage (BurnAlpha _ _ _) = 5"
| "call_stage (RecycleAlpha _ _ _) = 5"
| "call_stage (AssociateHotkey _) = 6"

text \<open>Sweeps and consolidations may repeat, every other stage happens at most once.\<close>

definition stage_before :: "nat \<Rightarrow> nat \<Rightarrow> bool" where
  "stage_before a b \<longleftrightarrow> a < b \<or> a = b \<and> a \<in> {1, 2}"

definition replay_progress :: "replay_state \<Rightarrow> nat" where
  "replay_progress st =
     (case pl_buyback st of
        Some b \<Rightarrow> if br_destroy_tx b \<noteq> None then 6 else 5
      | None \<Rightarrow> if pl_dust st then 4 else if pl_post_sweep st then 2
                else if pl_positions st \<noteq> [] \<or> pl_funded st \<noteq> 0 then 1 else 0)"

definition replay_ordered :: "replay_state \<Rightarrow> bool" where
  "replay_ordered st \<longleftrightarrow> (pl_post_sweep st \<longrightarrow> pl_positions st \<noteq> [] \<or> pl_dust st \<or> pl_buyback st \<noteq> None)"

lemma replay_destroy_progress:
  assumes "replay_destroy cr m d h n a tx s st = Inr st'"
  shows "replay_progress st \<le> 5 \<and> replay_ordered st' \<and> 6 \<le> replay_progress st'"
proof -
  obtain b where "pl_buyback st = Some b" "br_destroy_tx b = None"
    "st' = st\<lparr>pl_buyback := Some (b\<lparr>br_destroy_tx := Some tx, br_alpha_destroyed := a\<rparr>)\<rparr>"
    using assms by (auto simp: replay_destroy_def result_simps split: if_splits)
  then show ?thesis by (simp add: replay_progress_def replay_ordered_def)
qed

lemma replay_call_progress:
  assumes "replay_call cr r m pt signer tx s st call = Inr st'" and "replay_ordered st"
  shows "replay_progress st \<le> call_stage call \<and> replay_ordered st' \<and>
         (if call_stage call \<in> {1, 2} then call_stage call else Suc (call_stage call)) \<le> replay_progress st'"
proof -
  note defs = replay_progress_def replay_ordered_def
  show ?thesis
  proof (cases call)
    case (AddStakeLimit h n tao l p)
    then obtain b where "pl_buyback st = None" "st' = st\<lparr>pl_post_sweep := True, pl_buyback := Some b\<rparr>"
      "br_destroy_tx b = None"
      using assms(1) by (auto simp: result_simps split: if_splits)
    then show ?thesis using AddStakeLimit by (simp add: defs)
  next
    case (BurnAlpha h n a)
    then show ?thesis using assms replay_destroy_progress [of cr m Burn h n a tx s st st'] by (simp split: if_splits)
  next
    case (RecycleAlpha h n a)
    then show ?thesis using assms replay_destroy_progress [of cr m Recycle h n a tx s st st'] by (simp split: if_splits)
  qed (use assms in \<open>auto simp: defs split: if_splits\<close>)
qed

lemma replay_sorted:
  assumes "fold_result (replay_step cr r m pt) (zip ts ss) st = Inr st'" and "length ss = length ts"
    and "replay_ordered st"
  shows "sorted_wrt stage_before (map (\<lambda>t. call_stage (lt_call t)) ts) \<and>
         (\<forall>t \<in> set ts. replay_progress st \<le> call_stage (lt_call t))"
  using assms
proof (induction ts arbitrary: ss st)
  case (Cons t ts)
  obtain s ss' where ss: "ss = s # ss'" using Cons.prems(2) by (cases ss) auto
  obtain st1 where s1: "replay_step cr r m pt (t, s) st = Inr st1"
    "fold_result (replay_step cr r m pt) (zip ts ss') st1 = Inr st'"
    using Cons.prems(1) ss by (auto simp: result_simps)
  obtain signer where "replay_call cr r m pt signer (lt_receipt t) s st (lt_call t) = Inr st1"
    using replay_step_InrD [OF s1(1)] by metis
  note p = replay_call_progress [OF this Cons.prems(3)]
  then have ih: "sorted_wrt stage_before (map (\<lambda>t. call_stage (lt_call t)) ts)"
    "\<forall>t \<in> set ts. replay_progress st1 \<le> call_stage (lt_call t)"
    using Cons.IH [OF s1(2)] Cons.prems(2) ss by auto
  have "stage_before (call_stage (lt_call t)) (call_stage (lt_call u))"
    "replay_progress st \<le> call_stage (lt_call u)" if "u \<in> set ts" for u
  proof -
    have le: "replay_progress st1 \<le> call_stage (lt_call u)" using ih(2) that by blast
    show "stage_before (call_stage (lt_call t)) (call_stage (lt_call u))"
      using p le unfolding stage_before_def by (auto split: if_splits)
    show "replay_progress st \<le> call_stage (lt_call u)" using p le by (auto split: if_splits)
  qed
  then show ?case using ih(1) p by auto
qed simp

section \<open>The archive is complete\<close>

definition emitted_by :: "account_id \<times> account_id \<Rightarrow> extrinsic \<Rightarrow> bool" where
  "emitted_by who e \<longleftrightarrow>
     (\<exists>a s. xt_address e = Some a \<and> signer_of a = Some s \<and> (s = fst who \<or> s = snd who))"

definition emissions :: "(u64 \<Rightarrow> chain_block) \<Rightarrow> account_id \<times> account_id \<Rightarrow> u64 list \<Rightarrow> (u64 \<times> extrinsic) list" where
  "emissions ch who ns = concat (map (\<lambda>n. map (Pair n) (filter (emitted_by who) (cb_extrinsics (ch n)))) ns)"

text \<open>The transaction of the manifest is that extrinsic of the chain.\<close>

definition documents ::
    "(u64 \<Rightarrow> chain_block) \<Rightarrow> 'k crypto \<Rightarrow> legacy_transaction \<Rightarrow> u64 \<times> extrinsic \<Rightarrow> bool" where
  "documents ch cr t x \<longleftrightarrow>
     lt_block t = fst x \<and> lt_index t = xt_index (snd x) \<and> tr_tx_hash (lt_receipt t) = xt_hash (snd x) \<and>
     tr_block_hash (lt_receipt t) = cb_hash (ch (fst x)) \<and> Some (lt_nonce t) = xt_nonce (snd x) \<and>
     (\<exists>a s. xt_address (snd x) = Some a \<and> signer_of a = Some s \<and> lt_signer t = ss58 cr s)"

lemma archive_entry_InrD:
  assumes "archive_entry cr nd m b n ext signer st c = (Inr st', c')"
  shows "\<exists>t. length (as_summaries st) < length (lm_transactions m) \<and>
     t = lm_transactions m ! length (as_summaries st) \<and>
     length (as_summaries st') = Suc (length (as_summaries st)) \<and>
     lt_block t = n \<and> lt_index t = xt_index ext \<and> tr_tx_hash (lt_receipt t) = xt_hash ext \<and>
     tr_block_hash (lt_receipt t) = bk_hash b \<and> Some (lt_nonce t) = xt_nonce ext \<and> lt_signer t = ss58 cr signer"
  using assms by (auto simp: archive_entry_def result_simps io_eval split: if_splits)

lemma archive_block_complete:
  assumes "archive_block cr nd m who b n xs st c = (Inr st', c')" and "answers xs ys"
    and "bk_hash b = cb_hash (ch n)" and "length (as_summaries st) \<le> length (lm_transactions m)"
  shows "length (as_summaries st') \<le> length (lm_transactions m) \<and>
     (\<exists>ts. take (length (as_summaries st')) (lm_transactions m) =
          take (length (as_summaries st)) (lm_transactions m) @ ts \<and>
        list_all2 (documents ch cr) ts (map (Pair n) (filter (emitted_by who) ys)))"
  using assms
proof (induction xs arbitrary: ys st c)
  case (Cons x xs)
  then obtain e ys' where y: "ys = e # ys'" "answers xs ys'" and x: "x = Inr e"
    by (auto elim!: answers_ConsE simp: result_simps io_eval)
  show ?case
  proof (cases "emitted_by who e")
    case False
    then have "archive_block cr nd m who b n xs st c = (Inr st', c')"
      using Cons.prems(1) x
      by (auto simp: emitted_by_def result_simps io_eval split: option.splits if_splits)
    then show ?thesis using Cons.IH [OF _ y(2)] Cons.prems(3,4) False y(1) by auto
  next
    case True
    then obtain a s where a: "xt_address e = Some a" "signer_of a = Some s" "s = fst who \<or> s = snd who"
      by (auto simp: emitted_by_def)
    then obtain st1 c1 where s1: "archive_entry cr nd m b n e s st c = (Inr st1, c1)"
      "archive_block cr nd m who b n xs st1 c1 = (Inr st', c')"
      using Cons.prems(1) x by (auto simp: result_simps io_eval split: if_splits)
    let ?k = "length (as_summaries st)"
    let ?t = "lm_transactions m ! ?k"
    have t: "?k < length (lm_transactions m)" "length (as_summaries st1) = Suc ?k" "documents ch cr ?t (n, e)"
      using archive_entry_InrD [OF s1(1)] Cons.prems(3) a by (auto simp: documents_def)
    obtain ts where ts: "length (as_summaries st') \<le> length (lm_transactions m)"
      "take (length (as_summaries st')) (lm_transactions m) = take (Suc ?k) (lm_transactions m) @ ts"
      "list_all2 (documents ch cr) ts (map (Pair n) (filter (emitted_by who) ys'))"
      using Cons.IH [OF s1(2) y(2) Cons.prems(3)] t by auto
    then have "take (length (as_summaries st')) (lm_transactions m) = take ?k (lm_transactions m) @ (?t # ts)"
      using t(1) by (simp add: take_Suc_conv_app_nth)
    then show ?thesis using ts t(3) True y(1) by (intro conjI exI [of _ "?t # ts"]) auto
  qed
qed (auto simp: result_simps io_eval)

lemma archive_scan_complete:
  assumes "finalized_chain nd ch" and "archive_scan cr nd m who ns st c = (Inr st', c')"
    and "length (as_summaries st) \<le> length (lm_transactions m)"
  shows "length (as_summaries st') \<le> length (lm_transactions m) \<and>
     (\<exists>ts. take (length (as_summaries st')) (lm_transactions m) =
          take (length (as_summaries st)) (lm_transactions m) @ ts \<and>
        list_all2 (documents ch cr) ts (emissions ch who ns))"
  using assms(2,3)
proof (induction ns arbitrary: st c)
  case (Cons n ns)
  obtain b c1 xs c2 st1 c3 where r: "nd_at_block nd n c = (Inr b, c1)" "nd_extrinsics nd b c1 = (Inr xs, c2)"
    "archive_block cr nd m who b n xs st c2 = (Inr st1, c3)" "archive_scan cr nd m who ns st1 c3 = (Inr st', c')"
    using Cons.prems(1) by (auto simp: result_simps)
  have b: "bk_number b = n" "bk_hash b = cb_hash (ch n)" using finalized_chainD(1) [OF assms(1) r(1)] by auto
  obtain t1 where t1: "length (as_summaries st1) \<le> length (lm_transactions m)"
    "take (length (as_summaries st1)) (lm_transactions m) = take (length (as_summaries st)) (lm_transactions m) @ t1"
    "list_all2 (documents ch cr) t1 (map (Pair n) (filter (emitted_by who) (cb_extrinsics (ch n))))"
    using archive_block_complete [where ch = ch, OF r(3) _ b(2) Cons.prems(2)] finalized_chainD(2) [OF assms(1) r(2)] b(1) by auto
  obtain t2 where t2: "length (as_summaries st') \<le> length (lm_transactions m)"
    "take (length (as_summaries st')) (lm_transactions m) = take (length (as_summaries st1)) (lm_transactions m) @ t2"
    "list_all2 (documents ch cr) t2 (emissions ch who ns)"
    using Cons.IH [OF r(4) t1(1)] by auto
  have "list_all2 (documents ch cr) (t1 @ t2) (emissions ch who (n # ns))"
    using t1(3) t2(3) by (simp add: emissions_def list_all2_appendI)
  then show ?case using t1(2) t2(1,2) by (intro conjI exI [of _ "t1 @ t2"]) auto
qed (auto simp: result_simps io_eval emissions_def)

section \<open>Committing a recovery\<close>

lemma recovered_record_simps [simp]:
  "r_id (recovered_record r m) = r_id r" "r_state (recovered_record r m) = r_state r"
  "r_version (recovered_record r m) = r_version r" "r_pending (recovered_record r m) = r_pending r"
  by (simp_all add: recovered_record_def)

lemma verify_InrD:
  assumes "verify cr nd r m c = (Inr x, c')"
  shows "\<exists>ss block hash. verify_legacy_archive cr nd r m c = (Inr (ss, block, hash), c') \<and>
           replay cr r m (ss, block, hash) = Inr x \<and> fst x = recovered_record r m"
proof -
  obtain ss block hash where v: "verify_legacy_archive cr nd r m c = (Inr (ss, block, hash), c')"
    "replay cr r m (ss, block, hash) = Inr x"
    using assms by (auto simp: verify_def result_simps)
  then show ?thesis using replay_InrD [of cr r m ss block hash "fst x" "snd x"] by (metis prod.collapse)
qed

lemma commit_recovery_InrD:
  assumes "sqlite_inv d" and "find_row (r_id r) d = Some row" and "row_record row = r"
    and "commit_recovery sr now r m (recovered_record r m, report) d = Inr (report', d')" and "r_pending r = None"
  shows "sqlite_inv d' \<and> db_content d' = (db_content d)(r_id r \<mapsto> next_version now (recovered_record r m)) \<and>
         db_held d' = db_held d \<and> report' = report\<lparr>rr_applied := True\<rparr> \<and>
         (\<forall>l \<in> set (db_recoveries d). lr_job l = r_id r \<longrightarrow> lr_previous_version l \<noteq> sint (r_version r))"
proof -
  let ?r' = "next_version now (recovered_record r m)"
  have nv: "(recovered_record r m)\<lparr>r_version := r_version r + 1, r_updated_at := now\<rparr> = ?r'"
    by (simp add: next_version_def)
  obtain n pv where n: "i64_try_from (r_version r + 1) = Some n" and pv: "i64_try_from (r_version r) = Some pv"
    and fresh: "\<not> list_ex (\<lambda>l. lr_job l = r_id r \<and> lr_previous_version l = pv) (db_recoveries d)"
    and rep: "report' = report\<lparr>rr_applied := True\<rparr>"
    and d': "d' = d\<lparr>db_payments := map (\<lambda>row. if row_id row = r_id r \<and> row_version row = pv
         then row\<lparr>row_version := n, row_record := (recovered_record r m)\<lparr>r_version := r_version r + 1, r_updated_at := now\<rparr>\<rparr>
         else row) (db_payments d),
       db_recoveries := db_recoveries d @ [\<lparr>lr_job = r_id r, lr_previous_version = pv,
         lr_manifest = sr_manifest sr m, lr_report = sr_report sr (report\<lparr>rr_applied := True\<rparr>)\<rparr>]\<rparr>"
    using assms(4)
    by (auto simp: commit_recovery_def Let_def result_simps checked_add_def split: if_splits)
  have pv': "pv = sint (r_version r)" using i64_try_from_SomeD [OF pv] .
  have "row_version y = pv" if "y \<in> set (db_payments d)" "row_id y = r_id r" for y
    using that assms(1-3) find_row_iff [of d "r_id r" y] pv'
    by (auto simp: sqlite_inv_def list_all_iff row_ok_def)
  then have m: "map (\<lambda>row. if row_id row = r_id r \<and> row_version row = pv
      then row\<lparr>row_version := n, row_record := ?r'\<rparr> else row) (db_payments d) =
      db_payments (set_rows (r_id r) (\<lambda>row. row\<lparr>row_version := n, row_record := ?r'\<rparr>) d)"
    by (auto simp: set_rows_def)
  let ?d = "set_rows (r_id r) (\<lambda>row. row\<lparr>row_version := n, row_record := ?r'\<rparr>) d"
  have inv: "sqlite_inv ?d"
    using assms i64_try_from_SomeD [OF n] by (intro replace_record_inv) auto
  have con: "db_content ?d = (db_content d)(r_id r \<mapsto> ?r')"
    using assms(2) by (intro db_content_set_rows) simp_all
  obtain rs where "d' = ?d\<lparr>db_recoveries := rs\<rparr>" using d' [unfolded nv m] by (auto simp: set_rows_def)
  then show ?thesis
    using inv con rep fresh pv'
    by (auto simp: sqlite_inv_def db_content_def find_row_def db_held_def list_ex_iff set_rows_def fun_eq_iff)
qed

section \<open>Properties\<close>

text \<open>C30: an accepted history is in the order of the engine's steps: at most one funding first, then
  sweeps, then consolidations, then at most one return of dust, one purchase and one destruction.\<close>

theorem accepted_history_ordered:
  assumes "replay cr r m (ss, block, hash) = Inr (next, report)"
  shows "sorted_wrt stage_before (map (\<lambda>t. call_stage (lt_call t)) (lm_transactions m))"
proof -
  obtain pt st where "length ss = length (lm_transactions m)"
    "fold_result (replay_step cr r m pt) (zip (lm_transactions m) ss) replay_start = Inr st"
    using replay_InrD [OF assms] by metis
  then show ?thesis
    using replay_sorted [of cr r m pt "lm_transactions m" ss replay_start st]
    by (simp add: replay_ordered_def replay_start_def)
qed

text \<open>C16: the archive check is exhaustive: when it succeeds, the manifest lists, in chain order and
  with block, index, hash, nonce and signer, exactly the extrinsics that the treasury and the
  deposit account signed between the first block and the head; the head is past the lifetime of
  anything signed before the emitters stopped, and it is still on the finalized chain.\<close>

theorem archive_check_exhaustive:
  assumes "finalized_chain nd ch" and "verify_legacy_archive cr nd r m c = (Inr (ss, head, hash), c')"
  shows "\<exists>treasury deposit. parse_ss58 cr (lm_treasury m) = Inr treasury \<and> parse_ss58 cr (r_address r) = Inr deposit \<and>
     list_all2 (documents ch cr) (lm_transactions m)
       (emissions ch (treasury, deposit) (block_range (lm_first_block m) head)) \<and>
     length ss = length (lm_transactions m) \<and>
     unat (lm_stopped_at m) + unat (lm_maximum_mortality m) + 1 < unat head \<and> hash = cb_hash (ch head)"
proof -
  obtain hz treasury deposit n1 n2 st c1 c2 c3 where a: "archive_horizon m = Some hz" "\<not> head \<le> hz"
    "parse_ss58 cr (lm_treasury m) = Inr treasury" "parse_ss58 cr (r_address r) = Inr deposit"
    and scan: "archive_scan cr nd m (treasury, deposit) (block_range (lm_first_block m) head)
      \<lparr>as_nonces = [(deposit, n2), (treasury, n1)], as_summaries = []\<rparr> c1 = (Inr st, c2)"
    and st: "length (as_summaries st) = length (lm_transactions m)" "ss = as_summaries st"
    and h: "block_hash_at nd head c2 = (Inr (Some hash), c3)"
    using assms(2)
    by (auto simp: verify_legacy_archive_def finalized_head_def result_simps io_eval split: if_splits)
  have "unat hz = unat (lm_stopped_at m) + unat (lm_maximum_mortality m) + 1"
    using a(1) by (auto simp: archive_horizon_def dest!: checked_add_SomeD split: Option.bind_splits)
  moreover have "hash = cb_hash (ch head)"
    using h finalized_chainD(1) [OF assms(1)]
    by (auto simp: block_hash_at_def result_simps io_simps ask_def ask_with_def map_err_def
        split: sum.splits prod.splits)
  ultimately show ?thesis
    using a st archive_scan_complete [OF assms(1) scan] by (auto simp: word_le_nat_alt)
qed

text \<open>C15: importing a legacy job is all or nothing.  Either nothing in the database changes, or the
  record of the job gets the identity and the policy of the manifest under the next version and
  nothing else changes: it had no unresolved transaction, neither signer and not the job held a
  reservation, no record had an unresolved entry of one of the signers, the archive and the replay
  had accepted the manifest, and no import of that version is on record.\<close>

theorem recover_legacy_atomic:
  assumes "sqlite_inv d" and "recover_legacy cr nd sr now m (c, d) = (res, c', d')"
  shows "(\<exists>e. res = Inl e) \<and> d' = d \<or>
     (\<exists>r report ss block hash. res = Inr report \<and> db_content d (lm_job m) = Some r \<and> r_version r = lm_version m \<and>
        r_pending r = None \<and> r_identity r = None \<and>
        verify_legacy_archive cr nd r m c = (Inr (ss, block, hash), c') \<and> is_ok (replay cr r m (ss, block, hash)) \<and>
        (\<forall>s j t. (s, j, t) \<in> db_held d \<longrightarrow> s \<noteq> r_address r \<and> s \<noteq> lm_treasury m \<and> j \<noteq> lm_job m) \<and>
        (\<forall>i q. db_content d i = Some q \<longrightarrow> journal_signer q \<noteq> Some (r_address r) \<and> journal_signer q \<noteq> Some (lm_treasury m)) \<and>
        (\<forall>l \<in> set (db_recoveries d). lr_job l = lm_job m \<longrightarrow> lr_previous_version l \<noteq> sint (lm_version m)) \<and>
        db_content d' = (db_content d)(lm_job m \<mapsto> next_version now (recovered_record r m)) \<and>
        db_held d' = db_held d \<and> sqlite_inv d')"
proof (cases res)
  case (Inl e)
  then show ?thesis
    using assms(2)
    by (auto simp: recover_legacy_def Let_def split: option.splits sum.splits if_splits prod.splits)
next
  case (Inr report)
  obtain row x where row: "find_row (lm_job m) d = Some row" and val: "validate_manifest cr (row_record row) m = Inr ()"
    and idle: "\<not> recovery_busy [r_address (row_record row), lm_treasury m] (r_id (row_record row)) d"
    and v: "verify cr nd (row_record row) m c = (Inr x, c')"
    and com: "commit_recovery sr now (row_record row) m x d = Inr (report, d')"
    using assms(2) Inr
    by (auto simp: recover_legacy_def Let_def split: option.splits sum.splits if_splits prod.splits)
  let ?r = "row_record row"
  have c: "db_content d (lm_job m) = Some ?r" using row by (simp add: db_content_def)
  have f: "r_id ?r = lm_job m" "r_version ?r = lm_version m" "r_pending ?r = None" "r_identity ?r = None"
    using validate_manifest_InrD [OF val] by (auto simp: unfit_record_def)
  obtain ss block hash where e: "verify_legacy_archive cr nd ?r m c = (Inr (ss, block, hash), c')"
    "replay cr ?r m (ss, block, hash) = Inr x" "fst x = recovered_record ?r m"
    using verify_InrD [OF v] by blast
  have commit: "sqlite_inv d' \<and> db_content d' = (db_content d)(lm_job m \<mapsto> next_version now (recovered_record ?r m)) \<and>
      db_held d' = db_held d \<and>
      (\<forall>l \<in> set (db_recoveries d). lr_job l = lm_job m \<longrightarrow> lr_previous_version l \<noteq> sint (lm_version m))"
    using commit_recovery_InrD [OF assms(1), of ?r row sr now m "snd x" report d'] row com e(3) f
    by (metis prod.collapse)
  have held: "\<forall>s j t. (s, j, t) \<in> db_held d \<longrightarrow> s \<noteq> r_address ?r \<and> s \<noteq> lm_treasury m \<and> j \<noteq> lm_job m"
    using idle f(1) by (auto simp: recovery_busy_def db_held_def list_ex_iff)
  have quiet: "journal_signer q \<noteq> Some (r_address ?r) \<and> journal_signer q \<noteq> Some (lm_treasury m)"
    if "db_content d i = Some q" for i q
    using idle that db_content_row [OF assms(1)] by (auto simp: recovery_busy_def list_ex_iff)
  show ?thesis using Inr c f e commit held quiet by (intro disjI2) (auto simp: is_ok_def)
qed
section \<open>Witnesses\<close>

text \<open>A funded job of the treasury \<open>2...2\<close> with one transaction, in block 12 of the demo chain.\<close>

definition legacy_events :: "chain_event list" where
  "legacy_events = [demo_event, \<lparr>ev_phase = ApplyExtrinsic 0, ev_index = 1, ev_pallet = ''System'',
     ev_name = ''ExtrinsicSuccess'', ev_bytes = []\<rparr>]"

definition legacy_node :: "(nat, account_id) node" where
  "legacy_node = (demo_node 15)\<lparr>nd_account := (\<lambda>b a c. (Inr (Some (0, 4)), c)),
     nd_extrinsic_events := (\<lambda>b e c. (Inr (map Inr legacy_events), c))\<rparr>"

definition legacy_chain :: "u64 \<Rightarrow> chain_block" where
  "legacy_chain n = (demo_chain n)\<lparr>cb_events := (\<lambda>_. legacy_events)\<rparr>"

definition legacy_receipt :: tx_ref where
  "legacy_receipt = \<lparr>tr_action = ''transfer_keep_alive'', tr_tx_hash = ''0x1'', tr_block_hash = ''0xb'', tr_amount = 7\<rparr>"

definition legacy_job :: payment_record where
  "legacy_job = (test_record ''a'')\<lparr>r_address := text_of (replicate 32 3), r_auto_required := None,
     r_state := Funded, r_funded_tao := 7, r_txs := [legacy_receipt]\<rparr>"

definition legacy_demo :: legacy_manifest where
  "legacy_demo = \<lparr>lm_job = ''a'', lm_version = 0, lm_genesis_hash = ''0xg'', lm_treasury = text_of (replicate 32 2),
     lm_treasury_hotkey = text_of (replicate 32 4), lm_consolidate = False, lm_return_dust = False,
     lm_budget = None, lm_first_block = 12, lm_stopped_at = 12, lm_maximum_mortality = 1,
     lm_operator_attestation = ''approved-by-audit'', lm_all_stopped = True,
     lm_transactions = [\<lparr>lt_block = 12, lt_index = 0, lt_signer = text_of (replicate 32 2), lt_nonce = 4,
       lt_receipt = legacy_receipt, lt_call = TransferTao (replicate 32 3) 7\<rparr>]\<rparr>"

definition legacy_summary :: event_summary where
  "legacy_summary = summary_of demo_codec legacy_events"

lemma plain_ss58 [simp]:
  "parse_ss58 plain_crypto (text_of b) = Inr b" "ss58 plain_crypto b = text_of b"
  by (simp_all add: parse_ss58_def ss58_def plain_crypto_def)

lemma legacy_simps [simp]:
  "lm_treasury legacy_demo = text_of (replicate 32 2)" "lm_treasury_hotkey legacy_demo = text_of (replicate 32 4)"
  "r_address legacy_job = text_of (replicate 32 3)" "lm_job legacy_demo = ''a''" "r_id legacy_job = ''a''"
  "(replicate 32 2 :: u8 list) \<noteq> replicate 32 3" "(replicate 32 3 :: u8 list) \<noteq> replicate 32 2"
  by (simp_all add: legacy_demo_def legacy_job_def replicate_eq_replicate)

lemma legacy_validates: "validate_manifest plain_crypto legacy_job legacy_demo = Inr ()"
proof -
  have t: "trim ''approved-by-audit'' = ''approved-by-audit''"
    by (simp add: trim_def ws1_def ws2_def ws3_def byte_of_def)
  have "\<not> unfit_record legacy_job legacy_demo" "\<not> started_too_early legacy_job legacy_demo"
    by (simp_all add: unfit_record_def started_too_early_def legacy_job_def legacy_demo_def t test_record_def)
  moreover have "transactions_ok legacy_job legacy_demo None {} {} (lm_transactions legacy_demo)"
    "map lt_receipt (lm_transactions legacy_demo) = r_txs legacy_job" "lm_budget legacy_demo = None"
    "r_version legacy_job = lm_version legacy_demo"
    by (simp_all add: legacy_demo_def legacy_job_def legacy_receipt_def)
  ultimately show ?thesis by (simp add: validate_manifest_def)
qed

lemma legacy_summary_simps:
  "legacy_summary = \<lparr>es_names = [(''Balances'', ''Transfer''), (''System'', ''ExtrinsicSuccess'')], es_failed = False,
     es_stake_added = None, es_alpha_destroyed = None, es_stake_moved_tao = None, es_transferred = Some 7\<rparr>"
  by (simp add: legacy_summary_def summary_of_def legacy_events_def demo_event_def demo_codec_def is_event_def
      last_of_def transfer_amount_def PALLET_def)

lemma legacy_replays:
  "\<exists>report. replay plain_crypto legacy_job legacy_demo ([legacy_summary], 15, ''0xb'') =
     Inr (recovered_record legacy_job legacy_demo, report)"
proof -
  let ?pt = "\<lparr>pt_treasury = replicate 32 2, pt_deposit = replicate 32 3, pt_hotkey = replicate 32 4\<rparr>"
  have "fold_result (replay_step plain_crypto legacy_job legacy_demo ?pt)
      (zip (lm_transactions legacy_demo) [legacy_summary]) replay_start = Inr (replay_start\<lparr>pl_funded := 7\<rparr>)"
    by (simp add: legacy_demo_def replay_step_def legacy_summary_simps summary_has_def replay_start_def)
  moreover have "reproduces legacy_job legacy_demo (replay_start\<lparr>pl_funded := 7\<rparr>) 0"
    by (simp add: reproduces_def legacy_job_def replay_start_def test_record_def Let_def replay_stage_def)
  moreover have "length (lm_transactions legacy_demo) = 1" by (simp add: legacy_demo_def)
  ultimately show ?thesis using legacy_validates by (simp add: replay_def replay_start_def)
qed

theorem replay_refines_apply_witness:
  "\<exists>q. fold_result (engine_step plain_crypto) (zip (lm_transactions legacy_demo) [legacy_summary])
         (fresh_accounting legacy_job) = Inr q \<and> same_accounting q legacy_job"
proof -
  obtain report where "replay plain_crypto legacy_job legacy_demo ([legacy_summary], 15, ''0xb'') =
     Inr (recovered_record legacy_job legacy_demo, report)" using legacy_replays by blast
  then show ?thesis by (rule replay_refines_apply)
qed

theorem accepted_history_ordered_witness:
  "sorted_wrt stage_before (map (\<lambda>t. call_stage (lt_call t)) (lm_transactions legacy_demo))"
proof -
  obtain report where "replay plain_crypto legacy_job legacy_demo ([legacy_summary], 15, ''0xb'') =
     Inr (recovered_record legacy_job legacy_demo, report)" using legacy_replays by blast
  then show ?thesis by (rule accepted_history_ordered)
qed

lemma legacy_node_chain: "finalized_chain legacy_node legacy_chain"
  by (auto simp: finalized_chain_def legacy_node_def demo_node_def legacy_chain_def demo_chain_def)

lemma legacy_events_ok: "from_events demo_codec (map Inr legacy_events) = Inr legacy_summary"
proof -
  have "list_all (fields_ok demo_codec) legacy_events"
    by (simp add: legacy_events_def fields_ok_def demo_codec_def)
  then show ?thesis using from_events_summary_of [of demo_codec legacy_events] by (simp add: legacy_summary_def)
qed

lemma legacy_signer: "signer_of (0 # replicate 32 2) = Some (replicate 32 2)"
  by simp

lemma block_range_12_15: "block_range 12 15 = [12, 13, 14, 15]"
  by (simp add: block_range_def upt_rec)

lemma legacy_archive:
  "verify_legacy_archive plain_crypto legacy_node legacy_job legacy_demo c =
     (Inr ([legacy_summary], 15, ''0xb''), c)"
proof -
  let ?t = "hd (lm_transactions legacy_demo)"
  have e: "archive_entry plain_crypto legacy_node legacy_demo \<lparr>bk_number = 12, bk_hash = ''0xb''\<rparr> 12 demo_extrinsic
      (replicate 32 2) \<lparr>as_nonces = [(replicate 32 3, 4), (replicate 32 2, 4)], as_summaries = []\<rparr> c =
      (Inr \<lparr>as_nonces = [(replicate 32 2, 5), (replicate 32 3, 4), (replicate 32 2, 4)],
            as_summaries = [legacy_summary]\<rparr>, c)"
    using legacy_events_ok
    by (simp add: archive_entry_def legacy_node_def demo_node_def legacy_demo_def demo_extrinsic_def legacy_receipt_def
        io_simps ask_def ask_with_def checked_add_def)
  have s: "archive_scan plain_crypto legacy_node legacy_demo (replicate 32 2, replicate 32 3) [12, 13, 14, 15]
      \<lparr>as_nonces = [(replicate 32 3, 4), (replicate 32 2, 4)], as_summaries = []\<rparr> c =
      (Inr \<lparr>as_nonces = [(replicate 32 2, 5), (replicate 32 3, 4), (replicate 32 2, 4)],
            as_summaries = [legacy_summary]\<rparr>, c)"
    using e legacy_signer
    by (simp add: legacy_node_def demo_node_def demo_chain_def io_simps ask_def ask_with_def demo_extrinsic_def
        del: signer_of.simps)
  show ?thesis
    using s block_range_12_15
    by (simp add: verify_legacy_archive_def chain_genesis_hash_def finalized_head_def archive_horizon_def
        start_nonce_def block_hash_at_def legacy_demo_def legacy_node_def demo_node_def io_simps ask_def ask_with_def
        checked_add_def checked_sub_def)
qed

theorem archive_check_exhaustive_witness:
  "list_all2 (documents legacy_chain plain_crypto) (lm_transactions legacy_demo)
     (emissions legacy_chain (replicate 32 2, replicate 32 3) (block_range 12 15))"
  using archive_check_exhaustive [OF legacy_node_chain legacy_archive [of 0]]
  by simp (simp add: legacy_demo_def)

definition legacy_db :: sqlite_db where
  "legacy_db = snd (sqlite_insert legacy_job empty_db)"

lemma legacy_db_inv: "sqlite_inv legacy_db" "find_row ''a'' legacy_db = Some \<lparr>row_id = ''a'', row_state = as_str Funded,
     row_version = 0, row_created_at = sint (r_created_at legacy_job), row_record = legacy_job\<rparr>"
  "db_reservations legacy_db = []" "db_recoveries legacy_db = []"
  by (simp_all add: legacy_db_def sqlite_insert_def empty_db_def find_row_def sqlite_inv_def row_ok_def row_claims_ok_def
      legacy_job_def test_record_def)

lemma legacy_imports:
  "\<exists>report d'. recover_legacy plain_crypto legacy_node \<lparr>sr_manifest = (\<lambda>_. ''m''), sr_report = (\<lambda>_. ''r'')\<rparr> 9 legacy_demo
     (0, legacy_db) = (Inr report, 0, d')"
proof -
  obtain report where rp: "replay plain_crypto legacy_job legacy_demo ([legacy_summary], 15, ''0xb'') =
     Inr (recovered_record legacy_job legacy_demo, report)" using legacy_replays by blast
  have v: "verify plain_crypto legacy_node legacy_job legacy_demo 0 =
     (Inr (recovered_record legacy_job legacy_demo, report), 0)"
    using legacy_validates legacy_archive [of 0] rp by (simp add: verify_def io_simps)
  have b: "\<not> recovery_busy [r_address legacy_job, lm_treasury legacy_demo] ''a'' legacy_db"
    by (simp add: recovery_busy_def legacy_db_def sqlite_insert_def empty_db_def find_row_def journal_signer_def
        legacy_job_def test_record_def)
  have n: "r_version legacy_job = 0" by (simp add: legacy_job_def test_record_def)
  let ?sr = "\<lparr>sr_manifest = (\<lambda>_. ''m''), sr_report = (\<lambda>_. ''r'')\<rparr>"
  have "\<exists>x. commit_recovery ?sr 9 legacy_job legacy_demo (recovered_record legacy_job legacy_demo, report) legacy_db = Inr x"
    by (simp add: commit_recovery_def n checked_add_def i64_try_from_def legacy_db_inv Let_def)
       (simp add: legacy_db_def sqlite_insert_def empty_db_def find_row_def n)
  then obtain x where "commit_recovery ?sr 9 legacy_job legacy_demo (recovered_record legacy_job legacy_demo, report)
     legacy_db = Inr x" by blast
  then show ?thesis
    using v b legacy_validates by (cases x) (simp add: recover_legacy_def legacy_db_inv)
qed

theorem recover_legacy_atomic_witness:
  "\<exists>report d'. recover_legacy plain_crypto legacy_node \<lparr>sr_manifest = (\<lambda>_. ''m''), sr_report = (\<lambda>_. ''r'')\<rparr> 9 legacy_demo
     (0, legacy_db) = (Inr report, 0, d') \<and>
     db_content d' = (db_content legacy_db)(''a'' \<mapsto> next_version 9 (recovered_record legacy_job legacy_demo))"
proof -
  obtain report d' where r: "recover_legacy plain_crypto legacy_node \<lparr>sr_manifest = (\<lambda>_. ''m''), sr_report = (\<lambda>_. ''r'')\<rparr> 9
     legacy_demo (0, legacy_db) = (Inr report, 0, d')" using legacy_imports by blast
  have "db_content legacy_db ''a'' = Some legacy_job" by (simp add: db_content_def legacy_db_inv)
  then show ?thesis using r recover_legacy_atomic [OF legacy_db_inv(1) r] by auto
qed

end
