(* ===== verification/Treasury_Keys.thy ===== *)
theory Treasury_Keys
  imports Keys
begin

text \<open>
  Where the keys of an operator come from, the rest of \<open>src/src/keys.rs\<close>: master keys from the
  environment, wallets under a single master key, and \<open>TreasuryKeySource\<close>.

  The environment and the files of the host are the record \<open>host\<close>; a variable that is not set or
  not Unicode is \<open>None\<close>, an unreadable file has only the text of its error.  A path is its text.
  The JSON form of a sealed secret is \<open>serde_json\<close>, the record \<open>sealed_json\<close>.
\<close>

section \<open>The host\<close>

record host =
  ho_env :: "string \<Rightarrow> string option"
  ho_files :: "string \<Rightarrow> string option"
  ho_io_error :: "string \<Rightarrow> string"

record sealed_json =
  sj_to :: "sealed_secret \<Rightarrow> string"
  sj_from :: "string \<Rightarrow> sealed_secret option"

definition read_to_string :: "host \<Rightarrow> string \<Rightarrow> string res" where
  "read_to_string h p =
     (case ho_files h p of
        Some s \<Rightarrow> Inr s
      | None \<Rightarrow> Inl (ErrConfig (''read '' @ p @ '': '' @ ho_io_error h p)))"

section \<open>Master keys and wallets\<close>

definition master_from_env :: "'k crypto \<Rightarrow> host \<Rightarrow> string \<Rightarrow> master_key res" where
  "master_from_env cr h var =
     and_then (ok_or (ErrConfig (var @ '' is not set'')) (ho_env h var)) (master_from_hex cr)"

definition wallet_seal ::
    "'k crypto \<Rightarrow> 'k wallet \<Rightarrow> master_key \<Rightarrow> u8 list \<Rightarrow> u8 list \<Rightarrow> sealed_secret res" where
  "wallet_seal cr w key nonce aad = master_seal cr key nonce (wl_secret w) aad"

definition wallet_unseal :: "'k crypto \<Rightarrow> master_key \<Rightarrow> sealed_secret \<Rightarrow> u8 list \<Rightarrow> 'k wallet res" where
  "wallet_unseal cr key sealed aad = and_then (master_open cr key sealed aad) (wallet_from_secret_bytes cr)"

definition keyring_active_id :: "keyring \<Rightarrow> string" where
  "keyring_active_id kr = kr_active kr"

section \<open>The treasury key\<close>

datatype treasury_key_source = EnvUri string | MnemonicFile string | EncryptedKeystore string

definition TREASURY_AAD :: "u8 list" where
  "TREASURY_AAD = bytes_of ''bittensor-buyback/v1/treasury''"

definition load ::
    "'k crypto \<Rightarrow> sealed_json \<Rightarrow> host \<Rightarrow> treasury_key_source \<Rightarrow> master_key option \<Rightarrow> 'k res" where
  "load cr js h src master =
     and_then (case src of
         EnvUri var \<Rightarrow> ok_or (ErrConfig (var @ '' is not set'')) (ho_env h var)
       | MnemonicFile p \<Rightarrow> read_to_string h p
       | EncryptedKeystore p \<Rightarrow>
           and_then (ok_or (ErrConfig ''encrypted keystore needs a master key'') master) (\<lambda>key.
           and_then (read_to_string h p) (\<lambda>raw.
           and_then (ok_or (ErrConfig ''keystore is not a sealed secret'') (sj_from js raw)) (\<lambda>sealed.
           and_then (master_open cr key sealed TREASURY_AAD) (\<lambda>bytes.
           ok_or (ErrCrypto ''keystore is not utf-8'') (from_utf8 bytes))))))
       (\<lambda>uri. keypair_from_uri cr (trim uri))"

section \<open>Facts\<close>

text \<open>Documented behaviour of \<open>serde_json\<close>: what was serialised parses back.\<close>

definition json_correct :: "sealed_json \<Rightarrow> bool" where
  "json_correct js \<longleftrightarrow> (\<forall>s. sj_from js (sj_to js s) = Some s)"

lemma load_sealed:
  assumes "aead_correct cr" and "hex_correct cr" and "json_correct js" and "length nonce = 24"
    and "utf8_valid (bytes_of uri)" and "master_seal cr key nonce (bytes_of (trim uri)) TREASURY_AAD = Inr s"
    and "ho_files h p = Some (sj_to js s)"
  shows "load cr js h (EncryptedKeystore p) (Some key) = keypair_from_uri cr (trim uri)"
proof -
  have "s\<lparr>ss_kid := ss_kid s\<rparr> = s" by simp
  then have "master_open cr key s TREASURY_AAD = Inr (bytes_of (trim uri))"
    using master_roundtrip [OF assms(1,2,4,6), of "ss_kid s"] by metis
  moreover have "from_utf8 (bytes_of (trim uri)) = Some (trim uri)"
    using utf8_trim [OF assms(5)] by (simp add: from_utf8_def)
  ultimately show ?thesis
    using assms(3,7) by (simp add: load_def read_to_string_def json_correct_def)
qed

text \<open>A wallet sealed under one master key is opened by that key, and by the keyring made of it.\<close>

lemma wallet_seal_unseal:
  assumes "aead_correct cr" and "hex_correct cr" and "length nonce = 24"
    and "wallet_seal cr w key nonce aad = Inr s" and "wallet_from_secret_bytes cr (wl_secret w) = Inr w"
  shows "wallet_unseal cr key s aad = Inr w" "wallet_unseal_with cr (keyring_of_master key) s aad = Inr w"
proof -
  have k: "s\<lparr>ss_kid := ss_kid s\<rparr> = s" by simp
  then have "master_open cr key s aad = Inr (wl_secret w)"
    using master_roundtrip [OF assms(1-3), of key "wl_secret w" aad s "ss_kid s"] assms(4)
    by (simp add: wallet_seal_def)
  moreover have "kid_of s = DEFAULT_KEY_ID"
    using assms(4) by (auto simp: wallet_seal_def master_seal_def kid_of_def split: option.splits)
  ultimately show "wallet_unseal cr key s aad = Inr w" "wallet_unseal_with cr (keyring_of_master key) s aad = Inr w"
    using assms(5) by (simp_all add: wallet_unseal_def wallet_unseal_with_def keyring_open_def keyring_of_master_def)
qed

end
