(* ===== verification/Key_Debug.thy ===== *)
theory Key_Debug
  imports Treasury_Keys "HOL-Library.List_Lexorder" "HOL-Library.Char_ord"
begin

text \<open>
  What is printed about keys: the hand-written \<open>Debug\<close> forms of \<open>src/src/keys.rs\<close>, and that neither
  they nor the errors of loading keys depend on a secret.
\<close>

section \<open>Definitions\<close>

definition wallet_debug :: "'k crypto \<Rightarrow> 'k wallet \<Rightarrow> string" where
  "wallet_debug cr w = ''PaymentWallet { address: '' @ str_debug (ss58 cr (wallet_account_id cr w)) @ '', .. }''"

definition seed_debug :: "derivation_seed \<Rightarrow> string" where
  "seed_debug s = ''DerivationSeed(<redacted>)''"

definition master_debug :: "master_key \<Rightarrow> string" where
  "master_debug k = ''MasterKey(<redacted>)''"

definition sealed_debug :: "sealed_secret \<Rightarrow> string" where
  "sealed_debug s = ''SealedSecret(..)''"

text \<open>The ids come in the order of the \<open>BTreeMap\<close>, which is that of their bytes.\<close>

definition list_debug :: "string list \<Rightarrow> string" where
  "list_debug xs = ''['' @ concat (case map str_debug xs of [] \<Rightarrow> [] | s # ss \<Rightarrow> s # map ((@) '', '') ss) @ '']''"

definition keyring_debug :: "keyring \<Rightarrow> string" where
  "keyring_debug kr =
     ''Keyring { active: '' @ str_debug (kr_active kr) @ '', ids: '' @
     list_debug (sort (remdups (map fst (kr_keys kr)))) @ '' }''"

section \<open>What they depend on\<close>

text \<open>The order in which a keyring was put together does not show, nor do the keys.\<close>

lemma keyring_debug_hides:
  assumes "kr_active a = kr_active b" and "fst ` set (kr_keys a) = fst ` set (kr_keys b)"
  shows "keyring_debug a = keyring_debug b"
proof -
  have "set (remdups (map fst (kr_keys a))) = set (remdups (map fst (kr_keys b)))" using assms(2) by simp
  then have "sort (remdups (map fst (kr_keys a))) = sort (remdups (map fst (kr_keys b)))"
    by (metis distinct_remdups sorted_list_of_set_sort_remdups remdups_remdups)
  then show ?thesis using assms(1) by (simp add: keyring_debug_def)
qed

lemma wallet_debug_hides:
  "cr_account_id cr (wl_keypair a) = cr_account_id cr (wl_keypair b) \<Longrightarrow> wallet_debug cr a = wallet_debug cr b"
  by (simp add: wallet_debug_def wallet_account_id_def)

text \<open>The errors of reading a keyring are functions of the id that was asked for.\<close>

definition entry_errors :: "error set" where
  "entry_errors = {ErrConfig ''keyring entries are id:hex'', ErrConfig ''master key must be 32 bytes of hex''}"

definition ring_errors :: "string \<Rightarrow> error set" where
  "ring_errors active =
     {ErrConfig (''active key id '' @ str_debug active @ '' is not in the keyring''), ErrConfig ''key ids are [A-Za-z0-9_-]+''}"

lemma master_from_hex_error: "master_from_hex cr s = Inl e \<Longrightarrow> e \<in> entry_errors"
  unfolding master_from_hex_def entry_errors_def by (auto simp: result_simps Let_def split: if_splits option.splits)

lemma parse_entries_errors: "parse_entries cr parts = Inl e \<Longrightarrow> e \<in> entry_errors"
proof (induction parts)
  case (Cons part parts)
  have "ErrConfig ''keyring entries are id:hex'' \<in> entry_errors" by (simp add: entry_errors_def)
  then show ?case using Cons master_from_hex_error by (auto simp: result_simps split: prod.splits)
qed simp

lemma keyring_new_errors: "keyring_new active ps = Inl e \<Longrightarrow> e \<in> ring_errors active"
  unfolding keyring_new_def Let_def ring_errors_def by (simp split: if_splits)

lemma keyring_parse_errors: "keyring_parse cr spec active = Inl e \<Longrightarrow> e \<in> entry_errors \<union> ring_errors active"
  unfolding keyring_parse_def using parse_entries_errors keyring_new_errors by (fastforce simp: result_simps)

text \<open>The errors of loading a treasury key are functions of names and of what the system says about a
  file it cannot read; of a sealed secret at most the version shows.\<close>

definition open_errors :: "error set" where
  "open_errors =
     {ErrCrypto ''corrupt sealed secret'', ErrCrypto ''decryption failed (wrong key or tampered data)''} \<union>
     range (\<lambda>v :: u8. ErrCrypto (''unknown sealed version '' @ show_nat (unat v)))"

definition keystore_errors :: "error set" where
  "keystore_errors =
     {ErrConfig ''encrypted keystore needs a master key'', ErrConfig ''keystore is not a sealed secret'',
      ErrCrypto ''keystore is not utf-8''}"

fun load_errors :: "host \<Rightarrow> treasury_key_source \<Rightarrow> error set" where
  "load_errors h (EnvUri var) = {ErrConfig (var @ '' is not set'')}"
| "load_errors h (MnemonicFile p) = {ErrConfig (''read '' @ p @ '': '' @ ho_io_error h p)}"
| "load_errors h (EncryptedKeystore p) = {ErrConfig (''read '' @ p @ '': '' @ ho_io_error h p)} \<union> keystore_errors \<union> open_errors"

lemma and_then_errorE:
  assumes "and_then m f = Inl e"
  obtains "m = Inl e" | x where "m = Inr x" and "f x = Inl e"
  using assms by (cases m) auto

lemma master_open_errors:
  assumes "master_open cr key s aad = Inl e"
  shows "e \<in> open_errors"
proof -
  have c: "ErrCrypto ''corrupt sealed secret'' \<in> open_errors" "ErrCrypto ''decryption failed (wrong key or tampered data)'' \<in> open_errors"
    "ErrCrypto (''unknown sealed version '' @ show_nat (unat v)) \<in> open_errors" for v :: u8
    unfolding open_errors_def by (rule UnI1, rule insertI1, rule UnI1, rule insertI2, rule insertI1, rule UnI2, rule rangeI)
  show ?thesis
  proof (cases "ss_v s = 1")
    case False
    then have "e = ErrCrypto (''unknown sealed version '' @ show_nat (unat (ss_v s)))"
      using assms unfolding master_open_def by simp
    then show ?thesis using c(3) by metis
  next
    case True
    then show ?thesis
      using assms unfolding master_open_def Let_def
      by (auto simp: c(1,2) ok_or_Inl_iff elim!: and_then_errorE split: if_split_asm)
  qed
qed

lemma read_to_string_error: "read_to_string h p = Inl e \<longleftrightarrow> ho_files h p = None \<and> e = ErrConfig (''read '' @ p @ '': '' @ ho_io_error h p)"
  by (auto simp: read_to_string_def split: option.splits)

lemma load_errors_hide:
  assumes "load cr js h src master = Inl e"
  shows "e \<in> insert (ErrConfig ''invalid secret uri'') (load_errors h src)"
proof -
  have "ErrConfig ''encrypted keystore needs a master key'' \<in> keystore_errors" "ErrConfig ''keystore is not a sealed secret'' \<in> keystore_errors"
    "ErrCrypto ''keystore is not utf-8'' \<in> keystore_errors"
    unfolding keystore_errors_def by (rule insertI1, rule insertI2, rule insertI1, rule insertI2, rule insertI2, rule insertI1)
  then show ?thesis
    using assms unfolding load_def keypair_from_uri_def
    by (cases src) (auto simp only: treasury_key_source.case load_errors.simps ok_or_Inl_iff read_to_string_error
        dest!: master_open_errors elim!: and_then_errorE)
qed

end
