(* ===== verification/Chain_Connect.thy ===== *)
theory Chain_Connect
  imports Chain_Client
begin

text \<open>
  Connecting to a node, \<open>Endpoint\<close> and \<open>connect_endpoint\<close>, \<open>connect_any\<close> of \<open>src/src/chain.rs\<close>.
  URL parsing, HTTP headers and the websocket are third-party code, the record \<open>transport\<close>:
  \<open>tp_open\<close> is the handshake with its optional authorization header, \<open>tp_client\<close> builds the client
  on the connection.  A connected client is the \<open>node\<close> it talks to.
\<close>

section \<open>Definitions\<close>

record endpoint =
  ep_url :: string
  ep_bearer :: "string option"

definition endpoint_new :: "string \<Rightarrow> endpoint" where
  "endpoint_new url = \<lparr>ep_url = url, ep_bearer = None\<rparr>"

definition with_bearer :: "string \<Rightarrow> endpoint \<Rightarrow> endpoint" where
  "with_bearer key ep = ep\<lparr>ep_bearer := (if trim key = [] then None else Some (trim key))\<rparr>"

text \<open>The hand-written \<open>Debug\<close> form of an endpoint.\<close>

definition endpoint_debug :: "endpoint \<Rightarrow> string" where
  "endpoint_debug ep =
     ''Endpoint { url: '' @ str_debug (ep_url ep) @ '', bearer: '' @
     (case ep_bearer ep of None \<Rightarrow> ''None'' | Some _ \<Rightarrow> ''Some('' @ str_debug ''<redacted>'' @ '')'') @ '' }''"

record ('c, 'k) transport =
  tp_parse_url :: "string \<Rightarrow> (string \<times> string option) option"
  tp_header_ok :: "string \<Rightarrow> bool"
  tp_open :: "string \<Rightarrow> string option \<Rightarrow> ('c, unit) request"
  tp_client :: "string \<Rightarrow> ('c, ('c, 'k) node) request"
  tp_sleep :: "u64 \<Rightarrow> 'c \<Rightarrow> 'c"

definition loopback :: "string option \<Rightarrow> bool" where
  "loopback host \<longleftrightarrow> host \<in> Some ` {''127.0.0.1'', ''localhost'', ''::1'', ''[::1]''}"

definition connect_endpoint :: "('c, 'k) transport \<Rightarrow> endpoint \<Rightarrow> ('c, error, ('c, 'k) node) io" where
  "connect_endpoint tp ep =
     io_bind (io_lift (ok_or (ErrConfig (''bad RPC url '' @ str_debug (ep_url ep)))
                (tp_parse_url tp (ep_url ep)))) (\<lambda>(scheme, host).
     if \<not> (scheme = ''wss'' \<or> scheme = ''ws'' \<and> loopback host)
     then io_fail (ErrConfig (''RPC url '' @ str_debug (ep_url ep) @ '' must be wss:// (ws:// only on loopback)''))
     else if (case ep_bearer ep of None \<Rightarrow> False | Some key \<Rightarrow> \<not> tp_header_ok tp (''Bearer '' @ key))
     then io_fail (ErrConfig ''RPC key is not a valid header value'')
     else
       io_bind (ask_with (\<lambda>_. ErrChain (''cannot connect to '' @ redact_url (ep_url ep)))
                  (tp_open tp (ep_url ep) (map_option (\<lambda>key. ''Bearer '' @ key) (ep_bearer ep)))) (\<lambda>_.
       ask (tp_client tp (ep_url ep))))"

definition connect :: "('c, 'k) transport \<Rightarrow> string \<Rightarrow> ('c, error, ('c, 'k) node) io" where
  "connect tp url = connect_endpoint tp (endpoint_new url)"

text \<open>One round over the endpoints: the first that connects and answers a finalized head, or the
  last error.\<close>

fun try_endpoints ::
    "('c, 'k) transport \<Rightarrow> endpoint list \<Rightarrow> error \<Rightarrow> ('c, error, error + ('c, 'k) node) io" where
  "try_endpoints tp [] last_error = io_ret (Inl last_error)"
| "try_endpoints tp (ep # eps) last_error =
     io_bind (io_attempt (connect_endpoint tp ep)) (\<lambda>x.
     case x of
       Inl e \<Rightarrow> try_endpoints tp eps e
     | Inr nd \<Rightarrow>
         io_bind (io_attempt (best_finalized_number nd)) (\<lambda>y.
         case y of
           Inl e \<Rightarrow> try_endpoints tp eps e
         | Inr _ \<Rightarrow> io_ret (Inr nd)))"

fun connect_rounds ::
    "('c, 'k) transport \<Rightarrow> endpoint list \<Rightarrow> nat list \<Rightarrow> error \<Rightarrow> ('c, error, ('c, 'k) node) io" where
  "connect_rounds tp eps [] last_error = io_fail last_error"
| "connect_rounds tp eps (r # rs) last_error =
     io_bind (try_endpoints tp eps last_error) (\<lambda>x.
     case x of
       Inr nd \<Rightarrow> io_ret nd
     | Inl e \<Rightarrow>
         io_bind (\<lambda>c. (Inr (), tp_sleep tp (push_bit (min r 4) 2) c)) (\<lambda>_.
         connect_rounds tp eps rs e))"

definition connect_any :: "('c, 'k) transport \<Rightarrow> endpoint list \<Rightarrow> u32 \<Rightarrow> ('c, error, ('c, 'k) node) io" where
  "connect_any tp eps attempts =
     connect_rounds tp eps [0 ..< unat (max attempts 1)] (ErrConfig ''no RPC endpoint configured'')"

section \<open>Properties\<close>

lemma connect_endpoint_plain:
  assumes "tp_parse_url tp (ep_url ep) = None \<or>
     (\<exists>s h. tp_parse_url tp (ep_url ep) = Some (s, h) \<and> s \<noteq> ''wss'' \<and> \<not> (s = ''ws'' \<and> loopback h))"
  shows "\<exists>e. connect_endpoint tp ep c = (Inl (ErrConfig e), c)"
  using assms by (auto simp: connect_endpoint_def io_simps)

text \<open>Nothing is ever sent to a remote node in the clear: when every configured endpoint is
  neither \<open>wss\<close> nor \<open>ws\<close> on a loopback host, connecting fails and the only thing that happens to
  the outside is the waiting between the rounds; no handshake is started, so no key leaves.\<close>

theorem plaintext_remote_refused:
  assumes "\<forall>ep \<in> set eps. \<forall>s h. tp_parse_url tp (ep_url ep) = Some (s, h) \<longrightarrow> s \<noteq> ''wss'' \<and> \<not> (s = ''ws'' \<and> loopback h)"
  shows "\<exists>e. connect_any tp eps attempts c =
     (Inl (ErrConfig e), fold (\<lambda>r. tp_sleep tp (push_bit (min r 4) 2)) [0 ..< unat (max attempts 1)] c)"
proof -
  have t: "\<exists>e'. try_endpoints tp es (ErrConfig e) c = (Inr (Inl (ErrConfig e')), c)"
    if "set es \<subseteq> set eps" for es e c
    using that
  proof (induction es arbitrary: e)
    case (Cons ep es)
    then have "tp_parse_url tp (ep_url ep) = None \<or>
      (\<exists>s h. tp_parse_url tp (ep_url ep) = Some (s, h) \<and> s \<noteq> ''wss'' \<and> \<not> (s = ''ws'' \<and> loopback h))"
      using assms by (cases "tp_parse_url tp (ep_url ep)") auto
    from connect_endpoint_plain [OF this, of c]
    obtain e' where "connect_endpoint tp ep c = (Inl (ErrConfig e'), c)" by blast
    then show ?case using Cons by (simp add: io_simps)
  qed (simp add: io_simps)
  have "\<exists>e'. connect_rounds tp eps rs (ErrConfig e) c =
      (Inl (ErrConfig e'), fold (\<lambda>r. tp_sleep tp (push_bit (min r 4) 2)) rs c)" for rs e c
  proof (induction rs arbitrary: e c)
    case (Cons r rs)
    obtain e' where "try_endpoints tp eps (ErrConfig e) c = (Inr (Inl (ErrConfig e')), c)"
      using t [of eps] by blast
    then show ?case using Cons by (simp add: io_simps)
  qed (simp add: io_simps)
  then show ?thesis by (simp add: connect_any_def)
qed

definition demo_transport :: "(nat, account_id) transport" where
  "demo_transport =
     \<lparr>tp_parse_url = (\<lambda>u. map_option (\<lambda>(s, h). (s, Some h)) (split_once ''://'' u)), tp_header_ok = (\<lambda>_. True),
      tp_open = (\<lambda>u k c. (Inl ''refused'', c + 1000)), tp_client = (\<lambda>u c. (Inl ''refused'', c)),
      tp_sleep = (\<lambda>t c. c + unat t)\<rparr>"

theorem plaintext_remote_refused_witness:
  "\<exists>e. connect_any demo_transport [with_bearer ''key'' (endpoint_new ''ws://node.example'')] 2 0 =
     (Inl (ErrConfig e), 6)"
proof -
  let ?eps = "[with_bearer ''key'' (endpoint_new ''ws://node.example'')]"
  have "\<forall>ep \<in> set ?eps. \<forall>s h. tp_parse_url demo_transport (ep_url ep) = Some (s, h) \<longrightarrow>
      s \<noteq> ''wss'' \<and> \<not> (s = ''ws'' \<and> loopback h)"
    by (auto simp: demo_transport_def with_bearer_def endpoint_new_def loopback_def starts_with_def)
  from plaintext_remote_refused [OF this, of 2 0] show ?thesis
    by (simp add: demo_transport_def upt_rec max_def word_le_nat_alt)
qed

text \<open>A handshake happens at an endpoint with its own authorization, and only where that is safe.\<close>

definition secure_url :: "('c, 'k) transport \<Rightarrow> string \<Rightarrow> bool" where
  "secure_url tp u =
     (case tp_parse_url tp u of None \<Rightarrow> False | Some (s, h) \<Rightarrow> s = ''wss'' \<or> s = ''ws'' \<and> loopback h)"

definition authorization :: "endpoint \<Rightarrow> string option" where
  "authorization ep = map_option (\<lambda>key. ''Bearer '' @ key) (ep_bearer ep)"

lemma connect_endpoint_insecure:
  assumes "\<not> secure_url tp (ep_url ep)"
  shows "connect_endpoint tp ep = io_fail (ErrConfig (case tp_parse_url tp (ep_url ep) of
       None \<Rightarrow> ''bad RPC url '' @ str_debug (ep_url ep)
     | Some _ \<Rightarrow> ''RPC url '' @ str_debug (ep_url ep) @ '' must be wss:// (ws:// only on loopback)''))"
proof (cases "tp_parse_url tp (ep_url ep)")
  case (Some sh)
  obtain s h where sh: "sh = (s, h)" by (cases sh)
  then have "\<not> (s = ''wss'' \<or> s = ''ws'' \<and> loopback h)" using assms Some by (simp add: secure_url_def)
  then show ?thesis unfolding connect_endpoint_def Some sh by (simp only: ok_or_simps option.case if_True) (simp add: io_simps fun_eq_iff)
qed (simp add: connect_endpoint_def io_simps fun_eq_iff)

lemma transport_with_open:
  "tp_parse_url (tp\<lparr>tp_open := f\<rparr>) = tp_parse_url tp" "tp_header_ok (tp\<lparr>tp_open := f\<rparr>) = tp_header_ok tp"
  "tp_client (tp\<lparr>tp_open := f\<rparr>) = tp_client tp" "tp_open (tp\<lparr>tp_open := f\<rparr>) = f"
  by simp_all

lemma connect_endpoint_cong:
  assumes "secure_url tp (ep_url ep) \<Longrightarrow> opens (ep_url ep) (authorization ep) = tp_open tp (ep_url ep) (authorization ep)"
  shows "connect_endpoint (tp\<lparr>tp_open := opens\<rparr>) ep = connect_endpoint tp ep"
proof (cases "secure_url tp (ep_url ep)")
  case True
  show ?thesis
    unfolding connect_endpoint_def authorization_def [symmetric] transport_with_open assms [OF True] ..
next
  case False
  then have "\<not> secure_url (tp\<lparr>tp_open := opens\<rparr>) (ep_url ep)" by (simp add: secure_url_def)
  with False show ?thesis by (simp add: connect_endpoint_insecure)
qed

text \<open>C35: connecting performs handshakes only with configured endpoints that are \<open>wss\<close>, or \<open>ws\<close> on a loopback
  host, and with the key configured for that endpoint: what any other handshake would do, in
  the clear with a remote host, or with the key of another endpoint, makes no difference to
  the outcome.  When no endpoint is secure the attempt fails without touching anything.\<close>

theorem handshakes_are_secure:
  assumes "\<forall>ep \<in> set eps. secure_url tp (ep_url ep) \<longrightarrow>
     opens (ep_url ep) (authorization ep) = tp_open tp (ep_url ep) (authorization ep)"
  shows "connect_any (tp\<lparr>tp_open := opens\<rparr>) eps attempts = connect_any tp eps attempts \<and>
     (list_all (\<lambda>ep. \<not> secure_url tp (ep_url ep)) eps \<longrightarrow>
        (\<exists>e. connect_any tp eps attempts c =
           (Inl (ErrConfig e), fold (\<lambda>r. tp_sleep tp (push_bit (min r 4) 2)) [0 ..< unat (max attempts 1)] c)))"
proof (intro conjI impI)
  have "try_endpoints (tp\<lparr>tp_open := opens\<rparr>) es = try_endpoints tp es" if "set es \<subseteq> set eps" for es
    using that
  proof (induction es)
    case (Cons ep es)
    then have "try_endpoints (tp\<lparr>tp_open := opens\<rparr>) es = try_endpoints tp es" by simp
    moreover have "connect_endpoint (tp\<lparr>tp_open := opens\<rparr>) ep = connect_endpoint tp ep"
      using assms Cons.prems by (intro connect_endpoint_cong) simp
    ultimately show ?case by (intro ext) simp
  qed (simp add: fun_eq_iff)
  then have t: "try_endpoints (tp\<lparr>tp_open := opens\<rparr>) eps = try_endpoints tp eps" by simp
  have "connect_rounds (tp\<lparr>tp_open := opens\<rparr>) eps rs = connect_rounds tp eps rs" for rs
  proof (induction rs)
    case (Cons r rs)
    then show ?case by (intro ext) (simp add: t)
  qed (simp add: fun_eq_iff)
  then show "connect_any (tp\<lparr>tp_open := opens\<rparr>) eps attempts = connect_any tp eps attempts"
    by (simp add: connect_any_def)
qed (rule plaintext_remote_refused, auto simp: list_all_iff secure_url_def)

text \<open>A key for a remote host in the clear is not used, one for a local node is.\<close>

theorem handshakes_are_secure_witness:
  "connect_any (demo_transport\<lparr>tp_open := (\<lambda>u k c. if u = ''ws://localhost'' \<and> k = None then (Inl ''refused'', c + 1000) else (Inr (), 0))\<rparr>)
     [with_bearer ''key'' (endpoint_new ''ws://node.example''), endpoint_new ''ws://localhost''] 2 =
   connect_any demo_transport
     [with_bearer ''key'' (endpoint_new ''ws://node.example''), endpoint_new ''ws://localhost''] 2"
proof -
  have "\<forall>ep \<in> set [with_bearer ''key'' (endpoint_new ''ws://node.example''), endpoint_new ''ws://localhost''].
      secure_url demo_transport (ep_url ep) \<longrightarrow>
      (\<lambda>u k c. if u = ''ws://localhost'' \<and> k = None then (Inl ''refused'', c + 1000) else (Inr (), 0)) (ep_url ep) (authorization ep) =
      tp_open demo_transport (ep_url ep) (authorization ep)"
    by (auto simp: demo_transport_def with_bearer_def endpoint_new_def secure_url_def loopback_def starts_with_def authorization_def)
  from conjunct1 [OF handshakes_are_secure [OF this]] show ?thesis by blast
qed

end
