(* ===== verification/Webhook.thy ===== *)
theory Webhook
  imports Engine Chain_Client Journal_Outcomes
begin

text \<open>
  Settlement webhooks, \<open>src/src/webhook.rs\<close>, and \<open>with_webhook_secret\<close> of \<open>src/src/engine.rs\<close>.
  HMAC-SHA256, \<open>serde_json\<close> and the HTTP client are third-party code, the record \<open>web\<close>; an HTTP
  answer is its status code and the text of it.
\<close>

section \<open>Definitions\<close>

record 'c web =
  wb_hmac :: "u8 list \<Rightarrow> u8 list \<Rightarrow> u8 list"
  wb_to_vec :: "payment_status \<Rightarrow> string + u8 list"
  wb_post :: "string \<Rightarrow> (string \<times> string) list \<Rightarrow> u8 list \<Rightarrow> ('c, nat \<times> string) request"

definition webhook_sign :: "'k crypto \<Rightarrow> 'c web \<Rightarrow> u8 list \<Rightarrow> u8 list \<Rightarrow> string" where
  "webhook_sign cr wb secret body = ''sha256='' @ cr_hex_encode cr (wb_hmac wb secret body)"

definition is_success :: "nat \<Rightarrow> bool" where
  "is_success code \<longleftrightarrow> 200 \<le> code \<and> code < 300"

definition webhook_post ::
    "'k crypto \<Rightarrow> 'c web \<Rightarrow> u8 list \<Rightarrow> string \<Rightarrow> payment_status \<Rightarrow> ('c, error, unit) io" where
  "webhook_post cr wb secret url status =
     io_bind (io_lift (map_err ErrConfig (wb_to_vec wb status))) (\<lambda>body.
     io_bind (ask_with (\<lambda>e. ErrChain (''webhook: '' @ e))
         (wb_post wb url [(''content-type'', ''application/json''),
                          (''x-buyback-signature'', webhook_sign cr wb secret body)] body)) (\<lambda>(code, text).
     if \<not> is_success code then io_fail (ErrChain (''webhook returned '' @ text)) else io_ret ()))"

definition with_webhook_secret ::
    "'c web \<Rightarrow> u8 list \<Rightarrow> ('c, 'd, 'k) engine \<Rightarrow> ('c, 'd, 'k) engine" where
  "with_webhook_secret wb secret en =
     en\<lparr>en_webhook := True,
        en_client := (en_client en)\<lparr>cl_rpc :=
          (cl_rpc (en_client en))\<lparr>rp_webhook_post := webhook_post (en_crypto en) wb secret\<rparr>\<rparr>\<rparr>"

section \<open>Delivery\<close>

text \<open>The receiver took the status: the request carried the HMAC of its very body under the secret,
  and the answer was a success.\<close>

definition accepted ::
    "'k crypto \<Rightarrow> 'c web \<Rightarrow> u8 list \<Rightarrow> string \<Rightarrow> payment_status \<Rightarrow> 'c \<Rightarrow> bool" where
  "accepted cr wb secret url st c \<longleftrightarrow>
     (\<exists>body code text. wb_to_vec wb st = Inr body \<and> 200 \<le> code \<and> code < 300 \<and>
        fst (wb_post wb url [(''content-type'', ''application/json''),
          (''x-buyback-signature'', ''sha256='' @ cr_hex_encode cr (wb_hmac wb secret body))] body c) = Inr (code, text))"

lemma webhook_post_accepted:
  "(\<exists>c'. webhook_post cr wb secret url st c = (Inr (), c')) \<longleftrightarrow> accepted cr wb secret url st c"
proof (cases "wb_to_vec wb st")
  case (Inl e)
  then show ?thesis by (simp add: webhook_post_def accepted_def io_simps map_err_def)
next
  case (Inr body)
  let ?req = "wb_post wb url [(''content-type'', ''application/json''),
      (''x-buyback-signature'', ''sha256='' @ cr_hex_encode cr (wb_hmac wb secret body))] body c"
  obtain x c' where x: "?req = (x, c')" by force
  show ?thesis
    using Inr x
    by (cases x) (auto simp: webhook_post_def accepted_def webhook_sign_def is_success_def io_simps ask_with_def map_err_def
        split: if_splits)
qed

lemma webhook_simps [simp]:
  "en_webhook (with_webhook_secret wb secret en)" "en_crypto (with_webhook_secret wb secret en) = en_crypto en"
  "rp_webhook_post (en_rpc (with_webhook_secret wb secret en)) = webhook_post (en_crypto en) wb secret"
  "cl_store (en_client (with_webhook_secret wb secret en)) = cl_store (en_client en)"
  by (simp_all add: with_webhook_secret_def en_crypto_def en_rpc_def)

text \<open>A successful update is the last thing that happened to the record.\<close>

lemma sqlite_write_stored:
  assumes "cl_store cl = sqlite_ops cr" and "st_update cl r w = (Inr r', w')"
  shows "\<exists>now. db_content (w_db w') (r_id r) = Some (next_version now r) \<and> w_events w' = w_events w"
proof -
  obtain now d where "sqlite_update r now d = (Inr r', w_db w')" "w_events w' = w_events w"
    using assms
    by (auto simp: st_update_def now_do_def rpc_do_def db_do_def io_bind_def case_prod_beta Let_def) (metis prod.collapse)
  then show ?thesis using update_content_sqlite by fastforce
qed


section \<open>Witness\<close>

definition demo_web :: "nat web" where
  "demo_web = \<lparr>wb_hmac = (\<lambda>k b. k @ b), wb_to_vec = (\<lambda>st. Inr (bytes_of (ps_id st))),
     wb_post = (\<lambda>url hs body c. (Inr (204, ''204 No Content''), c))\<rparr>"

definition hooked :: "(nat, sqlite_db, account_id) engine" where
  "hooked = engine_new (demo_client Wait) (keyring_of_master [1]) [2] (config_new ''ws://127.0.0.1:9944'' 1 [3])"

definition callback_job :: payment_record where
  "callback_job = (test_record ''a'')\<lparr>r_state := Settled, r_callback_url := Some ''https://shop''\<rparr>"

lemma hooked_notifies:
  "\<exists>w'. notify (with_webhook_secret demo_web [7] hooked) callback_job
     (demo_world (snd (sqlite_insert callback_job empty_db))) = (Inr (), w')"
  by (simp add: notify_def emit_def with_webhook_secret_def hooked_def engine_new_def en_rpc_def en_crypto_def demo_client_def
      demo_rpc_def demo_web_def webhook_post_def ask_with_def map_err_def is_success_def callback_job_def empty_db_def
      io_simps call_defs sqlite_defs checked_add_def Let_def)


end
