(* ===== verification/Http_Api.thy ===== *)
theory Http_Api
  imports Engine Journal_Outcomes
begin

text \<open>
  The handlers of the HTTP interface, \<open>src/src/http.rs\<close>, over the engine.  Routing, extraction of
  the path and the JSON body, and the serialisation of answers are axum; a handler gets the
  extracted values and returns a status code and what is to be serialised.
\<close>

section \<open>Definitions\<close>

datatype body = JsonRequest payment_request | JsonStatus payment_status | PlainText string

record response =
  hr_code :: nat
  hr_body :: body

definition default_opts :: create_payment_opts where
  "default_opts = \<lparr>cp_min_alpha = None, cp_expiry_secs = None, cp_metadata = None, cp_callback_url = None\<rparr>"

definition http_error :: "error \<Rightarrow> response" where
  "http_error err =
     (let code = (case err of NotFound _ \<Rightarrow> 404 | ErrConfig _ \<Rightarrow> 400 | _ \<Rightarrow> 500) in
      if code = 500 then \<lparr>hr_code = code, hr_body = PlainText ''internal error''\<rparr>
      else \<lparr>hr_code = code, hr_body = PlainText (error_display err)\<rparr>)"

definition http_create ::
    "('c, 'd, 'k) engine \<Rightarrow> create_payment_opts option \<Rightarrow> ('c, 'd, response) act" where
  "http_create en body =
     io_bind (io_attempt (create_payment en (case body of None \<Rightarrow> default_opts | Some b \<Rightarrow> b))) (\<lambda>x.
     io_ret (case x of
         Inr req \<Rightarrow> \<lparr>hr_code = 201, hr_body = JsonRequest req\<rparr>
       | Inl err \<Rightarrow> http_error err))"

definition http_status :: "('c, 'd, 'k) engine \<Rightarrow> string \<Rightarrow> ('c, 'd, response) act" where
  "http_status en i =
     io_bind (io_attempt (engine_status en i)) (\<lambda>x.
     io_ret (case x of
         Inr s \<Rightarrow> \<lparr>hr_code = 200, hr_body = JsonStatus s\<rparr>
       | Inl err \<Rightarrow> http_error err))"

section \<open>Facts\<close>

text \<open>A handler always answers; an internal error is never described to the caller.\<close>

lemma http_create_answers:
  "\<exists>resp w'. http_create en body w = (Inr resp, w') \<and> hr_code resp \<in> {201, 400, 404, 500} \<and>
     (hr_code resp = 500 \<longrightarrow> hr_body resp = PlainText ''internal error'') \<and>
     (hr_code resp = 201 \<longleftrightarrow>
        (\<exists>req. create_payment en (case body of None \<Rightarrow> default_opts | Some b \<Rightarrow> b) w = (Inr req, w') \<and>
               hr_body resp = JsonRequest req))"
proof -
  obtain x w' where x: "create_payment en (case body of None \<Rightarrow> default_opts | Some b \<Rightarrow> b) w = (x, w')" by force
  then show ?thesis
    by (cases x) (auto simp: http_create_def io_simps http_error_def Let_def split: error.splits option.splits)
qed

text \<open>Asking for a payment changes nothing; it answers with the status of the stored record, and
  with 404 exactly when there is none.\<close>

lemma http_status_reports:
  assumes "cl_store (en_client en) = sqlite_ops cr" and "quiet (en_client en)"
  shows "\<exists>w'. http_status en i w = (Inr (case db_content (w_db w) i of
       Some r \<Rightarrow> \<lparr>hr_code = 200, hr_body = JsonStatus (record_status r)\<rparr>
     | None \<Rightarrow> \<lparr>hr_code = 404, hr_body = PlainText (error_display (NotFound i))\<rparr>), w') \<and>
     w_db w' = w_db w \<and> w_sent w' = w_sent w"
  using assms
  by (cases "find_row i (w_db w)") (auto simp: http_status_def engine_status_def get_or_not_found_def st_get_def db_do_def quiet_def io_simps
      sqlite_get_def db_content_def http_error_def case_prod_beta Let_def)

end
