(* ===== verification/Command_Line.thy ===== *)
theory Command_Line
  imports Treasury_Keys Chain_Connect Chain_Engine Webhook Http_Api Recovery
begin

text \<open>
  The command line, \<open>src/src/bin/buyback.rs\<close>, with \<open>open_store\<close> of \<open>src/src/store.rs\<close>: the options,
  how \<open>engine\<close> builds an engine from them, and the arms of \<open>main\<close>.  Parsing of arguments (clap),
  logging and pretty-printing are left out: a command returns the value it prints.

  An error is one of the library or a text (\<open>Box<dyn Error>\<close>).  The record \<open>platform\<close> holds what the
  program runs on: environment and files, JSON, the transport of the chain client, the opening of a
  store (directory creation, SQLite schema) and the HTTP side of webhooks.
\<close>

section \<open>Options\<close>

record common =
  cm_network :: string
  cm_netuid :: u16
  cm_store :: string
  cm_master_key_var :: string
  cm_treasury_uri_var :: string
  cm_treasury_mnemonic_file :: "string option"
  cm_treasury_keystore :: "string option"
  cm_treasury_hotkey :: string
  cm_min_alpha :: string
  cm_min_tao :: "string option"
  cm_expiry_secs :: u64
  cm_buyback_netuid :: u16
  cm_slippage_bps :: u64
  cm_fee_margin_bps :: u64
  cm_fee_reserve :: string
  cm_auto :: string
  cm_auto_amount :: string
  cm_auto_source :: "string option"
  cm_webhook_url :: "string option"
  cm_allow_mainnet :: bool

datatype cli_error = Lib error | Message string

type_synonym 'a cli = "cli_error + 'a"

datatype store_spec = FileSpec string | SqliteSpec string

record ('c, 'k) platform =
  pf_host :: host
  pf_sealed :: sealed_json
  pf_transport :: "('c, 'k) transport"
  pf_open_store :: "store_spec \<Rightarrow> ('c, unit) request"
  pf_open_read_only :: "string \<Rightarrow> ('c, unit) request"
  pf_json_parse :: "string \<Rightarrow> json option"
  pf_json_string :: "string \<Rightarrow> json"
  pf_manifest :: "string \<Rightarrow> string + legacy_manifest"

definition destroy_of :: "string \<Rightarrow> destroy cli" where
  "destroy_of s =
     (if s = ''keep'' then Inr Keep else if s = ''burn'' then Inr Burn else if s = ''recycle'' then Inr Recycle
      else Inl (Message (''expected keep|burn|recycle, got '' @ s)))"

definition spec_of :: "string \<Rightarrow> store_spec" where
  "spec_of spec =
     (case strip_prefix ''file:'' spec of
        Some dir \<Rightarrow> FileSpec dir
      | None \<Rightarrow> SqliteSpec (case strip_prefix ''sqlite:'' spec of None \<Rightarrow> spec | Some p \<Rightarrow> p))"

definition open_store :: "('c, 'k) platform \<Rightarrow> string \<Rightarrow> ('c, error, store_spec) io" where
  "open_store pf spec =
     io_bind (ask_with ErrStore (pf_open_store pf (spec_of spec))) (\<lambda>_. io_ret (spec_of spec))"

section \<open>Building an engine\<close>

definition io_lib :: "('w, error, 'a) io \<Rightarrow> ('w, cli_error, 'a) io" where
  "io_lib m = (\<lambda>w. case m w of (x, w') \<Rightarrow> (map_err Lib x, w'))"

definition lib :: "'a res \<Rightarrow> 'a cli" where
  "lib x = map_err Lib x"

definition key_source :: "common \<Rightarrow> treasury_key_source" where
  "key_source c =
     (case (cm_treasury_keystore c, cm_treasury_mnemonic_file c) of
        (Some p, _) \<Rightarrow> EncryptedKeystore p
      | (None, Some p) \<Rightarrow> MnemonicFile p
      | _ \<Rightarrow> EnvUri (cm_treasury_uri_var c))"

text \<open>The automatic buyback of the options, with its validated budget.\<close>

definition auto_config :: "'k crypto \<Rightarrow> common \<Rightarrow> config \<Rightarrow> config cli" where
  "auto_config cr c cfg =
     (if cm_auto c = ''off'' then Inr cfg
      else
        and_then (lib (parse_amount (cm_auto_amount c))) (\<lambda>amount.
        and_then (destroy_of (cm_auto c)) (\<lambda>d.
        and_then (ok_or (Message ''--auto-source required for automatic buyback'') (cm_auto_source c)) (\<lambda>source.
        let budget = \<lparr>bb_amount_rao = amount, bb_currency = ''TAO'', bb_source = source,
              bb_netuid = cm_buyback_netuid c, bb_destroy = d, bb_hotkey = cm_treasury_hotkey c\<rparr> in
        and_then (lib (budget_validate cr budget)) (\<lambda>_.
        Inr (cfg\<lparr>c_buyback_budget := Some budget, c_auto := On d (Fixed amount)\<rparr>))))))"

definition cli_config :: "'k crypto \<Rightarrow> common \<Rightarrow> network \<Rightarrow> config cli" where
  "cli_config cr c net =
     and_then (lib (parse_ss58 cr (cm_treasury_hotkey c))) (\<lambda>hotkey.
     and_then (lib (parse_amount (cm_min_alpha c))) (\<lambda>min_alpha.
     and_then (case cm_min_tao c of
         None \<Rightarrow> Inr None
       | Some s \<Rightarrow> and_then (lib (parse_amount s)) (\<lambda>a. Inr (Some a))) (\<lambda>min_tao.
     and_then (lib (parse_amount (cm_fee_reserve c))) (\<lambda>reserve.
     auto_config cr c
       ((config_new (network_url net) (cm_netuid c) hotkey)
          \<lparr>c_min_alpha := min_alpha, c_min_tao := min_tao, c_expiry_secs := cm_expiry_secs c,
           c_buyback_netuid := cm_buyback_netuid c, c_slippage_bps := cm_slippage_bps c,
           c_fee_margin_bps := cm_fee_margin_bps c, c_fee_reserve := reserve,
           c_webhook_url := cm_webhook_url c\<rparr>)))))"

text \<open>What \<open>Engine::new\<close> is given.\<close>

record ('c, 'k) parts =
  bp_node :: "('c, 'k) node"
  bp_store :: store_spec
  bp_master :: master_key
  bp_treasury :: 'k
  bp_cfg :: config
  bp_webhook_secret :: "u8 list option"

definition cli_engine ::
    "'k crypto \<Rightarrow> ('c, 'k) platform \<Rightarrow> common \<Rightarrow> ('c, cli_error, ('c, 'k) parts) io" where
  "cli_engine cr pf c =
     io_bind (io_lift (lib (network_from_str (cm_network c)))) (\<lambda>net.
     if net = Finney \<and> \<not> cm_allow_mainnet c
     then io_fail (Message ''refusing to use finney without --allow-mainnet / BUYBACK_ALLOW_MAINNET'')
     else
       let h = pf_host pf in
       io_bind (io_lift (lib (master_from_env cr h (cm_master_key_var c)))) (\<lambda>master.
       io_bind (io_lift (lib (load cr (pf_sealed pf) h (key_source c) (Some master)))) (\<lambda>treasury.
       io_bind (io_lift (cli_config cr c net)) (\<lambda>cfg.
       io_bind (io_lib (connect (pf_transport pf) (network_url net))) (\<lambda>chain.
       io_bind (io_lib (open_store pf (cm_store c))) (\<lambda>store.
       io_ret \<lparr>bp_node = chain, bp_store = store, bp_master = master, bp_treasury = treasury, bp_cfg = cfg,
               bp_webhook_secret = map_option bytes_of (ho_env h ''BUYBACK_WEBHOOK_SECRET'')\<rparr>))))))"

text \<open>The engine of these parts, over the operations of the opened store.\<close>

definition engine_of ::
    "'k crypto \<Rightarrow> scale \<Rightarrow> 'c web \<Rightarrow> ('c, 'k) rpc \<Rightarrow> 'd store_ops \<Rightarrow> ('c, 'k) parts \<Rightarrow> ('c, 'd, 'k) engine" where
  "engine_of cr sc wb base ops p =
     (let en = engine_new \<lparr>cl_rpc = chain_rpc cr sc (bp_node p) base, cl_store = ops, cl_crypto = cr\<rparr>
                 (keyring_of_master (bp_master p)) (bp_treasury p) (bp_cfg p)
      in case bp_webhook_secret p of None \<Rightarrow> en | Some s \<Rightarrow> with_webhook_secret wb s en)"

section \<open>Commands\<close>

definition gen_master_key :: "'k crypto \<Rightarrow> u8 list \<Rightarrow> string" where
  "gen_master_key cr random = master_to_hex cr random"

text \<open>\<open>seal-treasury\<close>: the line it prints and the host with the new file; an existing file is not
  overwritten.\<close>

definition seal_treasury ::
    "'k crypto \<Rightarrow> sealed_json \<Rightarrow> host \<Rightarrow> u8 list \<Rightarrow> string \<Rightarrow> string \<Rightarrow> string \<Rightarrow> (string \<times> host) cli" where
  "seal_treasury cr js h nonce master_key_var treasury_uri_var out =
     and_then (lib (master_from_env cr h master_key_var)) (\<lambda>master.
     and_then (ok_or (Message (treasury_uri_var @ '' not set'')) (ho_env h treasury_uri_var)) (\<lambda>uri.
     and_then (lib (keypair_from_uri cr (trim uri))) (\<lambda>kp.
     and_then (lib (master_seal cr master nonce (bytes_of (trim uri)) TREASURY_AAD)) (\<lambda>sealed.
     if ho_files h out \<noteq> None then Inl (Message (ho_io_error h out))
     else Inr (''sealed treasury '' @ ss58 cr (cr_account_id cr kp) @ '' -> '' @ out,
               h\<lparr>ho_files := (ho_files h)(out \<mapsto> sj_to js sealed)\<rparr>)))))"

definition cmd_verify_metadata ::
    "('c, 'k) platform \<Rightarrow> string \<Rightarrow> ('c, cli_error, string list) io" where
  "cmd_verify_metadata pf network =
     io_bind (io_lift (lib (network_from_str network))) (\<lambda>net.
     io_bind (io_lib (connect (pf_transport pf) (network_url net))) (\<lambda>nd. io_lib (verify_metadata nd)))"

text \<open>Actions on the outside alone, inside a larger state.\<close>

definition env_do :: "('c, 'e, 'a) io \<Rightarrow> (('c, 'd) world, 'e, 'a) io" where
  "env_do m = (\<lambda>w. case m (w_env w) of (x, c) \<Rightarrow> (x, w\<lparr>w_env := c\<rparr>))"

definition fst_do :: "('c, 'e, 'a) io \<Rightarrow> ('c \<times> 'd, 'e, 'a) io" where
  "fst_do m = (\<lambda>(c, d). case m c of (x, c') \<Rightarrow> (x, c', d))"

definition cmd_recover_legacy ::
    "'k crypto \<Rightarrow> ('c, 'k) platform \<Rightarrow> serializers \<Rightarrow> u64 \<Rightarrow> string \<Rightarrow> string \<Rightarrow> string \<Rightarrow> bool \<Rightarrow>
     ('c \<times> sqlite_db, cli_error, recovery_report) io" where
  "cmd_recover_legacy cr pf sr now manifest_file database archive apply_it =
     io_bind (io_lift (ok_or (Message (ho_io_error (pf_host pf) manifest_file)) (ho_files (pf_host pf) manifest_file))) (\<lambda>bytes.
     if 4 * 1024 * 1024 < length bytes then io_fail (Message ''manifest too large'')
     else
       io_bind (io_lift (map_err Message (pf_manifest pf bytes))) (\<lambda>manifest.
       io_bind (fst_do (io_lib (ask_with ErrStore
           (if apply_it then pf_open_store pf (SqliteSpec database) else pf_open_read_only pf database)))) (\<lambda>_.
       io_bind (\<lambda>(c, d). (lib (sqlite_get (lm_job manifest) d), c, d)) (\<lambda>found.
       io_bind (io_lift (ok_or (Message ''legacy job not found'') found)) (\<lambda>r.
       io_bind (fst_do (io_lib (connect (pf_transport pf) archive))) (\<lambda>nd.
       if apply_it then io_lib (recover_legacy cr nd sr now manifest)
       else fst_do (io_lib (dry_run cr nd r manifest))))))))"

text \<open>The commands that build an engine and ask it one thing; \<open>mk\<close> is \<open>engine_of\<close> with its
  parameters.\<close>

definition with_engine ::
    "'k crypto \<Rightarrow> ('c, 'k) platform \<Rightarrow> (('c, 'k) parts \<Rightarrow> ('c, 'd, 'k) engine) \<Rightarrow> common \<Rightarrow>
     (('c, 'd, 'k) engine \<Rightarrow> ('c, 'd, 'a) act) \<Rightarrow> (('c, 'd) world, cli_error, 'a) io" where
  "with_engine cr pf mk c f =
     io_bind (env_do (cli_engine cr pf c)) (\<lambda>p. io_lib (f (mk p)))"

definition cmd_create ::
    "'k crypto \<Rightarrow> ('c, 'k) platform \<Rightarrow> (('c, 'k) parts \<Rightarrow> ('c, 'd, 'k) engine) \<Rightarrow> common \<Rightarrow> string option \<Rightarrow>
     string option \<Rightarrow> (('c, 'd) world, cli_error, payment_request) io" where
  "cmd_create cr pf mk c metadata callback_url =
     with_engine cr pf mk c (\<lambda>en. create_payment en (default_opts
       \<lparr>cp_metadata := map_option (\<lambda>m. case pf_json_parse pf m of None \<Rightarrow> pf_json_string pf m | Some v \<Rightarrow> v) metadata,
        cp_callback_url := callback_url\<rparr>))"

definition cmd_status ::
    "'k crypto \<Rightarrow> ('c, 'k) platform \<Rightarrow> (('c, 'k) parts \<Rightarrow> ('c, 'd, 'k) engine) \<Rightarrow> common \<Rightarrow> string \<Rightarrow>
     (('c, 'd) world, cli_error, payment_status) io" where
  "cmd_status cr pf mk c i = with_engine cr pf mk c (\<lambda>en. engine_status en i)"

definition cmd_retry ::
    "'k crypto \<Rightarrow> ('c, 'k) platform \<Rightarrow> (('c, 'k) parts \<Rightarrow> ('c, 'd, 'k) engine) \<Rightarrow> common \<Rightarrow> string \<Rightarrow>
     (('c, 'd) world, cli_error, payment_status) io" where
  "cmd_retry cr pf mk c i = with_engine cr pf mk c (\<lambda>en. retry en i)"

definition cmd_force_sweep ::
    "'k crypto \<Rightarrow> ('c, 'k) platform \<Rightarrow> (('c, 'k) parts \<Rightarrow> ('c, 'd, 'k) engine) \<Rightarrow> common \<Rightarrow> string \<Rightarrow>
     (('c, 'd) world, cli_error, payment_status) io" where
  "cmd_force_sweep cr pf mk c i = with_engine cr pf mk c (\<lambda>en. force_sweep en i)"

text \<open>\<open>run\<close> up to the endless loop: the metadata of the runtime and the treasury hotkey are checked.\<close>

definition cmd_run_checks ::
    "'k crypto \<Rightarrow> ('c, 'k) platform \<Rightarrow> (('c, 'k) parts \<Rightarrow> ('c, 'd, 'k) engine) \<Rightarrow> common \<Rightarrow>
     (('c, 'd) world, cli_error, string list) io" where
  "cmd_run_checks cr pf mk c =
     io_bind (env_do (cli_engine cr pf c)) (\<lambda>p.
     io_bind (env_do (io_lib (verify_metadata (bp_node p)))) (\<lambda>lines.
     io_bind (io_lib (ensure_treasury_hotkey (mk p))) (\<lambda>_. io_ret lines)))"

definition cmd_buyback :: "('w, cli_error, 'a) io" where
  "cmd_buyback = io_fail (Lib (ErrConfig
     ''standalone buyback disabled; use a durable payment/sweep job with an explicit buyback budget''))"

record balances =
  bl_treasury :: string
  bl_free_tao :: string
  bl_spendable_tao :: string
  bl_stake :: "(string \<times> u16 \<times> string) list"

definition cmd_balances ::
    "'k crypto \<Rightarrow> ('c, 'k) platform \<Rightarrow> (('c, 'k) parts \<Rightarrow> ('c, 'd, 'k) engine) \<Rightarrow> common \<Rightarrow>
     (('c, 'd) world, cli_error, balances) io" where
  "cmd_balances cr pf mk c =
     io_bind (env_do (cli_engine cr pf c)) (\<lambda>p.
     let t = treasury_account (mk p) in
     io_bind (env_do (io_lib (chain_free_balance (bp_node p) t))) (\<lambda>free.
     io_bind (env_do (io_lib (stake_positions (bp_node p) t))) (\<lambda>pos.
     io_bind (io_lib (engine_spendable (mk p))) (\<lambda>sp.
     io_ret \<lparr>bl_treasury = ss58 cr t, bl_free_tao = format_amount free, bl_spendable_tao = format_amount sp,
             bl_stake = map (\<lambda>q. (ss58 cr (sp_hotkey q), sp_netuid q, format_amount (sp_alpha q))) pos\<rparr>))))"

section \<open>Facts\<close>

lemma lib_Inr_iff [result_simps]: "lib x = Inr y \<longleftrightarrow> x = Inr y"
  by (auto simp: lib_def map_err_def split: sum.splits)

lemma io_lib_Inr_iff [result_simps]: "io_lib m w = (Inr x, w') \<longleftrightarrow> m w = (Inr x, w')"
  by (auto simp: io_lib_def map_err_def split: prod.splits sum.splits)

definition auto_ok :: "'k crypto \<Rightarrow> common \<Rightarrow> config \<Rightarrow> bool" where
  "auto_ok cr c cfg \<longleftrightarrow>
     (if cm_auto c = ''off'' then c_auto cfg = Off \<and> c_buyback_budget cfg = None
      else \<exists>b. c_buyback_budget cfg = Some b \<and> budget_validate cr b = Inr () \<and>
        c_auto cfg = On (bb_destroy b) (Fixed (bb_amount_rao b)) \<and> bb_netuid b = c_buyback_netuid cfg \<and>
        parse_amount (cm_auto_amount c) = Inr (bb_amount_rao b) \<and> destroy_of (cm_auto c) = Inr (bb_destroy b))"

lemma auto_config_ok:
  assumes "auto_config cr c cfg = Inr cfg'" and "c_auto cfg = Off" and "c_buyback_budget cfg = None"
    and "c_buyback_netuid cfg = cm_buyback_netuid c"
  shows "auto_ok cr c cfg' \<and> c_url cfg' = c_url cfg"
  using assms by (auto simp: auto_config_def auto_ok_def result_simps Let_def split: if_splits)

lemma cli_config_ok:
  assumes "cli_config cr c net = Inr cfg"
  shows "auto_ok cr c cfg \<and> c_url cfg = network_url net"
proof -
  obtain cfg0 where "auto_config cr c cfg0 = Inr cfg" "c_auto cfg0 = Off" "c_buyback_budget cfg0 = None"
    "c_buyback_netuid cfg0 = cm_buyback_netuid c" "c_url cfg0 = network_url net"
    using assms by (auto simp: cli_config_def result_simps config_new_def)
  then show ?thesis using auto_config_ok by metis
qed

lemma cli_engine_InrD:
  assumes "cli_engine cr pf c e = (Inr p, e')"
  shows "\<exists>net e1. network_from_str (cm_network c) = Inr net \<and> (net = Finney \<longrightarrow> cm_allow_mainnet c) \<and>
     connect (pf_transport pf) (network_url net) e = (Inr (bp_node p), e1) \<and>
     cli_config cr c net = Inr (bp_cfg p) \<and> bp_store p = spec_of (cm_store c)"
  using assms
  by (auto simp: cli_engine_def open_store_def Let_def result_simps io_lift_Inr_iff io_ret_iff io_fail_def split: if_splits)

lemma engine_of_simps [simp]:
  "en_cfg (engine_of cr sc wb base ops p) = bp_cfg p" "en_crypto (engine_of cr sc wb base ops p) = cr"
  by (simp_all add: engine_of_def with_webhook_secret_def engine_new_def en_crypto_def Let_def split: option.splits)

text \<open>The check is on the name of the network: its URL is accepted without the option.\<close>

lemma finney_by_url_not_refused:
  "cli_engine cr pf (c\<lparr>cm_network := network_url Finney, cm_allow_mainnet := False\<rparr>) =
   cli_engine cr pf (c\<lparr>cm_network := network_url Finney, cm_allow_mainnet := True\<rparr>)"
proof -
  have same: "key_source (c\<lparr>cm_network := n, cm_allow_mainnet := a\<rparr>) = key_source c"
    "cli_config cr (c\<lparr>cm_network := n, cm_allow_mainnet := a\<rparr>) net = cli_config cr c net" for n a net
  proof -
    have "auto_config cr (c\<lparr>cm_network := n, cm_allow_mainnet := a\<rparr>) cfg = auto_config cr c cfg" for cfg
      unfolding auto_config_def Let_def by simp
    then show "cli_config cr (c\<lparr>cm_network := n, cm_allow_mainnet := a\<rparr>) net = cli_config cr c net"
      unfolding cli_config_def by simp
  qed (simp add: key_source_def split: option.splits)
  have "network_from_str (network_url Finney) = Inr (Custom (network_url Finney))"
    by (simp add: network_from_str_def starts_with_def)
  then show ?thesis
    by (simp add: cli_engine_def same lib_def map_err_def io_bind_def io_lift_def del: network_url.simps)
qed

section \<open>Properties\<close>

text \<open>C39: what the command line refuses and what it builds.  \<open>finney\<close> without \<open>--allow-mainnet\<close> is
  refused before anything outside is touched, but the check is by name: with the URL of that
  network the option makes no difference.  An engine that is built talks to the node of the
  named network, automatic buybacks are off or have a validated budget whose amount, destination
  and subnet are those of the options, and the policy check of the engine accepts every new job.\<close>

theorem cli_engine_guards:
  "cli_engine cr pf (c\<lparr>cm_network := network_url Finney, cm_allow_mainnet := False\<rparr>) =
     cli_engine cr pf (c\<lparr>cm_network := network_url Finney, cm_allow_mainnet := True\<rparr>) \<and>
   (network_from_str (cm_network c) = Inr Finney \<and> \<not> cm_allow_mainnet c \<longrightarrow>
      (\<exists>m. cli_engine cr pf c e = (Inl (Message m), e))) \<and>
   (cli_engine cr pf c e = (Inr p, e') \<longrightarrow>
      (\<exists>net e1. network_from_str (cm_network c) = Inr net \<and> (net = Finney \<longrightarrow> cm_allow_mainnet c) \<and>
         c_url (bp_cfg p) = network_url net \<and> connect (pf_transport pf) (network_url net) e = (Inr (bp_node p), e1)) \<and>
      auto_ok cr c (bp_cfg p) \<and>
      check_policy (engine_of cr sc wb base ops p)
        (payment_record_of (engine_of cr sc wb base ops p) opts i address sealed t) = Inr ())"
proof (intro conjI impI finney_by_url_not_refused)
  assume "network_from_str (cm_network c) = Inr Finney \<and> \<not> cm_allow_mainnet c"
  then show "\<exists>m. cli_engine cr pf c e = (Inl (Message m), e)"
    by (simp add: cli_engine_def io_simps lib_def map_err_def)
next
  assume r: "cli_engine cr pf c e = (Inr p, e')"
  then obtain net e1 where n: "network_from_str (cm_network c) = Inr net" "net = Finney \<longrightarrow> cm_allow_mainnet c"
    "connect (pf_transport pf) (network_url net) e = (Inr (bp_node p), e1)" "cli_config cr c net = Inr (bp_cfg p)"
    using cli_engine_InrD [OF r] by blast
  then show "\<exists>net e1. network_from_str (cm_network c) = Inr net \<and> (net = Finney \<longrightarrow> cm_allow_mainnet c) \<and>
      c_url (bp_cfg p) = network_url net \<and> connect (pf_transport pf) (network_url net) e = (Inr (bp_node p), e1)"
    using cli_config_ok [OF n(4)] by blast
  show a: "auto_ok cr c (bp_cfg p)" using cli_config_ok [OF n(4)] by blast
  show "check_policy (engine_of cr sc wb base ops p)
      (payment_record_of (engine_of cr sc wb base ops p) opts i address sealed t) = Inr ()"
    using a by (auto simp: auto_ok_def check_policy_def payment_record_of_def new_record_def split: if_splits)
qed

text \<open>C40: a sealed treasury key is the key.  After \<open>seal-treasury\<close> succeeded, loading the keystore
  with the same master key gives exactly the key pair that loading the environment variable
  gives, white space around it or not; the file did not exist before and no other file changed.\<close>

theorem sealed_treasury_loads:
  assumes "aead_correct cr" and "hex_correct cr" and "json_correct js" and "length nonce = 24"
    and "ho_env h uri_var = Some uri" and "utf8_valid (bytes_of uri)"
    and "seal_treasury cr js h nonce key_var uri_var out = Inr (line, h')"
  shows "\<exists>kp key. master_from_env cr h key_var = Inr key \<and> load cr js h (EnvUri uri_var) None = Inr kp \<and>
     load cr js h' (EncryptedKeystore out) (Some key) = Inr kp \<and>
     line = ''sealed treasury '' @ ss58 cr (cr_account_id cr kp) @ '' -> '' @ out \<and>
     ho_files h out = None \<and> (\<forall>p. p \<noteq> out \<longrightarrow> ho_files h' p = ho_files h p)"
proof -
  obtain key kp s where k: "master_from_env cr h key_var = Inr key" "keypair_from_uri cr (trim uri) = Inr kp"
    "master_seal cr key nonce (bytes_of (trim uri)) TREASURY_AAD = Inr s" "ho_files h out = None"
    "line = ''sealed treasury '' @ ss58 cr (cr_account_id cr kp) @ '' -> '' @ out"
    "h' = h\<lparr>ho_files := (ho_files h)(out \<mapsto> sj_to js s)\<rparr>"
    using assms(5,7) by (auto simp: seal_treasury_def result_simps split: if_splits)
  then have "load cr js h' (EncryptedKeystore out) (Some key) = keypair_from_uri cr (trim uri)"
    using load_sealed [OF assms(1-4,6) k(3), of h' out] by simp
  moreover have "load cr js h (EnvUri uri_var) None = keypair_from_uri cr (trim uri)"
    using assms(5) by (simp add: load_def)
  ultimately show ?thesis using k by auto
qed

section \<open>Witnesses\<close>

definition demo_host :: host where
  "demo_host = \<lparr>ho_env = [''KEY'' \<mapsto> ''kkkkkkkkkkkkkkkkkkkkkkkkkkkkkkkk'', ''URI'' \<mapsto> '' seed ''], ho_files = Map.empty,
     ho_io_error = (\<lambda>_. ''File exists'')\<rparr>"

text \<open>A text form of sealed secrets: the length of a field in unary in front of it.\<close>

definition put_field :: "string \<Rightarrow> string" where
  "put_field s = replicate (length s) CHR ''1'' @ CHR ''0'' # s"

definition get_field :: "string \<Rightarrow> string \<times> string" where
  "get_field t = (let n = length (takeWhile (\<lambda>c. c = CHR ''1'') t); r = drop (Suc n) t in (take n r, drop n r))"

definition demo_json :: sealed_json where
  "demo_json = \<lparr>sj_to = (\<lambda>s. char_of (unat (ss_v s)) # put_field (ss_nonce s) @ put_field (ss_ct s) @
       (case ss_kid s of None \<Rightarrow> [] | Some k \<Rightarrow> CHR ''k'' # k)),
     sj_from = (\<lambda>t. let (nonce, r) = get_field (tl t); (ct, k) = get_field r in
       Some \<lparr>ss_v = of_nat (byte_of (hd t)), ss_nonce = nonce, ss_ct = ct,
             ss_kid = (if k = [] then None else Some (tl k))\<rparr>)\<rparr>"

lemma get_put_field: "get_field (put_field s @ r) = (s, r)"
proof -
  have "takeWhile (\<lambda>c. c = CHR ''1'') (replicate n CHR ''1'' @ CHR ''0'' # t) = replicate n CHR ''1''" for n t
    by (induction n) simp_all
  then show ?thesis by (simp add: get_field_def put_field_def Let_def)
qed

lemma demo_json_correct: "json_correct demo_json"
proof -
  have "of_nat (byte_of (char_of (unat w))) = w" for w :: u8
    using bytes_of_text_of [of "[w]"] by (simp add: text_of_def)
  then show ?thesis
    by (auto simp: json_correct_def demo_json_def get_put_field Let_def split: option.splits)
qed

definition demo_platform :: "(nat, account_id) platform" where
  "demo_platform = \<lparr>pf_host = demo_host, pf_sealed = demo_json,
     pf_transport = demo_transport\<lparr>tp_parse_url := (\<lambda>_. Some (''ws'', Some ''127.0.0.1'')),
       tp_open := (\<lambda>u k c. (Inr (), c)), tp_client := (\<lambda>u c. (Inr (demo_node 12), c))\<rparr>,
     pf_open_store = (\<lambda>_ c. (Inr (), c)), pf_open_read_only = (\<lambda>_ c. (Inr (), c)),
     pf_json_parse = (\<lambda>_. None), pf_json_string = id, pf_manifest = (\<lambda>_. Inl ''eof'')\<rparr>"

definition demo_common :: common where
  "demo_common = \<lparr>cm_network = ''local'', cm_netuid = 1, cm_store = ''sqlite:jobs'', cm_master_key_var = ''KEY'',
     cm_treasury_uri_var = ''URI'', cm_treasury_mnemonic_file = None, cm_treasury_keystore = None,
     cm_treasury_hotkey = ''hot'', cm_min_alpha = ''1'', cm_min_tao = None, cm_expiry_secs = 60,
     cm_buyback_netuid = 100, cm_slippage_bps = 100, cm_fee_margin_bps = 5000, cm_fee_reserve = ''1'',
     cm_auto = ''burn'', cm_auto_amount = ''1'', cm_auto_source = Some ''ops'', cm_webhook_url = None,
     cm_allow_mainnet = False\<rparr>"

lemmas trim_eval = trim_def ws1_def ws2_def ws3_def byte_of_def

lemma parse_one: "parse_amount ''1'' = Inr RAO_PER_TAO"
proof -
  have t: "trim ''1'' = ''1''" by (simp add: trim_eval)
  have "pad_right0 9 [] = ''000000000''" by (simp add: pad_right0_def numeral_eq_Suc)
  then have f: "u64_from_str (pad_right0 9 []) = Some 0"
    by (simp add: u64_from_str_def digits_val_def is_ascii_digit_def byte_of_def)
  have i: "u64_from_str ''1'' = Some 1" by (simp add: u64_from_str_def digits_val_def is_ascii_digit_def byte_of_def)
  have m: "Option.bind (checked_mul 1 RAO_PER_TAO) (\<lambda>v. checked_add v 0) = Some RAO_PER_TAO"
    by (simp add: checked_mul_def checked_add_def RAO_PER_TAO_def)
  have o: "split_once ''.'' ''1'' = None" by (simp add: starts_with_def)
  show ?thesis
    unfolding parse_amount_def t o Let_def using f i m by (simp add: is_ascii_digit_def byte_of_def)
qed

lemma demo_master: "master_from_env plain_crypto demo_host ''KEY'' = Inr (bytes_of ''kkkkkkkkkkkkkkkkkkkkkkkkkkkkkkkk'')"
proof -
  have "trim ''kkkkkkkkkkkkkkkkkkkkkkkkkkkkkkkk'' = ''kkkkkkkkkkkkkkkkkkkkkkkkkkkkkkkk''" by (simp add: trim_eval)
  then show ?thesis by (simp add: master_from_env_def demo_host_def master_from_hex_def plain_crypto_def)
qed

lemma demo_treasury: "load plain_crypto js demo_host (EnvUri ''URI'') k = Inr (bytes_of ''seed'')"
  by (simp add: load_def demo_host_def keypair_from_uri_def plain_crypto_def trim_eval)

lemma demo_config: "\<exists>cfg. cli_config plain_crypto demo_common Local = Inr cfg"
  by (simp add: cli_config_def auto_config_def demo_common_def parse_one lib_def map_err_def destroy_of_def parse_ss58_def
      plain_crypto_def budget_validate_def RAO_PER_TAO_def MIN_STAKE_RAO_def trim_eval Let_def)

lemma demo_engine: "\<exists>p. cli_engine plain_crypto demo_platform demo_common 0 = (Inr p, 0)"
proof -
  have d: "cm_network demo_common = ''local''" "cm_master_key_var demo_common = ''KEY''" "key_source demo_common = EnvUri ''URI''"
    "pf_host demo_platform = demo_host" "cm_store demo_common = ''sqlite:jobs''"
    by (simp_all add: demo_common_def demo_platform_def key_source_def)
  have n: "network_from_str ''local'' = Inr Local" by (simp add: network_from_str_def)
  have c: "connect (pf_transport demo_platform) (network_url Local) e = (Inr (demo_node 12), e)" for e
    by (simp add: connect_def connect_endpoint_def endpoint_new_def demo_platform_def io_simps ask_def ask_with_def map_err_def
        loopback_def)
  have o: "open_store demo_platform ''sqlite:jobs'' e = (Inr (spec_of ''sqlite:jobs''), e)" for e
    by (simp add: open_store_def demo_platform_def io_simps ask_with_def map_err_def)
  obtain cfg where "cli_config plain_crypto demo_common Local = Inr cfg" using demo_config by blast
  then show ?thesis
    by (simp add: cli_engine_def d n c o demo_master demo_treasury io_bind_eval io_lift_def io_lib_def lib_def map_err_def
        io_ret_def Let_def del: network_url.simps)
qed

theorem cli_engine_guards_witness:
  "\<exists>p. cli_engine plain_crypto demo_platform demo_common 0 = (Inr p, 0) \<and> auto_ok plain_crypto demo_common (bp_cfg p) \<and>
     (\<exists>m. cli_engine plain_crypto demo_platform (demo_common\<lparr>cm_network := ''mainnet''\<rparr>) 0 = (Inl (Message m), 0))"
proof -
  obtain p where p: "cli_engine plain_crypto demo_platform demo_common 0 = (Inr p, 0)" using demo_engine by blast
  have "auto_ok plain_crypto demo_common (bp_cfg p)"
    using cli_engine_guards [where c = demo_common and cr = plain_crypto and pf = demo_platform and e = 0 and p = p and e' = 0] p by blast
  moreover have "network_from_str ''mainnet'' = Inr Finney" by (simp add: network_from_str_def)
  then have "\<exists>m. cli_engine plain_crypto demo_platform (demo_common\<lparr>cm_network := ''mainnet''\<rparr>) 0 = (Inl (Message m), 0)"
    using cli_engine_guards [where c = "demo_common\<lparr>cm_network := ''mainnet''\<rparr>" and cr = plain_crypto and pf = demo_platform and e = 0]
    by (simp add: demo_common_def)
  ultimately show ?thesis using p by blast
qed

theorem sealed_treasury_loads_witness:
  "\<exists>line h' kp key. seal_treasury plain_crypto demo_json demo_host (replicate 24 7) ''KEY'' ''URI'' ''out'' = Inr (line, h') \<and>
     load plain_crypto demo_json demo_host (EnvUri ''URI'') None = Inr kp \<and>
     load plain_crypto demo_json h' (EncryptedKeystore ''out'') (Some key) = Inr kp"
proof -
  have u: "ho_env demo_host ''URI'' = Some '' seed ''" by (simp add: demo_host_def)
  have v: "utf8_valid (bytes_of '' seed '')" by (rule utf8_ascii) (simp add: byte_of_def)
  obtain line h' where s: "seal_treasury plain_crypto demo_json demo_host (replicate 24 7) ''KEY'' ''URI'' ''out'' = Inr (line, h')"
    by (simp add: seal_treasury_def demo_master u lib_def map_err_def keypair_from_uri_def)
       (simp add: plain_crypto_def master_seal_def demo_host_def)
  from sealed_treasury_loads [OF plain_crypto_correct(1,2) demo_json_correct _ u v s] show ?thesis using s by auto
qed

end
