(* ===== verification/Weakest_Pre.thy ===== *)
theory Weakest_Pre
  imports Engine Journal_Outcomes
begin

text \<open>
  Weakest preconditions of effects, on errors as well as results: \<open>wp m Q w\<close> says that the answer and
  the world that \<open>m\<close> ends with in world \<open>w\<close> satisfy \<open>Q\<close>.  The rules compute it along the binds;
  those for the database are for a \<open>quiet\<close> client, with no other clients beside it.
\<close>

definition wp :: "('w, 'e, 'a) io \<Rightarrow> ('e + 'a \<Rightarrow> 'w \<Rightarrow> bool) \<Rightarrow> 'w \<Rightarrow> bool" where
  "wp m Q w \<longleftrightarrow> Q (fst (m w)) (snd (m w))"

lemma wp_simps [simp]:
  "wp (io_ret x) Q w = Q (Inr x) w" "wp (io_fail e) Q w = Q (Inl e) w" "wp (io_lift r) Q w = Q r w"
  by (simp_all add: wp_def io_simps)

lemma wp_attempt [simp]: "wp (io_attempt m) Q w = wp m (\<lambda>r. Q (Inr r)) w"
  by (simp add: wp_def io_simps)

lemma wp_bind [simp]:
  "wp (io_bind m f) Q w = wp m (\<lambda>r w'. case r of Inl e \<Rightarrow> Q (Inl e) w' | Inr x \<Rightarrow> wp (f x) Q w') w"
  by (auto simp: wp_def io_bind_def split: prod.splits sum.splits)

lemma bind_value: "io_bind (io_lift (Inr x)) f = f x" "io_bind (io_ret x) f = f x"
  by (simp_all add: fun_eq_iff io_simps)

lemma wp_bind_lift: "wp (io_bind (io_lift r) f) Q w = (case r of Inl e \<Rightarrow> Q (Inl e) w | Inr x \<Rightarrow> wp (f x) Q w)"
  by (simp split: sum.split)

lemma wp_rpc: "wp (rpc_do f) Q w = Q (fst (f (w_env w))) (w\<lparr>w_env := snd (f (w_env w))\<rparr>)"
  by (simp add: wp_def rpc_do_def case_prod_beta Let_def)

lemma wp_now: "wp (now_do cl) Q w = (case rp_now (cl_rpc cl) (w_env w) of (t, c) \<Rightarrow> Q (Inr t) (w\<lparr>w_env := c\<rparr>))"
  by (simp add: now_do_def wp_rpc case_prod_beta Let_def)

lemma wp_uuid: "wp (uuid_do cl) Q w = (case rp_uuid (cl_rpc cl) (w_env w) of (t, c) \<Rightarrow> Q (Inr t) (w\<lparr>w_env := c\<rparr>))"
  by (simp add: uuid_do_def wp_rpc case_prod_beta Let_def)

lemma wp_db: "quiet cl \<Longrightarrow> wp (db_do cl f) Q w = Q (fst (f (w_db w))) (w\<lparr>w_db := snd (f (w_db w))\<rparr>)"
  by (simp add: wp_def quiet_def db_do_def case_prod_beta Let_def)

lemma wp_emit: "wp (emit st) Q w = Q (Inr ()) (w\<lparr>w_events := w_events w @ [st]\<rparr>)"
  by (simp add: wp_def emit_def)

lemma wp_mono: "wp m P w \<Longrightarrow> (\<And>r w'. P r w' \<Longrightarrow> Q r w') \<Longrightarrow> wp m Q w"
  by (simp add: wp_def)

end
