(* ===== verification/Http_Server.thy ===== *)
theory Http_Server
  imports Http_Api Weakest_Pre Engine_Wallets
begin

text \<open>
  The router of \<open>src/src/http.rs\<close>: its table of routes, and what serving requests does to the
  database.  Matching a path, extracting a path parameter or a JSON body, and the answers to
  requests that no handler gets are axum's: the record \<open>axum\<close>.
\<close>

section \<open>Definitions\<close>

datatype handler = Create | Status | Health

text \<open>\<open>router\<close>: path, method and handler of each route.\<close>

definition routes :: "(string \<times> string \<times> handler) list" where
  "routes =
     [(''/payments'', ''POST'', Create),
      (''/payments/{id}'', ''GET'', Status),
      (''/health'', ''GET'', Health)]"

record http_request =
  rq_method :: string
  rq_path :: string
  rq_content :: string

text \<open>\<open>ax_match pattern path\<close> is the captured parameter, if the path matches; \<open>ax_serves m m'\<close> says
  that a route for method \<open>m\<close> takes a request with method \<open>m'\<close>.\<close>

record axum =
  ax_match :: "string \<Rightarrow> string \<Rightarrow> string option"
  ax_serves :: "string \<Rightarrow> string \<Rightarrow> bool"
  ax_id :: "string \<Rightarrow> response + string"
  ax_body :: "string \<Rightarrow> response + create_payment_opts option"
  ax_not_found :: response
  ax_not_allowed :: response

definition handle :: "axum \<Rightarrow> ('c, 'd, 'k) engine \<Rightarrow> handler \<Rightarrow> string \<Rightarrow> string \<Rightarrow> ('c, 'd, response) act" where
  "handle ax en h param content =
     (case h of
        Create \<Rightarrow> (case ax_body ax content of Inl rejection \<Rightarrow> io_ret rejection | Inr body \<Rightarrow> http_create en body)
      | Status \<Rightarrow> (case ax_id ax param of Inl rejection \<Rightarrow> io_ret rejection | Inr i \<Rightarrow> http_status en i)
      | Health \<Rightarrow> io_ret \<lparr>hr_code = 200, hr_body = PlainText ''ok''\<rparr>)"

definition serve :: "axum \<Rightarrow> ('c, 'd, 'k) engine \<Rightarrow> http_request \<Rightarrow> ('c, 'd, response) act" where
  "serve ax en q =
     (case find (\<lambda>(pattern, _). ax_match ax pattern (rq_path q) \<noteq> None) routes of
        None \<Rightarrow> io_ret (ax_not_found ax)
      | Some (pattern, m, h) \<Rightarrow>
          if ax_serves ax m (rq_method q) then handle ax en h (the (ax_match ax pattern (rq_path q))) (rq_content q)
          else io_ret (ax_not_allowed ax))"

fun serve_all :: "axum \<Rightarrow> ('c, 'd, 'k) engine \<Rightarrow> http_request list \<Rightarrow> ('c, 'd, response list) act" where
  "serve_all ax en [] = io_ret []"
| "serve_all ax en (q # qs) =
     io_bind (serve ax en q) (\<lambda>r. io_bind (serve_all ax en qs) (\<lambda>rs. io_ret (r # rs)))"

text \<open>Documented behaviour of axum: what it rejects itself is the fault of the client.\<close>

definition rejects_4xx :: "axum \<Rightarrow> bool" where
  "rejects_4xx ax \<longleftrightarrow>
     (let client_error = (\<lambda>r. 400 \<le> hr_code r \<and> hr_code r < 500)
      in client_error (ax_not_found ax) \<and> client_error (ax_not_allowed ax) \<and>
         (\<forall>p r. ax_id ax p = Inl r \<longrightarrow> client_error r) \<and> (\<forall>c r. ax_body ax c = Inl r \<longrightarrow> client_error r))"

section \<open>One request\<close>

lemma create_payment_adds:
  assumes "cl_store (en_client en) = sqlite_ops cr" and "quiet (en_client en)"
  shows "wp (create_payment en opts) (\<lambda>x w'. w_sent w' = w_sent w \<and> w_events w' = w_events w \<and>
     (case x of
        Inl _ \<Rightarrow> w_db w' = w_db w
      | Inr req \<Rightarrow> \<exists>a s t. sqlite_insert (payment_record_of en opts (pr_id req) a s t) (w_db w) = (Inr (), w_db w') \<and>
          pr_address req = a)) w"
  using assms
  by (auto simp: create_payment_def st_require_signing_def random_do_def uuid_do_def wp_rpc wp_now wp_db st_insert_def
      sqlite_insert_def sqlite_require_signing_def Let_def split: sum.splits prod.splits)

text \<open>What a list of answers did: \<open>handed_out rs\<close> are the payment requests answered with 201.\<close>

definition handed_out :: "response list \<Rightarrow> payment_request set" where
  "handed_out rs = {req. \<lparr>hr_code = 201, hr_body = JsonRequest req\<rparr> \<in> set rs}"

definition awaits :: "('c, 'd, 'k) engine \<Rightarrow> payment_request \<Rightarrow> payment_record \<Rightarrow> bool" where
  "awaits en req r \<longleftrightarrow> r_id r = pr_id req \<and> r_address r = pr_address req \<and> r_state r = Pending \<and> r_pending r = None \<and>
     r_txs r = [] \<and> r_identity r = Some (job_identity_of en) \<and> r_buyback_budget r = c_buyback_budget (en_cfg en)"

definition only_adds ::
    "('c, sqlite_db, 'k) engine \<Rightarrow> response list \<Rightarrow> ('c, sqlite_db) world \<Rightarrow> ('c, sqlite_db) world \<Rightarrow> bool" where
  "only_adds en rs w w' \<longleftrightarrow>
     w_sent w' = w_sent w \<and> w_events w' = w_events w \<and> db_held (w_db w') = db_held (w_db w) \<and>
     db_content (w_db w) \<subseteq>\<^sub>m db_content (w_db w') \<and>
     dom (db_content (w_db w')) = dom (db_content (w_db w)) \<union> pr_id ` handed_out rs \<and>
     (\<forall>req \<in> handed_out rs. db_content (w_db w) (pr_id req) = None \<and>
        (\<exists>r. db_content (w_db w') (pr_id req) = Some r \<and> awaits en req r)) \<and>
     (\<forall>resp \<in> set rs. 500 \<le> hr_code resp \<longrightarrow> hr_body resp = PlainText ''internal error'')"

lemma handed_out_Nil [simp]: "handed_out [] = {}"
  by (simp add: handed_out_def)

lemma handed_out_Cons: "handed_out (r # rs) = handed_out [r] \<union> handed_out rs"
  by (auto simp: handed_out_def)

lemma only_adds_nothing:
  assumes "w_sent w' = w_sent w" and "w_events w' = w_events w" and "w_db w' = w_db w" and "hr_code r \<noteq> 201"
    and "500 \<le> hr_code r \<Longrightarrow> hr_body r = PlainText ''internal error''"
  shows "only_adds en [r] w w'"
  using assms by (auto simp: only_adds_def handed_out_def)

lemma only_adds_append:
  assumes "only_adds en [r] w w1" and "only_adds en rs w1 w2"
  shows "only_adds en (r # rs) w w2"
proof -
  have old: "db_content (w_db w) i = None" if "db_content (w_db w1) i = None" for i
    using that assms(1) unfolding only_adds_def by (metis domIff map_le_implies_dom_le subsetD)
  have kept: "db_content (w_db w2) i = Some x" if "db_content (w_db w1) i = Some x" for i x
    using that assms(2) unfolding only_adds_def map_le_def by (metis domI)
  have "db_content (w_db w) \<subseteq>\<^sub>m db_content (w_db w2)"
    using assms unfolding only_adds_def by (meson map_le_trans)
  moreover have "\<forall>req \<in> handed_out [r] \<union> handed_out rs. db_content (w_db w) (pr_id req) = None \<and>
      (\<exists>x. db_content (w_db w2) (pr_id req) = Some x \<and> awaits en req x)"
  proof (rule ballI, elim UnE)
    fix req assume "req \<in> handed_out [r]"
    then show "db_content (w_db w) (pr_id req) = None \<and> (\<exists>x. db_content (w_db w2) (pr_id req) = Some x \<and> awaits en req x)"
      using assms(1) kept [of "pr_id req"] unfolding only_adds_def by force
  next
    fix req assume "req \<in> handed_out rs"
    then show "db_content (w_db w) (pr_id req) = None \<and> (\<exists>x. db_content (w_db w2) (pr_id req) = Some x \<and> awaits en req x)"
      using assms(2) old [of "pr_id req"] unfolding only_adds_def by simp
  qed
  moreover have "\<forall>resp \<in> set (r # rs). 500 \<le> hr_code resp \<longrightarrow> hr_body resp = PlainText ''internal error''"
    using assms unfolding only_adds_def by simp
  moreover have "dom (db_content (w_db w2)) = dom (db_content (w_db w)) \<union> pr_id ` (handed_out [r] \<union> handed_out rs)"
    using assms unfolding only_adds_def by (simp add: image_Un Un_assoc)
  moreover have "w_sent w2 = w_sent w" "w_events w2 = w_events w" "db_held (w_db w2) = db_held (w_db w)"
    using assms unfolding only_adds_def by simp_all
  ultimately show ?thesis
    unfolding only_adds_def handed_out_Cons [of r rs] by (intro conjI)
qed

lemma insert_keeps_held: "sqlite_insert r d = (Inr u, d') \<Longrightarrow> db_held d' = db_held d"
  by (auto simp: sqlite_insert_def db_held_def split: if_splits)

lemma http_create_adds:
  assumes "cl_store (en_client en) = sqlite_ops cr" and "quiet (en_client en)"
  shows "\<exists>r w'. http_create en body w = (Inr r, w') \<and> only_adds en [r] w w'"
proof -
  let ?opts = "case body of None \<Rightarrow> default_opts | Some b \<Rightarrow> b"
  obtain x w' where x: "create_payment en ?opts w = (x, w')" by force
  note c = create_payment_adds [OF assms, of ?opts w, unfolded wp_def x fst_conv snd_conv]
  show ?thesis
  proof (cases x)
    case (Inl e)
    then have "http_create en body w = (Inr (http_error e), w')" using x by (simp add: http_create_def io_simps)
    moreover have "only_adds en [http_error e] w w'"
      using c Inl by (intro only_adds_nothing) (auto simp: http_error_def Let_def split: error.splits)
    ultimately show ?thesis by blast
  next
    case (Inr req)
    then obtain a s t where ins: "sqlite_insert (payment_record_of en ?opts (pr_id req) a s t) (w_db w) = (Inr (), w_db w')"
      and a: "pr_address req = a" using c by auto
    let ?r = "payment_record_of en ?opts (pr_id req) a s t"
    have i: "r_id ?r = pr_id req" and "awaits en req ?r"
      by (simp_all add: payment_record_of_def new_record_def awaits_def a)
    moreover have "handed_out [\<lparr>hr_code = 201, hr_body = JsonRequest req\<rparr>] = {req}" by (auto simp: handed_out_def)
    moreover have "db_held (w_db w') = db_held (w_db w)"
      using insert_keeps_held [OF ins] .
    ultimately have "only_adds en [\<lparr>hr_code = 201, hr_body = JsonRequest req\<rparr>] w w'"
      using c Inr insert_content_sqlite [OF ins] by (auto simp: only_adds_def map_le_def)
    moreover have "http_create en body w = (Inr \<lparr>hr_code = 201, hr_body = JsonRequest req\<rparr>, w')"
      using x Inr by (simp add: http_create_def io_simps)
    ultimately show ?thesis by blast
  qed
qed

lemma http_status_adds:
  assumes "cl_store (en_client en) = sqlite_ops cr" and "quiet (en_client en)"
  shows "\<exists>r w'. http_status en i w = (Inr r, w') \<and> only_adds en [r] w w'"
proof -
  obtain x w' where x: "engine_status en i w = (x, w')" by force
  let ?r = "case x of Inr s \<Rightarrow> \<lparr>hr_code = 200, hr_body = JsonStatus s\<rparr> | Inl e \<Rightarrow> http_error e"
  have "w_sent w' = w_sent w" "w_events w' = w_events w" "w_db w' = w_db w"
    using x assms by (auto simp: engine_status_def get_or_not_found_def st_get_def db_do_def quiet_def io_simps
      case_prod_beta Let_def split: sum.splits)
  then have "only_adds en [?r] w w'"
    by (rule only_adds_nothing) (auto simp: http_error_def Let_def split: sum.splits error.splits)
  moreover have "http_status en i w = (Inr ?r, w')"
    using x by (simp add: http_status_def io_simps)
  ultimately show ?thesis by blast
qed

lemma serve_adds:
  assumes "cl_store (en_client en) = sqlite_ops cr" and "quiet (en_client en)" and "rejects_4xx ax"
  shows "\<exists>r w'. serve ax en q w = (Inr r, w') \<and> only_adds en [r] w w'"
proof -
  have rejection: "only_adds en [r] w w" if "400 \<le> hr_code r" "hr_code r < 500" for r
    using that by (intro only_adds_nothing) auto
  have "\<exists>r w'. handle ax en h p c w = (Inr r, w') \<and> only_adds en [r] w w'" for h p c
    using assms http_create_adds [OF assms(1,2)] http_status_adds [OF assms(1,2)] rejection
      only_adds_nothing [of w w "\<lparr>hr_code = 200, hr_body = PlainText ''ok''\<rparr>" en]
    by (cases h) (auto simp: handle_def rejects_4xx_def io_simps Let_def split: sum.split)
  then show ?thesis
    using assms(3) rejection by (auto simp: serve_def rejects_4xx_def io_simps Let_def split: option.split)
qed

section \<open>Property\<close>

text \<open>C37: serving HTTP is harmless.  Any list of requests is answered, nothing is handed to the network, no
  stored record and no reservation changes, and the only new records are the payments whose
  requests were answered with 201, each waiting at the address that was handed out and visible
  under its id; and no answer describes an internal error.\<close>

theorem http_only_adds_payments:
  assumes "cl_store (en_client en) = sqlite_ops cr" and "quiet (en_client en)" and "rejects_4xx ax"
  shows "\<exists>rs w'. serve_all ax en qs w = (Inr rs, w') \<and> length rs = length qs \<and> w_sent w' = w_sent w \<and>
     db_held (w_db w') = db_held (w_db w) \<and> db_content (w_db w) \<subseteq>\<^sub>m db_content (w_db w') \<and>
     dom (db_content (w_db w')) = dom (db_content (w_db w)) \<union> pr_id ` handed_out rs \<and>
     (\<forall>req \<in> handed_out rs. db_content (w_db w) (pr_id req) = None \<and>
        (\<exists>r w''. db_content (w_db w') (pr_id req) = Some r \<and> awaits en req r \<and>
           http_status en (pr_id req) w' = (Inr \<lparr>hr_code = 200, hr_body = JsonStatus (record_status r)\<rparr>, w''))) \<and>
     (\<forall>resp \<in> set rs. 500 \<le> hr_code resp \<longrightarrow> hr_body resp = PlainText ''internal error'')"
proof -
  have "\<exists>rs w'. serve_all ax en qs w = (Inr rs, w') \<and> length rs = length qs \<and> only_adds en rs w w'"
  proof (induction qs arbitrary: w)
    case Nil
    then show ?case by (simp add: io_simps only_adds_def)
  next
    case (Cons q qs)
    obtain r w1 where r: "serve ax en q w = (Inr r, w1)" "only_adds en [r] w w1"
      using serve_adds [OF assms] by blast
    moreover obtain rs w2 where "serve_all ax en qs w1 = (Inr rs, w2)" "length rs = length qs" "only_adds en rs w1 w2"
      using Cons.IH by blast
    ultimately show ?case using only_adds_append by (fastforce simp: io_simps)
  qed
  then obtain rs w' where s: "serve_all ax en qs w = (Inr rs, w')" "length rs = length qs" and a: "only_adds en rs w w'" by blast
  have "\<exists>w''. http_status en i w' = (Inr \<lparr>hr_code = 200, hr_body = JsonStatus (record_status r)\<rparr>, w'')"
    if "db_content (w_db w') i = Some r" for i r
    using http_status_reports [OF assms(1,2), of i w'] that by auto
  then show ?thesis using s a unfolding only_adds_def by (metis (no_types, lifting))
qed

section \<open>Witness\<close>

definition plain_axum :: axum where
  "plain_axum = \<lparr>ax_match = (\<lambda>p path. if p = path then Some [] else if p = ''/payments/{id}'' then strip_prefix ''/payments/'' path else None),
     ax_serves = (=), ax_id = Inr,
     ax_body = (\<lambda>c. if c = [] then Inr None else Inl \<lparr>hr_code = 415, hr_body = PlainText ''unsupported''\<rparr>),
     ax_not_found = \<lparr>hr_code = 404, hr_body = PlainText []\<rparr>, ax_not_allowed = \<lparr>hr_code = 405, hr_body = PlainText []\<rparr>\<rparr>"

definition plain_requests :: "http_request list" where
  "plain_requests =
     [\<lparr>rq_method = ''POST'', rq_path = ''/payments'', rq_content = []\<rparr>, \<lparr>rq_method = ''GET'', rq_path = ''/health'', rq_content = []\<rparr>,
      \<lparr>rq_method = ''DELETE'', rq_path = ''/payments/x'', rq_content = []\<rparr>, \<lparr>rq_method = ''GET'', rq_path = ''/'', rq_content = []\<rparr>]"

lemma plain_axum_rejects: "rejects_4xx plain_axum"
  by (auto simp: rejects_4xx_def plain_axum_def split: if_splits)

lemma plain_requests_served:
  "\<exists>req w'. serve_all plain_axum wallet_engine plain_requests (demo_world empty_db) =
     (Inr [\<lparr>hr_code = 201, hr_body = JsonRequest req\<rparr>, \<lparr>hr_code = 200, hr_body = PlainText ''ok''\<rparr>,
           \<lparr>hr_code = 405, hr_body = PlainText []\<rparr>, \<lparr>hr_code = 404, hr_body = PlainText []\<rparr>], w')"
proof -
  obtain req w' where "create_payment wallet_engine default_opts (demo_world empty_db) = (Inr req, w')"
    using wallet_engine_creates by (auto simp: default_opts_def)
  then show ?thesis
    by (simp add: plain_requests_def serve_def routes_def handle_def plain_axum_def strip_prefix_def http_create_def io_simps)
qed

theorem http_only_adds_payments_witness:
  "\<exists>rs w'. serve_all plain_axum wallet_engine plain_requests (demo_world empty_db) = (Inr rs, w') \<and>
     map hr_code rs = [201, 200, 405, 404] \<and> w_sent w' = w_sent (demo_world empty_db) \<and>
     dom (db_content (w_db w')) = pr_id ` handed_out rs \<and> handed_out rs \<noteq> {}"
proof -
  have "quiet (en_client wallet_engine)" by (simp add: quiet_def wallet_engine_def engine_new_def demo_rpc_def)
  moreover have "db_content (w_db (demo_world empty_db)) = Map.empty"
    by (simp add: demo_world_def empty_db_def db_content_def find_row_def fun_eq_iff)
  moreover have "handed_out (\<lparr>hr_code = 201, hr_body = JsonRequest req\<rparr> # rs) \<noteq> {}" for req rs
    by (auto simp: handed_out_def)
  ultimately show ?thesis
    using http_only_adds_payments [OF wallet_engine_simps(3) _ plain_axum_rejects, of plain_requests "demo_world empty_db"]
      plain_requests_served by auto
qed

end
