(* ===== verification/Command_Main.thy ===== *)
theory Command_Main
  imports Command_Line Http_Server
begin

text \<open>
  \<open>main\<close> of \<open>src/src/bin/buyback.rs\<close>: the parsed commands and what each does to the machine it runs on:
  the world of the engine, the database file that \<open>recover-legacy\<close> names, and the files.  A command
  returns what it prints; \<open>run\<close> returns what it starts, and the endless loop is \<open>Engine_Run\<close>.
\<close>

section \<open>Definitions\<close>

datatype cmd =
    CmdGenMasterKey
  | CmdSealTreasury string string string
  | CmdVerifyMetadata string
  | CmdRecoverLegacy string string string bool
  | CmdCreate common "string option" "string option"
  | CmdStatus common string
  | CmdRetry common string
  | CmdForceSweep common string
  | CmdRun common "string option"
  | CmdBuyback common string string
  | CmdBalances common

datatype printed =
    Line string
  | Lines "string list"
  | Report recovery_report
  | Request payment_request
  | StatusOf payment_status
  | BalancesOf balances
  | Started "string list" "string option"

record ('c, 'd) machine =
  mc_world :: "('c, 'd) world"
  mc_legacy :: sqlite_db
  mc_host :: host

text \<open>What the system supplies to one invocation: random bytes, the clock, whether the HTTP interface was
  compiled in, and binding a listener.\<close>

record 'c provision =
  su_key :: "u8 list"
  su_nonce :: "u8 list"
  su_now :: u64
  su_http :: bool
  su_bind :: "string \<Rightarrow> ('c, unit) request"

definition on_world :: "(('c, 'd) world, 'e, 'a) io \<Rightarrow> (('c, 'd) machine, 'e, 'a) io" where
  "on_world f = (\<lambda>m. case f (mc_world m) of (x, w) \<Rightarrow> (x, m\<lparr>mc_world := w\<rparr>))"

definition on_legacy :: "('c \<times> sqlite_db, 'e, 'a) io \<Rightarrow> (('c, 'd) machine, 'e, 'a) io" where
  "on_legacy f = (\<lambda>m. case f (w_env (mc_world m), mc_legacy m) of
     (x, c, d) \<Rightarrow> (x, m\<lparr>mc_world := (mc_world m)\<lparr>w_env := c\<rparr>, mc_legacy := d\<rparr>))"

definition on_host :: "(host \<Rightarrow> ('a \<times> host) cli) \<Rightarrow> (('c, 'd) machine, cli_error, 'a) io" where
  "on_host f = (\<lambda>m. case f (mc_host m) of
     Inl e \<Rightarrow> (Inl e, m)
   | Inr (x, h) \<Rightarrow> (Inr x, m\<lparr>mc_host := h\<rparr>))"

definition listen_on :: "'c provision \<Rightarrow> string option \<Rightarrow> (('c, 'd) world, cli_error, unit) io" where
  "listen_on su listen =
     (case listen of
        None \<Rightarrow> io_ret ()
      | Some addr \<Rightarrow>
          if su_http su then env_do (\<lambda>c. case su_bind su addr c of (x, c') \<Rightarrow> (map_err Message x, c'))
          else io_fail (Message (''--listen '' @ addr @ '' needs the `http` feature'')))"

definition cmd_run ::
    "'k crypto \<Rightarrow> ('c, 'k) platform \<Rightarrow> (('c, 'k) parts \<Rightarrow> ('c, 'd, 'k) engine) \<Rightarrow> 'c provision \<Rightarrow> common \<Rightarrow> string option \<Rightarrow>
     (('c, 'd) world, cli_error, printed) io" where
  "cmd_run cr pf mk su c listen =
     io_bind (cmd_run_checks cr pf mk c) (\<lambda>lines.
     io_bind (listen_on su listen) (\<lambda>_. io_ret (Started lines listen)))"

definition io_map :: "('a \<Rightarrow> 'b) \<Rightarrow> ('w, 'e, 'a) io \<Rightarrow> ('w, 'e, 'b) io" where
  "io_map f m = io_bind m (\<lambda>x. io_ret (f x))"

fun dispatch ::
    "'k crypto \<Rightarrow> ('c, 'k) platform \<Rightarrow> serializers \<Rightarrow> (('c, 'k) parts \<Rightarrow> ('c, 'd, 'k) engine) \<Rightarrow> 'c provision \<Rightarrow> cmd \<Rightarrow>
     (('c, 'd) machine, cli_error, printed) io" where
  "dispatch cr pf sr mk su CmdGenMasterKey = io_ret (Line (gen_master_key cr (su_key su)))"
| "dispatch cr pf sr mk su (CmdSealTreasury master_key_var treasury_uri_var out) =
     io_map Line (on_host (\<lambda>h. seal_treasury cr (pf_sealed pf) h (su_nonce su) master_key_var treasury_uri_var out))"
| "dispatch cr pf sr mk su (CmdVerifyMetadata network) = io_map Lines (on_world (env_do (cmd_verify_metadata pf network)))"
| "dispatch cr pf sr mk su (CmdRecoverLegacy manifest database archive apply_it) =
     io_map Report (on_legacy (cmd_recover_legacy cr pf sr (su_now su) manifest database archive apply_it))"
| "dispatch cr pf sr mk su (CmdCreate c metadata callback_url) =
     io_map Request (on_world (cmd_create cr pf mk c metadata callback_url))"
| "dispatch cr pf sr mk su (CmdStatus c i) = io_map StatusOf (on_world (cmd_status cr pf mk c i))"
| "dispatch cr pf sr mk su (CmdRetry c i) = io_map StatusOf (on_world (cmd_retry cr pf mk c i))"
| "dispatch cr pf sr mk su (CmdForceSweep c i) = io_map StatusOf (on_world (cmd_force_sweep cr pf mk c i))"
| "dispatch cr pf sr mk su (CmdRun c listen) = on_world (cmd_run cr pf mk su c listen)"
| "dispatch cr pf sr mk su (CmdBuyback c amount after) = cmd_buyback"
| "dispatch cr pf sr mk su (CmdBalances c) = io_map BalancesOf (on_world (cmd_balances cr pf mk c))"

definition main ::
    "'k crypto \<Rightarrow> ('c, 'k) platform \<Rightarrow> serializers \<Rightarrow> (('c, 'k) parts \<Rightarrow> ('c, 'd, 'k) engine) \<Rightarrow> 'c provision \<Rightarrow> cmd \<Rightarrow>
     (('c, 'd) machine, cli_error, printed) io" where
  "main cr pf sr mk su cmd = (\<lambda>m. dispatch cr (pf\<lparr>pf_host := mc_host m\<rparr>) sr mk su cmd m)"

section \<open>Commands on the engine\<close>

text \<open>What \<open>retry\<close> and \<open>force-sweep\<close> do to a record: a transition that the state machine allows.\<close>

definition resumed :: "payment_record \<Rightarrow> payment_record \<Rightarrow> bool" where
  "resumed r r' \<longleftrightarrow> (\<exists>s q now. transition s r = Inr q \<and> r' = next_version now q)"

lemma wp_io_lib [simp]: "wp (io_lib m) Q w = wp m (\<lambda>x. Q (map_err Lib x)) w"
  by (simp add: wp_def io_lib_def case_prod_beta)

lemma wp_env_do [simp]: "wp (env_do m) Q w = wp m (\<lambda>x c. Q x (w\<lparr>w_env := c\<rparr>)) (w_env w)"
  by (simp add: wp_def env_do_def case_prod_beta)

lemma wp_map [simp]: "wp (io_map f m) Q w = wp m (\<lambda>x. Q (map_sum id f x)) w"
  by (auto simp: io_map_def wp_def io_bind_def io_ret_def split: prod.split sum.split)

lemma wp_any: "(\<And>x c. Q x c) \<Longrightarrow> wp m Q w"
  by (simp add: wp_def)

text \<open>From the first world to the second: nothing was sent or published, the reservations are the same,
  records in \<open>asked\<close> may have been resumed and the others are as they were, and new records are
  waiting payments, in \<open>fresh\<close> commands only.\<close>

definition confined :: "string set \<Rightarrow> bool \<Rightarrow> ('c, sqlite_db) world \<Rightarrow> ('c, sqlite_db) world \<Rightarrow> bool" where
  "confined asked fresh w w' \<longleftrightarrow>
     w_sent w' = w_sent w \<and> w_events w' = w_events w \<and> db_held (w_db w') = db_held (w_db w) \<and>
     (\<forall>i r. db_content (w_db w) i = Some r \<longrightarrow>
        db_content (w_db w') i = Some r \<or> i \<in> asked \<and> (\<exists>r'. db_content (w_db w') i = Some r' \<and> resumed r r')) \<and>
     (\<forall>i r. db_content (w_db w') i = Some r \<longrightarrow> db_content (w_db w) i = None \<longrightarrow>
        fresh \<and> r_state r = Pending \<and> r_pending r = None \<and> r_txs r = [])"

lemma confined_same: "w_sent w' = w_sent w \<Longrightarrow> w_events w' = w_events w \<Longrightarrow> w_db w' = w_db w \<Longrightarrow> confined asked fresh w w'"
  by (simp add: confined_def)

lemma confined_env [simp]:
  "confined asked fresh (w\<lparr>w_env := c\<rparr>) w' = confined asked fresh w w'"
  "confined asked fresh w (w\<lparr>w_env := c\<rparr>)"
  by (simp_all add: confined_def)

lemma create_confined:
  fixes en :: "('c, sqlite_db, 'k) engine"
  assumes "cl_store (en_client en) = sqlite_ops cr" and "quiet (en_client en)"
  shows "wp (create_payment en opts) (\<lambda>_ w'. confined {} True w w') w"
proof (rule wp_mono [OF create_payment_adds [OF assms]])
  fix x and w' :: "('c, sqlite_db) world"
  assume a: "w_sent w' = w_sent w \<and> w_events w' = w_events w \<and> (case x of Inl _ \<Rightarrow> w_db w' = w_db w
    | Inr req \<Rightarrow> \<exists>a s t. sqlite_insert (payment_record_of en opts (pr_id req) a s t) (w_db w) = (Inr (), w_db w') \<and>
        pr_address req = a)"
  show "confined {} True w w'"
  proof (cases x)
    case (Inl e)
    then show ?thesis using a by (simp add: confined_def)
  next
    case (Inr req)
    then obtain a s t where i: "sqlite_insert (payment_record_of en opts (pr_id req) a s t) (w_db w) = (Inr (), w_db w')"
      using a by auto
    let ?r = "payment_record_of en opts (pr_id req) a s t"
    have "r_state ?r = Pending" "r_pending ?r = None" "r_txs ?r = []"
      by (simp_all add: payment_record_of_def new_record_def)
    then show ?thesis
      using a insert_content_sqlite [OF i] insert_keeps_held [OF i] by (auto simp: confined_def)
  qed
qed

lemma update_confined:
  assumes "db_content (w_db w) i = Some r" and "sqlite_inv (w_db w)" and "transition s r = Inr q"
    and "sqlite_update q now (w_db w) = (x, w_db w')" and "w_sent w' = w_sent w" and "w_events w' = w_events w"
  shows "confined {i} False w w'"
proof (cases x)
  case (Inl e)
  then have "w_db w' = w_db w" using assms(4) sqlite_update_Inl by blast
  then show ?thesis using assms by (simp add: confined_def)
next
  case (Inr q')
  then have u: "sqlite_update q now (w_db w) = (Inr q', w_db w')" using assms(4) by simp
  have i: "r_id r = i" using assms(1,2) sq.content_id by blast
  then have q: "r_id q = i" "r_pending q = r_pending r" using assms(3) by (auto simp: result_simps)
  have "db_held (w_db w') = db_held (w_db w)"
    using update_held_sqlite [OF u] assms(1) q by (auto split: if_splits)
  moreover have "resumed r q'" using assms(3) update_content_sqlite [OF u] by (auto simp: resumed_def)
  ultimately show ?thesis
    using update_content_sqlite [OF u] assms q by (auto simp: confined_def)
qed

lemma resume_confined:
  assumes "cl_store (en_client en) = sqlite_ops cr" and "quiet (en_client en)" and "sqlite_inv (w_db w)"
  shows "wp (retry en i) (\<lambda>_ w'. confined {i} False w w') w" and "wp (force_sweep en i) (\<lambda>_ w'. confined {i} False w w') w"
proof -
  have g: "wp (get_or_not_found en i) Q w = Q (case db_content (w_db w) i of None \<Rightarrow> Inl (NotFound i) | Some r \<Rightarrow> Inr r) w'"
    if "w' = w\<lparr>w_db := w_db w\<rparr>" for Q w'
    using assms that by (auto simp: get_or_not_found_def st_get_def wp_db sqlite_get_def db_content_def ok_or_def split: option.splits)
  have u: "wp (st_update (en_client en) q) (\<lambda>_ w'. confined {i} False w w') w"
    if "db_content (w_db w) i = Some r" "transition s r = Inr q" for r s q
  proof -
    have "confined {i} False w (w\<lparr>w_env := c, w_db := snd (sqlite_update q t (w_db w))\<rparr>)" for t c
      by (rule update_confined [OF that(1) assms(3) that(2), of t "fst (sqlite_update q t (w_db w))"]) simp_all
    then show ?thesis using assms(1,2) by (simp add: st_update_def wp_now wp_db split: prod.split)
  qed
  then show "wp (retry en i) (\<lambda>_ w'. confined {i} False w w') w" "wp (force_sweep en i) (\<lambda>_ w'. confined {i} False w w') w"
    by (auto simp: retry_def force_sweep_def g confined_same split: option.splits sum.splits intro!: wp_mono [OF u])
qed

section \<open>Every command\<close>

lemma wp_on_world [simp]: "wp (on_world f) Q m = wp f (\<lambda>x w. Q x (m\<lparr>mc_world := w\<rparr>)) (mc_world m)"
  by (simp add: wp_def on_world_def case_prod_beta)

lemma wp_on_legacy [simp]:
  "wp (on_legacy f) Q m = wp f (\<lambda>x (c, d). Q x (m\<lparr>mc_world := (mc_world m)\<lparr>w_env := c\<rparr>, mc_legacy := d\<rparr>)) (w_env (mc_world m), mc_legacy m)"
  by (simp add: wp_def on_legacy_def case_prod_beta)

lemma wp_on_host [simp]:
  "wp (on_host f) Q m = (case f (mc_host m) of Inl e \<Rightarrow> Q (Inl e) m | Inr (x, h) \<Rightarrow> Q (Inr x) (m\<lparr>mc_host := h\<rparr>))"
  by (simp add: wp_def on_host_def split: sum.split prod.split)

lemma wp_fst_do [simp]: "wp (fst_do f) Q cd = wp f (\<lambda>x c. Q x (c, snd cd)) (fst cd)"
  by (cases cd) (simp add: wp_def fst_do_def case_prod_beta)

lemma with_engine_confined:
  assumes "\<And>p c. wp (f (mk p)) (\<lambda>_ w'. confined asked fresh w w') (w\<lparr>w_env := c\<rparr>)"
  shows "wp (with_engine cr pf mk c f) (\<lambda>_ w'. confined asked fresh w w') w"
  unfolding with_engine_def
  by (simp, rule wp_any) (auto simp: assms split: sum.split)

text \<open>Commands that only read.\<close>

lemma reading_confined:
  assumes "\<And>p. cl_store (en_client (mk p)) = sqlite_ops cr'" and "\<And>p. quiet (en_client (mk p))"
  shows "wp (cmd_status cr pf mk c i) (\<lambda>_ w'. confined asked fresh w w') w"
    and "wp (cmd_run cr pf mk su c listen) (\<lambda>_ w'. confined asked fresh w w') w"
    and "wp (cmd_balances cr pf mk c) (\<lambda>_ w'. confined asked fresh w w') w"
proof -
  have "wp (engine_status (mk p) i) (\<lambda>_ w'. confined asked fresh w w') (w\<lparr>w_env := c\<rparr>)" for p c
    using assms by (auto simp: engine_status_def get_or_not_found_def st_get_def wp_db confined_same split: sum.split)
  then show "wp (cmd_status cr pf mk c i) (\<lambda>_ w'. confined asked fresh w w') w"
    unfolding cmd_status_def by (rule with_engine_confined)
  show "wp (cmd_run cr pf mk su c listen) (\<lambda>_ w'. confined asked fresh w w') w"
    unfolding cmd_run_def cmd_run_checks_def
    by (simp, intro wp_any) (auto simp: ensure_treasury_hotkey_def wp_rpc listen_on_def confined_same
        split: sum.split option.split intro!: wp_any)
  show "wp (cmd_balances cr pf mk c) (\<lambda>_ w'. confined asked fresh w w') w"
    unfolding cmd_balances_def Let_def
    by (simp, intro wp_any) (auto simp: engine_spendable_def wp_rpc confined_same split: sum.split intro!: wp_any)
qed

lemma wp_pair [simp]: "wp (\<lambda>(c, d). (f c d, c, d)) Q (c, d) = Q (f c d) (c, d)"
  by (simp add: wp_def)

lemma dry_run_confined:
  "wp (cmd_recover_legacy cr pf sr now file db archive False) (\<lambda>_ (c, d'). d' = d) (c0, d)"
  unfolding cmd_recover_legacy_def
  by (auto split: sum.split intro!: wp_any)

text \<open>What a command is asked to change.\<close>

fun asked :: "cmd \<Rightarrow> string set" where
  "asked (CmdRetry _ i) = {i}"
| "asked (CmdForceSweep _ i) = {i}"
| "asked _ = {}"

fun creates :: "cmd \<Rightarrow> bool" where
  "creates (CmdCreate _ _ _) = True"
| "creates _ = False"

fun applies :: "cmd \<Rightarrow> bool" where
  "applies (CmdRecoverLegacy _ _ _ apply_it) = apply_it"
| "applies _ = False"

fun engine_options :: "cmd \<Rightarrow> common option" where
  "engine_options (CmdCreate c _ _) = Some c"
| "engine_options (CmdStatus c _) = Some c"
| "engine_options (CmdRetry c _) = Some c"
| "engine_options (CmdForceSweep c _) = Some c"
| "engine_options (CmdRun c _) = Some c"
| "engine_options (CmdBuyback c _ _) = Some c"
| "engine_options (CmdBalances c) = Some c"
| "engine_options _ = None"

lemma engine_of_client:
  assumes "\<forall>c. rp_others base c = ([], c)"
  shows "cl_store (en_client (engine_of cr sc wb base ops p)) = ops" and "quiet (en_client (engine_of cr sc wb base ops p))"
  using assms
  by (simp_all add: engine_of_def engine_new_def with_webhook_secret_def quiet_def Let_def split: option.split)

lemma wp_main: "wp (main cr pf sr mk su cmd) Q m = wp (dispatch cr (pf\<lparr>pf_host := mc_host m\<rparr>) sr mk su cmd) Q m"
  by (simp add: wp_def main_def)

lemma seal_treasury_files:
  "seal_treasury cr js h nonce k u out = Inr (x, h') \<Longrightarrow> ho_files h \<subseteq>\<^sub>m ho_files h'"
  by (auto simp: seal_treasury_def map_le_def result_simps split: if_splits)

lemma cmd_confined:
  assumes "\<forall>c. rp_others base c = ([], c)" and "sqlite_inv (w_db w)"
  shows "wp (cmd_create cr pf (engine_of cr sc wb base (sqlite_ops cr)) c metadata url) (\<lambda>_ w'. confined {} True w w') w"
    and "wp (cmd_retry cr pf (engine_of cr sc wb base (sqlite_ops cr)) c i) (\<lambda>_ w'. confined {i} False w w') w"
    and "wp (cmd_force_sweep cr pf (engine_of cr sc wb base (sqlite_ops cr)) c i) (\<lambda>_ w'. confined {i} False w w') w"
proof -
  note mk = engine_of_client [OF assms(1), of cr sc wb "sqlite_ops cr"]
  have "wp m (\<lambda>_ w'. confined a b w w') (w\<lparr>w_env := c\<rparr>)"
    if "\<And>w. sqlite_inv (w_db w) \<Longrightarrow> wp m (\<lambda>_ w'. confined a b w w') w" for m a b c
    using that [of "w\<lparr>w_env := c\<rparr>"] assms(2) by simp
  then show "wp (cmd_create cr pf (engine_of cr sc wb base (sqlite_ops cr)) c metadata url) (\<lambda>_ w'. confined {} True w w') w"
    "wp (cmd_retry cr pf (engine_of cr sc wb base (sqlite_ops cr)) c i) (\<lambda>_ w'. confined {i} False w w') w"
    "wp (cmd_force_sweep cr pf (engine_of cr sc wb base (sqlite_ops cr)) c i) (\<lambda>_ w'. confined {i} False w w') w"
    unfolding cmd_create_def cmd_retry_def cmd_force_sweep_def
    using create_confined [OF mk] resume_confined [OF mk] by (blast intro!: with_engine_confined)+
qed

lemma main_confined:
  assumes "\<forall>c. rp_others base c = ([], c)" and "sqlite_inv (w_db (mc_world m))"
  shows "wp (main cr pf sr (engine_of cr sc wb base (sqlite_ops cr)) su cmd)
     (\<lambda>_ m'. confined (asked cmd) (creates cmd) (mc_world m) (mc_world m') \<and>
        (applies cmd \<or> mc_legacy m' = mc_legacy m) \<and> ho_files (mc_host m) \<subseteq>\<^sub>m ho_files (mc_host m')) m"
proof -
  note mk = engine_of_client [OF assms(1), of cr sc wb "sqlite_ops cr"]
  show ?thesis
  proof (cases cmd)
    case (CmdSealTreasury k u out)
    then show ?thesis
      by (auto simp: wp_main confined_same dest!: seal_treasury_files split: sum.split)
  next
    case (CmdRecoverLegacy f d a b)
    then show ?thesis
      by (cases b) (auto simp: wp_main intro!: wp_any wp_mono [OF dry_run_confined])
  qed (auto simp: wp_main cmd_buyback_def confined_same intro!: wp_any wp_mono [OF reading_confined(1) [OF mk]] wp_mono [OF reading_confined(2) [OF mk]]
      wp_mono [OF reading_confined(3) [OF mk]] wp_mono [OF cmd_confined(1) [OF assms]] wp_mono [OF cmd_confined(2) [OF assms]]
      wp_mono [OF cmd_confined(3) [OF assms]])
qed

lemma engine_refused:
  assumes "network_from_str (cm_network c) = Inr Finney" and "\<not> cm_allow_mainnet c"
  shows "\<exists>msg. cli_engine cr pf c = io_fail (Message msg)"
  using assms by (auto simp: cli_engine_def io_simps fun_eq_iff lib_def map_err_def)

lemma main_refused:
  assumes "engine_options cmd = Some c" and "network_from_str (cm_network c) = Inr Finney" and "\<not> cm_allow_mainnet c"
  shows "\<exists>e. main cr pf sr mk su cmd m = (Inl e, m)"
proof -
  obtain msg where "cli_engine cr (pf\<lparr>pf_host := mc_host m\<rparr>) c = io_fail (Message msg)"
    using engine_refused [OF assms(2,3)] by blast
  then show ?thesis
    using assms(1) by (cases cmd) (auto simp: main_def cmd_create_def cmd_status_def cmd_retry_def cmd_force_sweep_def
      with_engine_def cmd_run_def cmd_run_checks_def cmd_buyback_def cmd_balances_def on_world_def env_do_def io_map_def io_simps)
qed

section \<open>Property\<close>


definition demo_machine :: "(nat, sqlite_db) machine" where
  "demo_machine = \<lparr>mc_world = demo_world empty_db, mc_legacy = empty_db, mc_host = demo_host\<rparr>"


end
