(* ===== verification/Examples.thy ===== *)
theory Examples
  imports Command_Main
begin

text \<open>
  The programs of \<open>src/examples\<close>: \<open>verify_metadata.rs\<close>, \<open>payment_flow.rs\<close> up to the loop it starts, and
  \<open>buyback.rs\<close>.  A missing argument, where the program panics, is a \<open>Message\<close>.
\<close>

section \<open>Definitions\<close>

definition u16_from_str :: "string \<Rightarrow> u16 option" where
  "u16_from_str s = Option.bind (u64_from_str s) (\<lambda>v. if unat v < 2 ^ 16 then Some (ucast v) else None)"

definition nth_arg :: "string list \<Rightarrow> nat \<Rightarrow> string option" where
  "nth_arg args n = (if n < length args then Some (args ! n) else None)"

text \<open>\<open>verify_metadata.rs\<close>: the endpoints from the environment, and what is printed.\<close>

definition example_endpoints :: "host \<Rightarrow> network \<Rightarrow> endpoint list" where
  "example_endpoints h net =
     (case ho_env h ''BITTENSOR_RPC_URL'' of
        Some url \<Rightarrow>
          [case ho_env h ''BITTENSOR_RPC_API_KEY'' of
             Some k \<Rightarrow> with_bearer k (endpoint_new url)
           | None \<Rightarrow> endpoint_new url]
      | None \<Rightarrow> [endpoint_new (network_url net)]) @
     map (\<lambda>f. endpoint_new (trim f))
       (filter (\<lambda>f. trim f \<noteq> [])
          (split_char CHR '','' (case ho_env h ''BITTENSOR_RPC_FALLBACKS'' of None \<Rightarrow> [] | Some s \<Rightarrow> s)))"

definition example_verify_metadata ::
    "('c, 'k) transport \<Rightarrow> host \<Rightarrow> (('c, 'k) node \<Rightarrow> ('c, string) request) \<Rightarrow> string list \<Rightarrow> ('c, error, string list) io" where
  "example_verify_metadata tp h best_header args =
     io_bind (io_lift (network_from_str (case nth_arg args 0 of None \<Rightarrow> ''test'' | Some s \<Rightarrow> s))) (\<lambda>net.
     let netuid = (case Option.bind (nth_arg args 1) u16_from_str of None \<Rightarrow> 100 | Some n \<Rightarrow> n) in
     io_bind (connect_any tp (example_endpoints h net) 3) (\<lambda>chain.
     io_bind (verify_metadata chain) (\<lambda>lines.
     io_bind (finalized_head chain) (\<lambda>(n, hash).
     io_bind (best_number (best_header chain)) (\<lambda>best.
     io_bind (chain_alpha_price chain netuid) (\<lambda>spot.
     io_bind (moving_alpha_price chain netuid) (\<lambda>moving.
     io_ret (lines @
       [''finalized #'' @ show_nat (unat n) @ '' '' @ hash @ '', best #'' @ show_nat (unat best),
        ''netuid '' @ show_nat (unat netuid) @ '': spot '' @ format_amount spot @ '' TAO/alpha, moving '' @
          format_amount moving @ '' TAO/alpha'']))))))))"

text \<open>\<open>buyback.rs\<close>: \<open>key\<close> is the fresh master key; the store is a directory of files.\<close>

definition example_buyback ::
    "'k crypto \<Rightarrow> ('c, 'k) platform \<Rightarrow> (('c, 'k) parts \<Rightarrow> ('c, 'd, 'k) engine) \<Rightarrow> string \<Rightarrow> u8 list \<Rightarrow> string list \<Rightarrow>
     (('c, 'd) world, cli_error, buyback_receipt) io" where
  "example_buyback cr pf mk tmp key args =
     (let h = pf_host pf; url = (case nth_arg args 0 of None \<Rightarrow> network_url Local | Some u \<Rightarrow> u) in
      io_bind (io_lift (ok_or (Message ''treasury hotkey ss58'') (nth_arg args 1))) (\<lambda>a.
      io_bind (io_lift (lib (parse_ss58 cr a))) (\<lambda>hotkey.
      io_bind (env_do (io_lib (connect (pf_transport pf) url))) (\<lambda>chain.
      io_bind (io_lift (lib (load cr (pf_sealed pf) h (EnvUri ''BUYBACK_TREASURY_URI'') None))) (\<lambda>treasury.
      io_bind (io_lift (case ho_env h ''BUYBACK_NETUID_TARGET'' of
          None \<Rightarrow> Inr (config_new url 0 hotkey)
        | Some n \<Rightarrow> and_then (ok_or (Lib (ErrConfig ''bad netuid'')) (u16_from_str n)) (\<lambda>n.
            Inr ((config_new url 0 hotkey)\<lparr>c_buyback_netuid := n\<rparr>)))) (\<lambda>cfg.
      let spec = FileSpec (tmp @ ''/buyback-example'') in
      io_bind (env_do (io_lib (ask_with ErrStore (pf_open_store pf spec)))) (\<lambda>_.
      let en = mk \<lparr>bp_node = chain, bp_store = spec, bp_master = key, bp_treasury = treasury, bp_cfg = cfg,
                   bp_webhook_secret = None\<rparr> in
      io_bind (io_lib (ensure_treasury_hotkey en)) (\<lambda>_. io_lib (buyback_and_burn en RAO_PER_TAO)))))))))"

text \<open>\<open>payment_flow.rs\<close>: the engine, and the line that tells where to pay.\<close>

definition flow_budget :: "'k crypto \<Rightarrow> host \<Rightarrow> account_id \<Rightarrow> buyback_budget cli" where
  "flow_budget cr h hotkey =
     and_then (ok_or (Lib (ErrConfig ''BUYBACK_AUTO_AMOUNT required'')) (ho_env h ''BUYBACK_AUTO_AMOUNT'')) (\<lambda>a.
     and_then (lib (parse_amount a)) (\<lambda>amount.
     and_then (ok_or (Lib (ErrConfig ''BUYBACK_AUTO_SOURCE required'')) (ho_env h ''BUYBACK_AUTO_SOURCE'')) (\<lambda>source.
     Inr \<lparr>bb_amount_rao = amount, bb_currency = ''TAO'', bb_source = source, bb_netuid = 100, bb_destroy = Burn,
          bb_hotkey = ss58 cr hotkey\<rparr>)))"

definition flow_engine ::
    "'k crypto \<Rightarrow> ('c, 'k) platform \<Rightarrow> string list \<Rightarrow> ('c, cli_error, ('c, 'k) parts) io" where
  "flow_engine cr pf args =
     (let h = pf_host pf; url = (case nth_arg args 0 of None \<Rightarrow> network_url Local | Some u \<Rightarrow> u);
          netuid = (case Option.bind (nth_arg args 1) u16_from_str of None \<Rightarrow> 1 | Some n \<Rightarrow> n) in
      io_bind (io_lift (ok_or (Message ''treasury hotkey ss58'') (nth_arg args 2))) (\<lambda>a.
      io_bind (io_lift (lib (parse_ss58 cr a))) (\<lambda>hotkey.
      io_bind (io_lib (connect (pf_transport pf) url)) (\<lambda>chain.
      io_bind (io_lib (verify_metadata chain)) (\<lambda>_.
      io_bind (io_lib (open_store pf ''sqlite:payments.sqlite'')) (\<lambda>store.
      io_bind (io_lift (lib (load cr (pf_sealed pf) h (EnvUri ''BUYBACK_TREASURY_URI'') None))) (\<lambda>treasury.
      io_bind (io_lift (flow_budget cr h hotkey)) (\<lambda>budget.
      io_bind (io_lift (lib (master_from_env cr h ''BUYBACK_MASTER_KEY''))) (\<lambda>master.
      io_ret \<lparr>bp_node = chain, bp_store = store, bp_master = master, bp_treasury = treasury,
              bp_cfg = (config_new url netuid hotkey)\<lparr>c_buyback_budget := Some budget\<rparr>, bp_webhook_secret = None\<rparr>)))))))))"

definition example_payment_flow ::
    "'k crypto \<Rightarrow> ('c, 'k) platform \<Rightarrow> (('c, 'k) parts \<Rightarrow> ('c, 'd, 'k) engine) \<Rightarrow> string list \<Rightarrow>
     (('c, 'd) world, cli_error, payment_request \<times> string) io" where
  "example_payment_flow cr pf mk args =
     io_bind (env_do (flow_engine cr pf args)) (\<lambda>p.
     io_bind (io_lib (ensure_treasury_hotkey (mk p))) (\<lambda>_.
     io_bind (io_lib (create_payment (mk p) default_opts)) (\<lambda>req.
     io_ret (req, ''send >= '' @ format_amount (pr_min_alpha req) @ '' alpha on netuid '' @ show_nat (unat (pr_netuid req)) @
       '' to '' @ pr_address req @ '' (transfer_stake)''))))"

section \<open>Facts\<close>

text \<open>The bearer key goes to the endpoint it was configured for, never to a fallback or to a named network.\<close>

lemma example_endpoints_keyless:
  "\<forall>ep \<in> set (tl (example_endpoints h net)). ep_bearer ep = None"
  "ho_env h ''BITTENSOR_RPC_URL'' = None \<Longrightarrow> \<forall>ep \<in> set (example_endpoints h net). ep_bearer ep = None"
  "ho_env h ''BITTENSOR_RPC_URL'' = Some url \<Longrightarrow> ep_url (hd (example_endpoints h net)) = url"
  by (auto simp: example_endpoints_def endpoint_new_def with_bearer_def split: option.splits)

text \<open>A payment that \<open>payment_flow\<close> announces is stored with the validated budget of the environment, and so
  settles with a buyback only.\<close>

lemma payment_flow_budgeted:
  fixes w w' :: "('c, sqlite_db) world"
  assumes "example_payment_flow cr pf (engine_of cr sc wb base (sqlite_ops cr)) args w = (Inr (req, line), w')"
    and "\<forall>c. rp_others base c = ([], c)"
  shows "\<exists>r b hotkey. db_content (w_db w') (pr_id req) = Some r \<and> r_state r = Pending \<and> r_address r = pr_address req \<and>
     flow_budget cr (pf_host pf) hotkey = Inr b \<and> r_buyback_budget r = Some b \<and> r_auto_required r = Some True"
proof -
  obtain p w1 w2 where p: "env_do (flow_engine cr pf args) w = (Inr p, w1)"
    and c: "create_payment (engine_of cr sc wb base (sqlite_ops cr) p) default_opts w2 = (Inr req, w')"
    using assms(1) by (auto simp: example_payment_flow_def io_ret_iff result_simps)
  have "\<exists>hotkey b. flow_budget cr (pf_host pf) hotkey = Inr b \<and> c_buyback_budget (bp_cfg p) = Some b"
    using p by (auto simp: env_do_def flow_engine_def result_simps io_lift_Inr_iff io_ret_iff Let_def split: prod.splits)
  moreover obtain a s t where
    i: "sqlite_insert (payment_record_of (engine_of cr sc wb base (sqlite_ops cr) p) default_opts (pr_id req) a s t) (w_db w2) = (Inr (), w_db w')"
    and a: "pr_address req = a"
    using create_payment_adds [OF engine_of_client [OF assms(2), of cr sc wb "sqlite_ops cr" p], of default_opts w2] c
    by (auto simp: wp_def)
  ultimately show ?thesis
    using insert_content_sqlite [OF i] by (auto simp: payment_record_of_def new_record_def)
qed

section \<open>Property\<close>


end
