(* ===== verification/Job_Tasks.thy ===== *)
theory Job_Tasks
  imports Weakest_Pre Chain_Engine
begin

text \<open>
  What a job still needs before it is settled.  \<open>job_db\<close> is a database in which all other records are idle.
  \<open>tasks\<close> counts the transitions and transactions that are left, \<open>servable\<close> says that no step needs
  an operator, and \<open>forward_expected\<close> that a confirmed transaction takes the job forward.
\<close>

section \<open>The database of a job\<close>

text \<open>The other records need no work.\<close>

definition idle :: "payment_record \<Rightarrow> bool" where
  "idle q \<longleftrightarrow> r_pending q = None \<and>
     (r_state q = Expired \<or> r_state q = Failed \<or> r_state q = Settled \<and> r_notified q)"

definition job_db :: "(string \<times> string \<times> string) set \<Rightarrow> payment_record \<Rightarrow> sqlite_db \<Rightarrow> bool" where
  "job_db held r d \<longleftrightarrow> sqlite_inv d \<and> db_content d (r_id r) = Some r \<and> db_held d = held \<and>
     (\<forall>j q. db_content d j = Some q \<longrightarrow> j \<noteq> r_id r \<longrightarrow> idle q)"

definition claims :: "payment_record \<Rightarrow> (string \<times> string \<times> string) set" where
  "claims r = (case journal_claim r of None \<Rightarrow> {} | Some (s, t) \<Rightarrow> {(s, r_id r, t)})"

lemma claims_simps [simp]:
  "r_pending r = None \<Longrightarrow> claims r = {}"
  "r_pending r = Some p \<Longrightarrow> pd_reservation p = Some t \<Longrightarrow> claims r = {(pd_signer p, r_id r, t)}"
  "claims (next_version now r) = claims r"
  by (simp_all add: claims_def journal_claim_def split: option.splits)

lemma reserve_job_db:
  assumes "job_db {} r d" and "r_pending r = None" and "unat (r_version r) < 2 ^ 63"
  shows "\<exists>d'. sqlite_reserve_signer_for_record s r tok d = (Inr tok, d') \<and> job_db {(s, r_id r, tok)} r d'"
proof -
  have d: "sqlite_inv d" "db_content d (r_id r) = Some r" "db_reservations d = []"
    "\<And>j q. db_content d j = Some q \<Longrightarrow> j \<noteq> r_id r \<Longrightarrow> idle q"
    using assms(1) by (auto simp: job_db_def db_held_def)
  obtain row where row: "find_row (r_id r) d = Some row" "row_record row = r"
    using d(2) by (auto simp: db_content_def)
  then have "row_version row = sint (r_version r)"
    using d(1) find_row_SomeD [OF row(1)] by (auto simp: sqlite_inv_def list_all_iff row_ok_def)
  moreover obtain v where v: "i64_try_from (r_version r) = Some v"
    using assms(3) by (simp add: i64_try_from_def)
  ultimately have "map_option row_version (find_row (r_id r) d) = i64_try_from (r_version r)"
    using row(1) i64_try_from_SomeD [OF v] by simp
  moreover have "\<not> signer_pending s d"
    using d(2,4) assms(2) unfolding signer_pending_iff [OF d(1)]
    by (force simp: journal_signer_def idle_def)
  ultimately obtain d' where d': "sqlite_reserve_signer_for_record s r tok d = (Inr tok, d')"
    using d(3) by (simp add: sqlite_reserve_signer_for_record_def reserve_def)
  then have so: "so_reserve_signer_for_record (sqlite_ops cr) s r tok d = (Inr tok, d')" for cr by simp
  show ?thesis
    using d' sq.reserve_ok [OF d(1) so] sq.reserve_content [OF d(1) so] assms(1) by (auto simp: job_db_def)
qed

lemma update_job_db:
  assumes "job_db held r d" and "r_id q = r_id r" and "r_version q = r_version r" and "same_policy r q"
    and "unat (r_version r) + 1 < 2 ^ 64"
    and "r_pending q = None \<and> r_pending r = None \<and> held' = held \<or>
      (\<exists>p t. r_pending q = Some p \<and> r_pending r = None \<and> pd_reservation p = Some t \<and>
         (pd_signer p, r_id r, t) \<in> held \<and> held' = held) \<or>
      (\<exists>p t. r_pending q = None \<and> r_pending r = Some p \<and> pd_reservation p = Some t \<and>
         held' = held - {(pd_signer p, r_id r, t)})"
  shows "\<exists>d'. sqlite_update q now d = (Inr (next_version now q), d') \<and> job_db held' (next_version now q) d'"
proof -
  have d: "sqlite_inv d" "db_content d (r_id r) = Some r" "db_held d = held"
    using assms(1) by (simp_all add: job_db_def)
  have "\<exists>q' d'. sqlite_update q now d = (Inr q', d')"
    using sqlite_update_iff [of d q r now] d assms(2-6) by auto
  then obtain q' d' where u: "sqlite_update q now d = (Inr q', d')" by blast
  then have u': "so_update (sqlite_ops cr) q now d = (Inr q', d')" for cr by simp
  have c: "db_content d (r_id q) = Some r" using d(2) assms(2) by simp
  have h: "if r_pending r \<noteq> None \<and> r_pending q = None
      then \<exists>s t. journal_claim r = Some (s, t) \<and> db_held d' = held - {(s, r_id r, t)} else db_held d' = held"
    using sq.update_held [OF d(1) u' c] unfolding d(3) assms(2) by blast
  have "db_held d' = held'"
    using assms(6) h by (elim disjE conjE exE) (simp_all add: journal_claim_def)
  then show ?thesis
    using u sq.update_ok [OF d(1) u'] sq.update_inv [OF d(1) u'] assms(1,2) by (auto simp: job_db_def)
qed

lemma job_db_list:
  assumes "job_db held r d" and "r_state r \<in> set states" and "Expired \<notin> set states"
  shows "\<exists>xs ys. sqlite_list states d = Inr (xs @ r # ys) \<and>
     (\<forall>q \<in> set (xs @ ys). r_pending q = None \<and> (r_state q = Failed \<or> r_state q = Settled \<and> r_notified q))"
proof -
  have d: "sqlite_inv d" "db_content d (r_id r) = Some r"
    "\<And>j q. db_content d j = Some q \<Longrightarrow> j \<noteq> r_id r \<Longrightarrow> idle q" using assms(1) by (auto simp: job_db_def)
  define recs where "recs = map row_record (filter (\<lambda>row. row_state row \<in> set (map as_str states)) (sort_key row_created_at (db_payments d)))"
  have l: "sqlite_list states d = Inr recs" by (simp add: sqlite_list_def recs_def)
  obtain row where row: "row \<in> set (db_payments d)" "row_record row = r"
    using d(2) find_row_SomeD by (fastforce simp: db_content_def)
  then have "row_state row = as_str (r_state r)" using d(1) by (auto simp: sqlite_inv_def list_all_iff row_ok_def)
  then have "r \<in> set recs" using row assms(2) by (force simp: recs_def)
  then obtain xs ys where xs: "recs = xs @ r # ys" by (meson split_list)
  have "map r_id recs = map row_id (filter (\<lambda>row. row_state row \<in> set (map as_str states)) (sort_key row_created_at (db_payments d)))"
    using d(1) by (auto simp: recs_def sqlite_inv_def list_all_iff row_ok_def)
  moreover have "distinct (map row_id (sort_key row_created_at (db_payments d)))"
    using d(1) by (simp add: sqlite_inv_def distinct_map)
  ultimately have dist: "distinct (map r_id recs)" by (simp add: distinct_map_filter)
  have "r_pending q = None \<and> (r_state q = Failed \<or> r_state q = Settled \<and> r_notified q)" if "q \<in> set (xs @ ys)" for q
  proof -
    have "db_content d (r_id q) = Some q \<and> r_state q \<in> set states"
      using sq.list_content [OF d(1), of undefined states recs q] l that xs by auto
    moreover have "r_id q \<noteq> r_id r" using dist that xs by (auto simp: rev_image_eqI)
    ultimately show ?thesis using d(3) [of "r_id q" q] assms(3) by (auto simp: idle_def)
  qed
  then show ?thesis using l xs by blast
qed

section \<open>What a job still needs\<close>

definition required :: "payment_record \<Rightarrow> bool" where
  "required r \<longleftrightarrow> r_auto_required r = Some True"

definition hotkeys_left :: "'k crypto \<Rightarrow> account_id set \<Rightarrow> payment_record \<Rightarrow> nat" where
  "hotkeys_left cr hotkeys r = card {h \<in> hotkeys. ss58 cr h \<notin> set (map fst (r_swept_positions r))}"

definition moves_left :: "config \<Rightarrow> payment_record \<Rightarrow> nat" where
  "moves_left cfg r = (if c_consolidate cfg then length (r_swept_positions r) - r_consolidated r else 0)"

definition dust_left :: "config \<Rightarrow> payment_record \<Rightarrow> bool" where
  "dust_left cfg r \<longleftrightarrow> \<not> r_dust_returned r \<and> (c_return_dust cfg \<or> 0 < r_detected_tao r)"

definition purchases_left :: "payment_record \<Rightarrow> nat" where
  "purchases_left r = (if required r \<and> \<not> r_buyback_done r then if r_buyback r = None then 2 else 1 else 0)"

definition closing_tasks :: "config \<Rightarrow> payment_record \<Rightarrow> nat" where
  "closing_tasks cfg r = 1 + purchases_left r + of_bool (dust_left cfg r) + moves_left cfg r"

definition sweeping_tasks :: "'k crypto \<Rightarrow> config \<Rightarrow> account_id set \<Rightarrow> payment_record \<Rightarrow> nat" where
  "sweeping_tasks cr cfg hotkeys r = (if c_consolidate cfg then 2 else 1) * hotkeys_left cr hotkeys r"

definition tasks :: "('c, 'd, 'k) engine \<Rightarrow> account_id set \<Rightarrow> payment_record \<Rightarrow> nat" where
  "tasks en hotkeys r =
     (let closing = closing_tasks (en_cfg en) r;
          sweeping = sweeping_tasks (en_crypto en) (en_cfg en) hotkeys r
      in case r_state r of
           Detected \<Rightarrow> 2 + sweeping + closing
         | Funded \<Rightarrow> 1 + sweeping + closing
         | Swept \<Rightarrow> closing
         | _ \<Rightarrow> 0)"

definition work :: "('c, 'd, 'k) engine \<Rightarrow> account_id set \<Rightarrow> payment_record \<Rightarrow> nat" where
  "work en hotkeys r = 2 * tasks en hotkeys r - of_bool (r_pending r \<noteq> None)"

text \<open>The transactions that a job may need.\<close>

fun may_need :: "config \<Rightarrow> payment_record \<Rightarrow> action \<Rightarrow> bool" where
  "may_need cfg r Fund = True"
| "may_need cfg r (Sweep _) = True"
| "may_need cfg r (Consolidate _) = c_consolidate cfg"
| "may_need cfg r ReturnDust = (c_return_dust cfg \<or> 0 < r_detected_tao r)"
| "may_need cfg r (BuyStake n _) = (required r \<and> map_option bb_netuid (r_buyback_budget r) = Some n)"
| "may_need cfg r (Destroy n recycle) = (required r \<and> (\<exists>b. r_buyback_budget r = Some b \<and>
     bb_destroy b \<noteq> Keep \<and> recycle = (bb_destroy b = Recycle)))"

text \<open>The receipts of a buyback are those of its budget.\<close>

definition purchase_ok :: "buyback_budget \<Rightarrow> payment_record \<Rightarrow> bool" where
  "purchase_ok b r \<longleftrightarrow>
     (case r_buyback r of
        None \<Rightarrow> \<not> r_buyback_done r
      | Some rc \<Rightarrow> br_tao_spent rc = bb_amount_rao b \<and> br_netuid rc = bb_netuid b \<and> br_alpha_bought rc \<noteq> 0 \<and>
          tr_block_hash (br_stake_tx rc) \<noteq> [] \<and>
          (if r_buyback_done r
           then bb_destroy b \<noteq> Keep \<longrightarrow> br_alpha_destroyed rc = br_alpha_bought rc \<and>
             (\<exists>tx. br_destroy_tx rc = Some tx \<and> tr_block_hash tx \<noteq> [] \<and>
                tr_action tx = (if bb_destroy b = Burn then ''burn_alpha'' else ''recycle_alpha''))
           else br_destroy_tx rc = None))"

text \<open>A job of this engine that can be settled: no step of it needs an operator.\<close>

definition servable ::
    "('c, 'd, 'k) engine \<Rightarrow> (action \<Rightarrow> bool) \<Rightarrow> account_id \<Rightarrow> u64 \<Rightarrow> payment_record \<Rightarrow> bool" where
  "servable en takes who allowance r \<longleftrightarrow>
     ss58_correct (en_crypto en) \<and> r_identity r = Some (job_identity_of en) \<and> r_quarantined r = None \<and> r_next_attempt_at r = 0 \<and>
     r_auto_required r \<noteq> None \<and>
     (required r \<longrightarrow> (\<exists>b. r_buyback_budget r = Some b \<and> budget_validate (en_crypto en) b = Inr () \<and>
        bb_amount_rao b \<le> allowance \<and> purchase_ok b r)) \<and>
     (\<exists>wl. wallet_of en r = Inr wl \<and> wallet_account_id (en_crypto en) wl = who) \<and>
     list_all (\<lambda>(hk, _). is_ok (parse_ss58 (en_crypto en) hk)) (r_swept_positions r) \<and>
     (\<forall>a. may_need (en_cfg en) r a \<longrightarrow> takes a) \<and>
     r_state r \<in> {Detected, Funded, Swept, Settled}"

text \<open>The entry that is under way is the one the state of the job calls for.\<close>

definition expects :: "('c, 'd, 'k) engine \<Rightarrow> account_id set \<Rightarrow> payment_record \<Rightarrow> action \<Rightarrow> u64 \<Rightarrow> bool" where
  "expects en hotkeys r a amount \<longleftrightarrow>
     (case a of
        Fund \<Rightarrow> r_state r = Detected
      | Sweep hk \<Rightarrow> r_state r = Funded \<and> hk \<in> ss58 (en_crypto en) ` hotkeys \<and> hk \<notin> set (map fst (r_swept_positions r))
      | Consolidate hk \<Rightarrow> r_state r = Swept \<and> c_consolidate (en_cfg en) \<and> r_consolidated r < length (r_swept_positions r)
      | ReturnDust \<Rightarrow> r_state r = Swept \<and> dust_left (en_cfg en) r
      | BuyStake n l \<Rightarrow> r_state r = Swept \<and> required r \<and> r_buyback r = None \<and>
          (\<exists>b. r_buyback_budget r = Some b \<and> n = bb_netuid b \<and> amount = bb_amount_rao b)
      | Destroy n recycle \<Rightarrow> r_state r = Swept \<and> required r \<and> \<not> r_buyback_done r \<and>
          (\<exists>b rc. r_buyback_budget r = Some b \<and> r_buyback r = Some rc \<and> amount = br_alpha_bought rc \<and>
             bb_destroy b \<noteq> Keep \<and> recycle = (bb_destroy b = Recycle)))"

text \<open>Events that confirm a transaction.\<close>

definition confirms :: "action \<Rightarrow> u64 \<Rightarrow> event_summary \<Rightarrow> bool" where
  "confirms a amount s \<longleftrightarrow> \<not> es_failed s \<and>
     (case a of
        Sweep _ \<Rightarrow> summary_has s PALLET ''StakeTransferred''
      | BuyStake _ _ \<Rightarrow> (\<exists>alpha. alpha \<noteq> 0 \<and> es_stake_added s = Some (amount, alpha))
      | Destroy _ _ \<Rightarrow> es_alpha_destroyed s = Some amount
      | _ \<Rightarrow> True)"

lemmas task_defs = tasks_def closing_tasks_def sweeping_tasks_def hotkeys_left_def moves_left_def
  dust_left_def purchases_left_def required_def

lemma hotkeys_left_sweep:
  assumes "finite hotkeys" and "hk \<in> ss58 cr ` hotkeys" and "hk \<notin> set (map fst (r_swept_positions r))"
    and "r_swept_positions q = r_swept_positions r @ [(hk, n)]"
  shows "hotkeys_left cr hotkeys q < hotkeys_left cr hotkeys r"
proof -
  obtain h where "h \<in> hotkeys" "hk = ss58 cr h" using assms(2) by auto
  then show ?thesis
    unfolding hotkeys_left_def using assms(1,3,4) by (intro psubset_card_mono) auto
qed

lemma wallet_of_fields:
  "r_id q = r_id r \<Longrightarrow> r_address q = r_address r \<Longrightarrow> r_sealed_secret q = r_sealed_secret r \<Longrightarrow>
   r_derivation_path q = r_derivation_path r \<Longrightarrow> wallet_of en q = wallet_of en r"
  by (simp add: wallet_of_def cong: option.case_cong)

lemmas serve_defs = servable_def purchase_ok_def required_def

lemma parse_own_ss58: "ss58_correct cr \<Longrightarrow> parse_ss58 cr (ss58 cr a) = Inr a"
  by (simp add: parse_ss58_def ss58_def ss58_correct_def)

lemma servable_fields:
  assumes "servable en takes who allowance r"
    and "r_id q = r_id r" "r_address q = r_address r" "r_sealed_secret q = r_sealed_secret r"
    "r_derivation_path q = r_derivation_path r" "r_identity q = r_identity r" "r_quarantined q = None"
    "r_next_attempt_at q = 0" "r_auto_required q = r_auto_required r"
    "r_buyback_budget q = r_buyback_budget r" "r_detected_tao q = r_detected_tao r"
    and "\<And>b. required r \<Longrightarrow> r_buyback_budget r = Some b \<Longrightarrow> purchase_ok b r \<Longrightarrow> purchase_ok b q"
    and "list_all (\<lambda>(hk, _). is_ok (parse_ss58 (en_crypto en) hk)) (r_swept_positions q)"
    and "r_state q \<in> {Detected, Funded, Swept, Settled}"
  shows "servable en takes who allowance q"
proof -
  have "required q = required r" using assms(9) by (simp add: required_def)
  have need: "may_need cfg q a = may_need cfg r a" for cfg a
    using assms(10,11) \<open>required q = required r\<close> by (cases a) auto
  show ?thesis
    using assms wallet_of_fields [of q r en, OF assms(2-5)] \<open>required q = required r\<close>
    unfolding servable_def need by auto
qed

lemma purchase_ok_fields:
  "r_buyback q = r_buyback r \<Longrightarrow> r_buyback_done q = r_buyback_done r \<Longrightarrow> purchase_ok b q = purchase_ok b r"
  by (simp add: purchase_ok_def cong: option.case_cong)

lemma servable_same:
  assumes "servable en takes who allowance r"
    and "r_id q = r_id r" "r_address q = r_address r" "r_sealed_secret q = r_sealed_secret r"
    "r_derivation_path q = r_derivation_path r" "r_identity q = r_identity r" "r_quarantined q = None"
    "r_next_attempt_at q = 0" "r_auto_required q = r_auto_required r"
    "r_buyback_budget q = r_buyback_budget r" "r_detected_tao q = r_detected_tao r"
    and "r_buyback q = r_buyback r" "r_buyback_done q = r_buyback_done r"
    and "list_all (\<lambda>(hk, _). is_ok (parse_ss58 (en_crypto en) hk)) (r_swept_positions q)"
    and "r_state q \<in> {Detected, Funded, Swept, Settled}"
  shows "servable en takes who allowance q"
  by (rule servable_fields [OF assms(1-11) _ assms(14,15)]) (simp add: purchase_ok_fields [OF assms(12,13)])

text \<open>A confirmed transaction takes the job forward.\<close>

definition forward ::
    "('c, 'd, 'k) engine \<Rightarrow> (action \<Rightarrow> bool) \<Rightarrow> account_id \<Rightarrow> u64 \<Rightarrow> account_id set \<Rightarrow> payment_record \<Rightarrow>
     tx_ref \<Rightarrow> event_summary \<Rightarrow> bool" where
  "forward en takes who allowance hotkeys r tx s \<longleftrightarrow>
     (\<exists>q. apply_tx r tx s = Inr q \<and> servable en takes who allowance q \<and>
        tasks en hotkeys q < tasks en hotkeys r \<and> r_txs q = r_txs r @ [tx] \<and> r_state q \<noteq> Settled)"

lemma servableD:
  assumes "servable en takes who allowance r"
  shows "r_state r \<in> {Detected, Funded, Swept, Settled}" "r_quarantined r = None" "r_next_attempt_at r = 0"
    "list_all (\<lambda>(hk, _). is_ok (parse_ss58 (en_crypto en) hk)) (r_swept_positions r)"
    "r_identity r = Some (job_identity_of en)" "\<exists>x. r_auto_required r = Some x"
    "\<And>b. required r \<Longrightarrow> r_buyback_budget r = Some b \<Longrightarrow> purchase_ok b r"
    "required r \<Longrightarrow> \<exists>b. r_buyback_budget r = Some b \<and> budget_validate (en_crypto en) b = Inr () \<and> bb_amount_rao b \<le> allowance"
    "\<exists>wl. wallet_of en r = Inr wl \<and> wallet_account_id (en_crypto en) wl = who"
    "\<And>a. may_need (en_cfg en) r a \<Longrightarrow> takes a" "ss58_correct (en_crypto en)"
  using assms by (auto simp: servable_def)

lemma forward_sweep:
  assumes "finite hotkeys"
    and "servable en takes who allowance r" and "r_pending r = Some e" and "pd_action e = Sweep hk"
    and "expects en hotkeys r (Sweep hk) (pd_amount e)" and "confirms (Sweep hk) (pd_amount e) s"
  shows "forward en takes who allowance hotkeys r tx s"
proof -
  have hk: "hk \<in> ss58 (en_crypto en) ` hotkeys" "hk \<notin> set (map fst (r_swept_positions r))"
    "r_state r = Funded" "is_ok (parse_ss58 (en_crypto en) hk)"
    using servableD(11) [OF assms(2)] assms(5) by (auto simp: expects_def parse_own_ss58)
  define q where "q = r\<lparr>r_pending := None, r_swept_alpha := r_swept_alpha r + tr_amount tx,
      r_swept_positions := r_swept_positions r @ [(hk, tr_amount tx)], r_attempts := 0,
      r_next_attempt_at := 0, r_last_error := None, r_txs := r_txs r @ [tx]\<rparr>"
  have a: "apply_tx r tx s = Inr q"
    using assms(3,4,6) by (simp add: apply_tx_def confirms_def q_def)
  have "hotkeys_left (en_crypto en) hotkeys q < hotkeys_left (en_crypto en) hotkeys r"
    by (rule hotkeys_left_sweep [OF assms(1) hk(1,2)]) (simp add: q_def)
  moreover have "purchases_left q = purchases_left r" "dust_left (en_cfg en) q = dust_left (en_cfg en) r"
    "moves_left (en_cfg en) q \<le> moves_left (en_cfg en) r + of_bool (c_consolidate (en_cfg en))" "r_state q = Funded"
    using hk(3) by (auto simp: q_def purchases_left_def dust_left_def moves_left_def required_def)
  ultimately have "tasks en hotkeys q < tasks en hotkeys r"
    using hk(3) by (auto simp: tasks_def closing_tasks_def sweeping_tasks_def Let_def)
  moreover have "servable en takes who allowance q"
    using hk servableD(2-4) [OF assms(2)] by (auto simp: q_def intro!: servable_same [OF assms(2)])
  ultimately show ?thesis using a hk(3) by (auto simp: forward_def q_def)
qed

lemma forward_purchase:
  assumes "servable en takes who allowance r" and "r_pending r = Some e" and "pd_action e = BuyStake n l"
    and "expects en hotkeys r (BuyStake n l) (pd_amount e)" and "confirms (BuyStake n l) (pd_amount e) s"
    and "tr_amount tx = pd_amount e" and "tr_block_hash tx \<noteq> []"
  shows "forward en takes who allowance hotkeys r tx s"
proof -
  obtain alpha b where b: "alpha \<noteq> 0" "es_stake_added s = Some (pd_amount e, alpha)" "r_state r = Swept" "required r"
    "r_buyback r = None" "r_buyback_budget r = Some b" "n = bb_netuid b" "pd_amount e = bb_amount_rao b"
    using assms(4,5) by (auto simp: expects_def confirms_def)
  then have "\<not> r_buyback_done r" using servableD(7) [OF assms(1), of b] by (simp add: purchase_ok_def)
  then show ?thesis
    using assms(2,3,6,7) b servableD(2-4) [OF assms(1)]
    by (auto simp: forward_def apply_tx_def task_defs Let_def purchase_ok_def intro!: servable_fields [OF assms(1)])
qed

lemma forward_destroy:
  assumes "servable en takes who allowance r" and "r_pending r = Some e" and "pd_action e = Destroy n recycle"
    and "expects en hotkeys r (Destroy n recycle) (pd_amount e)" and "confirms (Destroy n recycle) (pd_amount e) s"
    and "tr_action tx = action_name (Destroy n recycle)" and "tr_block_hash tx \<noteq> []"
  shows "forward en takes who allowance hotkeys r tx s"
proof -
  obtain b rc where b: "es_alpha_destroyed s = Some (br_alpha_bought rc)" "r_state r = Swept" "required r"
    "\<not> r_buyback_done r" "r_buyback r = Some rc" "r_buyback_budget r = Some b" "bb_destroy b \<noteq> Keep"
    "recycle = (bb_destroy b = Recycle)"
    using assms(4,5) by (auto simp: expects_def confirms_def)
  then have "br_alpha_bought rc \<noteq> 0" using servableD(7) [OF assms(1), of b] by (simp add: purchase_ok_def)
  moreover have "bb_destroy b = Burn \<or> bb_destroy b = Recycle" using b(7) by (cases "bb_destroy b") auto
  ultimately show ?thesis
    using assms(2,3,6,7) b servableD(2-4) [OF assms(1)] servableD(7) [OF assms(1), of b]
    by (auto simp: forward_def apply_tx_def task_defs Let_def purchase_ok_def intro!: servable_fields [OF assms(1)])
qed

lemma forward_expected:
  assumes "finite hotkeys"
    and "servable en takes who allowance r" and "r_pending r = Some e"
    and "expects en hotkeys r (pd_action e) (pd_amount e)" and "confirms (pd_action e) (pd_amount e) s"
    and "tr_action tx = action_name (pd_action e)" and "tr_amount tx = pd_amount e" and "tr_block_hash tx \<noteq> []"
  shows "forward en takes who allowance hotkeys r tx s"
proof (cases "pd_action e")
  case (Sweep hk)
  then show ?thesis using forward_sweep assms by metis
next
  case (BuyStake n l)
  then show ?thesis using forward_purchase assms by metis
next
  case (Destroy n recycle)
  then show ?thesis using forward_destroy assms by metis
qed (use assms(3,4) servableD(2-4) [OF assms(2)] in
    \<open>auto simp: forward_def apply_tx_def expects_def transition_def resume_ok_def task_defs Let_def
      intro!: servable_same [OF assms(2)]\<close>)

lemma next_version_task_simps [simp]:
  "servable en takes who allowance (next_version now r) = servable en takes who allowance r"
  "tasks en hotkeys (next_version now r) = tasks en hotkeys r"
  "expects en hotkeys (next_version now r) a n = expects en hotkeys r a n"
  "r_txs (next_version now r) = r_txs r"
proof -
  have need: "may_need cfg (next_version now r) a = may_need cfg r a" for cfg a
    by (cases a) (simp_all add: next_version_def required_def)
  show "servable en takes who allowance (next_version now r) = servable en takes who allowance r"
    unfolding servable_def need
    by (simp add: next_version_def required_def purchase_ok_def wallet_of_def cong: option.case_cong)
qed (simp_all add: task_defs expects_def next_version_def Let_def cong: action.case_cong payment_state.case_cong)

lemma pending_task_simps [simp]:
  "servable en takes who allowance (r\<lparr>r_pending := p\<rparr>) = servable en takes who allowance r"
  "tasks en hotkeys (r\<lparr>r_pending := p\<rparr>) = tasks en hotkeys r"
  "expects en hotkeys (r\<lparr>r_pending := p\<rparr>) a n = expects en hotkeys r a n"
proof -
  have need: "may_need cfg (r\<lparr>r_pending := p\<rparr>) a = may_need cfg r a" for cfg a
    by (cases a) (simp_all add: required_def)
  show "servable en takes who allowance (r\<lparr>r_pending := p\<rparr>) = servable en takes who allowance r"
    unfolding servable_def need
    by (simp add: required_def purchase_ok_def wallet_of_def cong: option.case_cong)
qed (simp_all add: task_defs expects_def Let_def cong: action.case_cong payment_state.case_cong)

lemma expects_state: "expects en hotkeys r a n \<Longrightarrow> r_state r \<noteq> Settled"
  by (cases a) (auto simp: expects_def)

lemma expects_tasks: "expects en hotkeys r a n \<Longrightarrow> 0 < tasks en hotkeys r"
  by (cases a) (auto simp: expects_def tasks_def closing_tasks_def Let_def)

end
