(* ===== verification/Engine_Progress.thy ===== *)
theory Engine_Progress
  imports Job_Tasks
begin

text \<open>
  Progress: a job that can be served is settled by repeated passes of the engine.  The chain is
  described by the locale \<open>cooperative\<close>: it answers reads, prepares transactions, and executes
  what it is handed, though the answer to a broadcast may be lost and the transaction may take
  a while to be found.  Every pass lowers the \<open>work\<close> that is left, or brings the chain closer to its
  verdict on the transaction under way.
\<close>

section \<open>A chain that executes what it is handed\<close>

text \<open>The calls that the engine builds for an action.\<close>

fun carries :: "action \<Rightarrow> chain_call \<Rightarrow> bool" where
  "carries Fund (TransferTao _ _) = True"
| "carries (Sweep _) (TransferStake _ _ _ _) = True"
| "carries (Consolidate _) (MoveStake _ _ _ _) = True"
| "carries ReturnDust (TransferAll _) = True"
| "carries (BuyStake n _) (AddStakeLimit _ m _ _ partial) = (n = m \<and> \<not> partial)"
| "carries (Destroy n recycle) (BurnAlpha _ m _) = (n = m \<and> \<not> recycle)"
| "carries (Destroy n recycle) (RecycleAlpha _ m _) = (n = m \<and> recycle)"
| "carries _ _ = False"

definition answered :: "('c \<Rightarrow> bool) \<Rightarrow> ('c \<Rightarrow> 'a res \<times> 'c) \<Rightarrow> ('a \<Rightarrow> bool) \<Rightarrow> bool" where
  "answered I f P \<longleftrightarrow> (\<forall>c. I c \<longrightarrow> (\<exists>x c'. f c = (Inr x, c') \<and> P x \<and> I c'))"

text \<open>
  \<open>ready None\<close>: nothing is under way; \<open>ready (Some e)\<close>: the transaction of entry \<open>e\<close> is, and the
  verdict on it is at most \<open>delay e\<close> enquiries away.
\<close>

locale cooperative =
  fixes en :: "('c, sqlite_db, 'k) engine" and ready :: "pending_tx option \<Rightarrow> 'c \<Rightarrow> bool"
    and delay :: "pending_tx \<Rightarrow> 'c \<Rightarrow> nat" and patience :: nat and takes :: "action \<Rightarrow> bool"
    and who :: account_id and hotkeys :: "account_id set" and allowance :: u64
  assumes store: "cl_store (en_client en) = sqlite_ops (en_crypto en)"
    and alone: "quiet (en_client en)"
    and finite_hotkeys: "finite hotkeys"
    and clock: "ready pend c \<Longrightarrow> ready pend (snd (rp_now (en_rpc en) c)) \<and> delay e (snd (rp_now (en_rpc en) c)) \<le> delay e c"
    and tokens: "ready pend c \<Longrightarrow> ready pend (snd (rp_uuid (en_rpc en) c))"
    and positions: "answered (ready None) (rp_alpha_on (en_rpc en) who n) (\<lambda>(_, ps). sp_hotkey ` set ps \<subseteq> hotkeys)"
    and accounts: "answered (ready None) (rp_account (en_rpc en) who) (\<lambda>_. True)"
    and fees: "answered (ready None) (rp_estimate_fee (en_rpc en) call kp) (\<lambda>_. True)"
    and deposit: "answered (ready None) (rp_existential_deposit (en_rpc en)) (\<lambda>_. True)"
    and prices: "answered (ready None) (rp_alpha_price (en_rpc en) n) (\<lambda>_. True)"
    and balances: "answered (ready None) (rp_free_balance (en_rpc en) acc) (\<lambda>_. True)"
    and stakes: "c_consolidate (en_cfg en) \<Longrightarrow> answered (ready None) (rp_alpha_of (en_rpc en) hk acc n) (\<lambda>_. True)"
    and solvent: "ready None c \<Longrightarrow> rp_free_balance (en_rpc en) (treasury_account en) c = (Inr free, c1) \<Longrightarrow>
      rp_existential_deposit (en_rpc en) c1 = (Inr ed, c2) \<Longrightarrow> allowance \<le> spendable free (c_fee_reserve (en_cfg en)) ed"
    and prepares: "answered (ready None) (rp_prepare (en_rpc en) call kp)
      (\<lambda>p. pp_call p = call \<and> pp_signer p = ss58 (en_crypto en) (cr_account_id (en_crypto en) kp))"
    and executes: "ready None c \<Longrightarrow> takes a \<Longrightarrow> carries a (pp_call p) \<Longrightarrow> rp_broadcast (en_rpc en) p c = (sent, c') \<Longrightarrow>
      (case sent of
         Inl _ \<Rightarrow> ready (Some (journal_entry a t p (pp_call p))) c'
       | Inr f \<Rightarrow> ready None c' \<and> confirms a (call_amount (pp_call p)) (ft_summary f) \<and>
           tr_action (ft_tx f) = action_name a \<and> tr_amount (ft_tx f) = call_amount (pp_call p) \<and>
           tr_block_hash (ft_tx f) \<noteq> [])"
    and finds: "ready (Some e) c \<Longrightarrow> rp_find_pending (en_rpc en) e c = (out, c') \<Longrightarrow>
      (\<exists>h s. out = Inr (Included h s) \<and> h \<noteq> [] \<and> confirms (pd_action e) (pd_amount e) s \<and> ready None c') \<or>
      (out = Inr Wait \<or> (\<exists>err. out = Inl err)) \<and> ready (Some e) c' \<and> delay e c' < delay e c"
    and patient: "ready (Some e) c \<Longrightarrow> delay e c \<le> patience"
begin

definition stored :: "int \<Rightarrow> payment_record \<Rightarrow> ('c, sqlite_db) world \<Rightarrow> bool" where
  "stored k r w \<longleftrightarrow> job_db (claims r) r (w_db w) \<and> servable en takes who allowance r \<and>
     ready (r_pending r) (w_env w) \<and>
     int (length (w_sent w)) = k + int (length (r_txs r)) + of_bool (r_pending r \<noteq> None) \<and>
     unat (r_version r) + work en hotkeys r < 2 ^ 63 \<and>
     (\<forall>e. r_pending r = Some e \<longrightarrow> pd_reservation e \<noteq> None \<and> expects en hotkeys r (pd_action e) (pd_amount e))"

text \<open>What a step has in hand: the stored record with changes that are not stored yet.\<close>

definition draft :: "payment_record \<Rightarrow> payment_record \<Rightarrow> bool" where
  "draft r q \<longleftrightarrow> r_id q = r_id r \<and> r_version q = r_version r \<and> same_policy r q \<and> r_txs q = r_txs r \<and>
     r_pending r = None \<and> r_pending q = None \<and> servable en takes who allowance q"

lemma client_simps: "cl_rpc (en_client en) = en_rpc en" "cl_crypto (en_client en) = en_crypto en"
  by (simp_all add: en_rpc_def en_crypto_def)

lemma wp_read:
  assumes "stored k r w" and "r_pending r = None" and "answered (ready None) f P"
    and "\<And>x c. stored k r (w\<lparr>w_env := c\<rparr>) \<Longrightarrow> P x \<Longrightarrow> Q (Inr x) (w\<lparr>w_env := c\<rparr>)"
  shows "wp (rpc_do f) Q w"
proof -
  have "ready None (w_env w)" using assms(1,2) by (simp add: stored_def)
  then obtain x c where "f (w_env w) = (Inr x, c)" "P x" "ready None c"
    using assms(3) unfolding answered_def by blast
  then show ?thesis using assms(1,2,4) by (simp add: wp_rpc stored_def)
qed

lemma wp_clock:
  assumes "ready x (w_env w)" and "\<And>t c. ready x c \<Longrightarrow> (\<And>e. delay e c \<le> delay e (w_env w)) \<Longrightarrow> Q (Inr t) (w\<lparr>w_env := c\<rparr>)"
  shows "wp (now_do (en_client en)) Q w"
  using assms(2) [of "snd (rp_now (en_rpc en) (w_env w))"] clock [OF assms(1)]
  by (simp add: wp_now client_simps case_prod_beta)

lemma wp_write:
  assumes "job_db held r (w_db w)" and "r_id q = r_id r" and "r_version q = r_version r" and "same_policy r q"
    and "unat (r_version r) + 1 < 2 ^ 64"
    and "r_pending q = None \<and> r_pending r = None \<and> held' = held \<or>
      (\<exists>p t. r_pending q = Some p \<and> r_pending r = None \<and> pd_reservation p = Some t \<and>
         (pd_signer p, r_id r, t) \<in> held \<and> held' = held) \<or>
      (\<exists>p t. r_pending q = None \<and> r_pending r = Some p \<and> pd_reservation p = Some t \<and>
         held' = held - {(pd_signer p, r_id r, t)})"
    and "ready x (w_env w)"
    and "\<And>now c d. job_db held' (next_version now q) d \<Longrightarrow> ready x c \<Longrightarrow>
      Q (Inr (next_version now q)) (w\<lparr>w_env := c, w_db := d\<rparr>)"
  shows "wp (st_update (en_client en) q) Q w"
  unfolding st_update_def wp_bind
proof (rule wp_clock [OF assms(7)])
  fix t c assume c: "ready x c"
  obtain d where "sqlite_update q t (w_db w) = (Inr (next_version t q), d)" "job_db held' (next_version t q) d"
    using update_job_db [OF assms(1-6)] by blast
  then show "case Inr t of Inl e \<Rightarrow> Q (Inl e) (w\<lparr>w_env := c\<rparr>)
      | Inr now \<Rightarrow> wp (db_do (en_client en) (so_update (cl_store (en_client en)) q now)) Q (w\<lparr>w_env := c\<rparr>)"
    using assms(8) [OF _ c] by (simp add: wp_db [OF alone] store)
qed

text \<open>The job has come closer to its end; after an error its transaction is under way.\<close>

definition advanced :: "int \<Rightarrow> payment_record \<Rightarrow> error + 'a \<Rightarrow> ('c, sqlite_db) world \<Rightarrow> bool" where
  "advanced k r x w \<longleftrightarrow> (\<exists>q. stored k q w \<and> r_id q = r_id r \<and> work en hotkeys q < work en hotkeys r \<and>
     r_state q \<noteq> Settled \<and> (is_ok x \<or> r_pending q \<noteq> None))"

lemma work_None: "r_pending r = None \<Longrightarrow> work en hotkeys r = 2 * tasks en hotkeys r"
  by (simp add: work_def)

lemma broadcast_progress:
  assumes "job_db (claims r) r (w_db w)" and "servable en takes who allowance r" and "ready None (w_env w)"
    and "r_pending r = Some e" and "e = journal_entry a t p (pp_call p)" and "takes a" and "carries a (pp_call p)"
    and "expects en hotkeys r a (call_amount (pp_call p))"
    and "int (length (w_sent w)) = k + int (length (r_txs r))" and "unat (r_version r) + work en hotkeys r < 2 ^ 63"
  shows "wp (io_bind (broadcast (en_client en) p) (\<lambda>f. io_bind (io_lift (apply_tx r (ft_tx f) (ft_summary f)))
           (\<lambda>q. io_bind (st_update (en_client en) q) (\<lambda>_. io_ret True))))
         (\<lambda>x w'. \<exists>q. stored k q w' \<and> r_id q = r_id r \<and> r_state q \<noteq> Settled \<and>
            (q = r \<or> 2 * tasks en hotkeys q < work en hotkeys r \<and> r_pending q = None \<and> is_ok x)) w"
proof -
  obtain x c where x: "rp_broadcast (en_rpc en) p (w_env w) = (x, c)" by force
  note ex = executes [OF assms(3,6,7) x, of t]
  let ?w = "w\<lparr>w_sent := w_sent w @ [(p, w_db w)], w_env := c\<rparr>"
  have b: "wp (broadcast (en_client en) p) Q w = Q x ?w" for Q
    by (simp add: wp_def broadcast_def rpc_do_def client_simps x)
  have e: "pd_action e = a" "pd_amount e = call_amount (pp_call p)" "pd_reservation e = Some t" "pd_signer e = pp_signer p"
    using assms(5) by (simp_all add: journal_entry_def)
  have w: "work en hotkeys r = 2 * tasks en hotkeys r - 1" by (simp add: work_def assms(4))
  show ?thesis
  proof (cases x)
    case (Inl err)
    then have "stored k r ?w" "r_state r \<noteq> Settled"
      using assms ex e by (simp_all add: stored_def expects_state)
    then show ?thesis using Inl by (auto simp: b)
  next
    case (Inr f)
    then have f: "ready None c" "confirms a (call_amount (pp_call p)) (ft_summary f)" "tr_action (ft_tx f) = action_name a"
      "tr_amount (ft_tx f) = call_amount (pp_call p)" "tr_block_hash (ft_tx f) \<noteq> []"
      using ex by simp_all
    have "forward en takes who allowance hotkeys r (ft_tx f) (ft_summary f)"
      by (rule forward_expected [OF finite_hotkeys assms(2,4)]) (use assms(8) e f in simp_all)
    then obtain q where q: "apply_tx r (ft_tx f) (ft_summary f) = Inr q" "servable en takes who allowance q"
      "tasks en hotkeys q < tasks en hotkeys r" "r_txs q = r_txs r @ [ft_tx f]" "r_state q \<noteq> Settled"
      unfolding forward_def by blast
    note frame = apply_tx_pending [OF q(1)] apply_tx_policy [OF q(1)]
    have "wp (st_update (en_client en) q) (\<lambda>x w'. is_ok x \<and>
        (\<exists>q. stored k q w' \<and> r_id q = r_id r \<and> r_state q \<noteq> Settled \<and> 2 * tasks en hotkeys q < work en hotkeys r \<and> r_pending q = None)) ?w"
    proof (rule wp_write [where held' = "{}" and x = None])
      show "unat (r_version r) + 1 < 2 ^ 64" using assms(10) by simp
      show "job_db (claims r) r (w_db ?w)" using assms(1) by simp
      fix now c' d assume d: "job_db {} (next_version now q) d" "ready None c'"
      have v: "unat (r_version r + 1) = unat (r_version r) + 1" using assms(10) by (simp add: unat_word_ariths)
      have "stored k (next_version now q) (?w\<lparr>w_env := c', w_db := d\<rparr>)"
        using d q frame assms(9,10) w v by (simp add: stored_def work_def)
      then show "is_ok (Inr (next_version now q)) \<and>
          (\<exists>q. stored k q (?w\<lparr>w_env := c', w_db := d\<rparr>) \<and> r_id q = r_id r \<and> r_state q \<noteq> Settled \<and> 2 * tasks en hotkeys q < work en hotkeys r \<and> r_pending q = None)"
        using q(3,5) frame w by (intro conjI exI [of _ "next_version now q"]) simp_all
    qed (use frame f(1) assms(4) e in \<open>auto simp: claims_def journal_claim_def\<close>)
    then show ?thesis using Inr q(1) by (auto simp: b elim!: wp_mono split: sum.splits)
  qed
qed

lemma wp_reserve:
  assumes "stored k r w" and "draft r q"
    and "\<And>tok c d. job_db {(s, r_id r, tok)} r d \<Longrightarrow> ready None c \<Longrightarrow> Q (Inr tok) (w\<lparr>w_env := c, w_db := d\<rparr>)"
  shows "wp (st_reserve (en_client en) s q) Q w"
proof -
  have r: "job_db {} r (w_db w)" "r_pending r = None" "ready None (w_env w)" "unat (r_version r) < 2 ^ 63"
    using assms(1,2) by (auto simp: stored_def draft_def)
  obtain tok c where c: "rp_uuid (en_rpc en) (w_env w) = (tok, c)" by force
  then have "ready None c" using tokens [OF r(3)] by simp
  moreover obtain d where "sqlite_reserve_signer_for_record s r tok (w_db w) = (Inr tok, d)" "job_db {(s, r_id r, tok)} r d"
    using reserve_job_db [OF r(1,2,4)] by blast
  moreover have "sqlite_reserve_signer_for_record s q = sqlite_reserve_signer_for_record s r"
    using assms(2) by (simp add: sqlite_reserve_signer_for_record_def draft_def fun_eq_iff)
  ultimately show ?thesis
    using assms(3) by (simp add: st_reserve_def wp_uuid wp_db [OF alone] client_simps c store)
qed

text \<open>The two halves of \<open>send_journaled\<close>: preparing under a reservation, journaling and broadcasting.\<close>

definition journal_and_send :: "payment_record \<Rightarrow> pending_tx \<Rightarrow> prepared_tx \<Rightarrow> ('c, sqlite_db, bool) act" where
  "journal_and_send q e p =
     io_bind (st_update (en_client en) (q\<lparr>r_pending := Some e\<rparr>)) (\<lambda>r.
     io_bind (broadcast (en_client en) p) (\<lambda>f.
     io_bind (io_lift (apply_tx r (ft_tx f) (ft_summary f))) (\<lambda>x.
     io_bind (st_update (en_client en) x) (\<lambda>_. io_ret True))))"

lemma journal_progress:
  assumes "draft r q" and "takes a" and "carries a (pp_call p)" and "expects en hotkeys q a (call_amount (pp_call p))"
    and "tasks en hotkeys q \<le> tasks en hotkeys r" and "job_db {(pp_signer p, r_id r, tok)} r (w_db w)" and "ready None (w_env w)"
    and "int (length (w_sent w)) = k + int (length (r_txs r))" and "unat (r_version r) + 2 * tasks en hotkeys r < 2 ^ 63"
  shows "wp (journal_and_send q (journal_entry a tok p (pp_call p)) p) (advanced k r) w"
proof -
  let ?e = "journal_entry a tok p (pp_call p)"
  let ?q = "q\<lparr>r_pending := Some ?e\<rparr>"
  have q: "r_pending q = None" "r_pending r = None" "r_id q = r_id r" "r_version q = r_version r" "same_policy r q"
    "r_txs q = r_txs r" "servable en takes who allowance q"
    using assms(1) by (simp_all add: draft_def)
  have v: "unat (r_version r + 1) = unat (r_version r) + 1" using assms(9) by (simp add: unat_word_ariths)
  have t: "0 < tasks en hotkeys q" using expects_tasks [OF assms(4)] .
  show ?thesis
    unfolding journal_and_send_def wp_bind [of "st_update (en_client en) ?q"]
  proof (rule wp_write [OF assms(6), where held' = "{(pp_signer p, r_id r, tok)}" and x = None])
    fix now c d assume d: "job_db {(pp_signer p, r_id r, tok)} (next_version now ?q) d" "ready None c"
    let ?r = "next_version now ?q" and ?w = "w\<lparr>w_env := c, w_db := d\<rparr>"
    show "case Inr ?r of Inl e \<Rightarrow> advanced k r (Inl e) ?w
        | Inr r1 \<Rightarrow> wp (io_bind (broadcast (en_client en) p) (\<lambda>f. io_bind (io_lift (apply_tx r1 (ft_tx f) (ft_summary f)))
           (\<lambda>x. io_bind (st_update (en_client en) x) (\<lambda>_. io_ret True)))) (advanced k r) ?w"
      unfolding sum.case
    proof (rule wp_mono [OF broadcast_progress [where r = ?r and e = ?e and a = a and t = tok and k = k]])
      fix x :: "error + bool" and w'
      assume "\<exists>q. stored k q w' \<and> r_id q = r_id ?r \<and> r_state q \<noteq> Settled \<and> (q = ?r \<or> 2 * tasks en hotkeys q < work en hotkeys ?r \<and> r_pending q = None \<and> is_ok x)"
      then show "advanced k r x w'" using q(2,3) t assms(5) by (auto simp: advanced_def work_def)
    qed (use d q t v assms(2-5,8,9) in
        \<open>simp_all add: work_def claims_def journal_claim_def journal_entry_def\<close>)
  qed (use q assms(7,9) in \<open>auto simp: same_policy_def journal_entry_def\<close>)
qed

lemma wp_attempt_rpc:
  "wp (io_bind (io_attempt (rpc_do f)) g) Q w = wp (g (fst (f (w_env w)))) Q (w\<lparr>w_env := snd (f (w_env w))\<rparr>)"
  by (simp add: wp_rpc)

lemma send_progress:
  assumes "stored k r w" and "draft r q" and "takes a" and "carries a call"
    and "expects en hotkeys q a (call_amount call)" and "tasks en hotkeys q \<le> tasks en hotkeys r"
  shows "wp (send_journaled (en_client en) q a call kp) (advanced k r) w"
proof -
  let ?s = "ss58 (en_crypto en) (cr_account_id (en_crypto en) kp)"
  have q: "r_pending q = None" "r_pending r = None" using assms(2) by (simp_all add: draft_def)
  have r: "int (length (w_sent w)) = k + int (length (r_txs r))" "unat (r_version r) + 2 * tasks en hotkeys r < 2 ^ 63"
    using assms(1) q(2) by (simp_all add: stored_def work_None)
  show ?thesis
    unfolding send_journaled_def Let_def client_simps q(1) simp_thms if_False
      wp_bind [of "st_reserve (en_client en) ?s q"]
  proof (rule wp_reserve [OF assms(1,2)], unfold sum.case)
    fix tok c d assume d: "job_db {(?s, r_id r, tok)} r d" and c: "ready None c"
    obtain p c1 where p: "rp_prepare (en_rpc en) call kp c = (Inr p, c1)" "pp_call p = call" "pp_signer p = ?s" "ready None c1"
      using prepares [of call kp] c unfolding answered_def by blast
    have "wp (journal_and_send q (journal_entry a tok p (pp_call p)) p) (advanced k r) (w\<lparr>w_env := c, w_db := d, w_env := c1\<rparr>)"
      by (rule journal_progress) (use assms(2-6) p d r in simp_all)
    then show "wp (io_bind (io_attempt (rpc_do (rp_prepare (en_rpc en) call kp))) (\<lambda>prepared. case prepared of
          Inl e \<Rightarrow> io_bind (st_cancel (en_client en) ?s (r_id q) tok) (\<lambda>_. io_fail e)
        | Inr p \<Rightarrow>
            if pp_signer p \<noteq> ?s
            then io_bind (st_cancel (en_client en) ?s (r_id q) tok) (\<lambda>_. io_fail (ErrStore ''prepared signer mismatch''))
            else io_bind (st_update (en_client en) (q\<lparr>r_pending := Some (journal_entry a tok p call)\<rparr>)) (\<lambda>r.
              io_bind (broadcast (en_client en) p) (\<lambda>finalized.
              io_bind (io_lift (apply_tx r (ft_tx finalized) (ft_summary finalized))) (\<lambda>applied.
              io_bind (st_update (en_client en) applied) (\<lambda>_. io_ret True))))))
      (advanced k r) (w\<lparr>w_env := c, w_db := d\<rparr>)"
      using p by (simp add: wp_attempt_rpc journal_and_send_def del: wp_bind)
  qed
qed

section \<open>The steps\<close>

lemma draft_self: "stored k r w \<Longrightarrow> r_pending r = None \<Longrightarrow> draft r r"
  by (simp add: stored_def draft_def same_policy_def)

lemma store_progress:
  assumes "stored k r w" and "draft r q" and "tasks en hotkeys q < tasks en hotkeys r"
    and "\<And>now c d. stored k (next_version now q) (w\<lparr>w_env := c, w_db := d\<rparr>) \<Longrightarrow>
      Q (Inr (next_version now q)) (w\<lparr>w_env := c, w_db := d\<rparr>)"
  shows "wp (st_update (en_client en) q) Q w"
proof (rule wp_write [where r = r and held = "{}" and held' = "{}" and x = None])
  have q: "r_pending q = None" "r_pending r = None" "r_id q = r_id r" "r_version q = r_version r" "same_policy r q"
    "r_txs q = r_txs r" "servable en takes who allowance q"
    using assms(2) by (simp_all add: draft_def)
  have r: "int (length (w_sent w)) = k + int (length (r_txs r))" "unat (r_version r) + 2 * tasks en hotkeys r < 2 ^ 63"
    using assms(1) q(2) by (simp_all add: stored_def work_None)
  show "unat (r_version r) + 1 < 2 ^ 64" using r(2) by simp
  fix now c d assume "job_db {} (next_version now q) d" "ready None c"
  moreover have "unat (r_version r + 1) = unat (r_version r) + 1" using r(2) by (simp add: unat_word_ariths)
  ultimately show "Q (Inr (next_version now q)) (w\<lparr>w_env := c, w_db := d\<rparr>)"
    using q r assms(3) by (intro assms(4)) (simp add: stored_def work_def)
qed (use assms(1,2) in \<open>auto simp: stored_def draft_def\<close>)

lemma draft_transition:
  assumes "draft r q" and "can_transition (r_state q) to" and "to \<in> {Funded, Swept, Settled}"
  shows "\<exists>x. transition to q = Inr x \<and> draft r x \<and> r_state x = to \<and>
     closing_tasks (en_cfg en) x = closing_tasks (en_cfg en) q \<and>
     sweeping_tasks (en_crypto en) (en_cfg en) hotkeys x = sweeping_tasks (en_crypto en) (en_cfg en) hotkeys q"
proof -
  have q: "servable en takes who allowance q" using assms(1) by (simp add: draft_def)
  have "resume_ok q to" using servableD(1) [OF q] by (auto simp: resume_ok_def)
  then obtain x where x: "transition to q = Inr x" using assms(2) by (simp add: transition_def Let_def)
  then have "servable en takes who allowance x"
    using assms(3) servableD(2-4) [OF q] by (auto simp: result_simps intro!: servable_same [OF q])
  then show ?thesis
    using x assms(1,3) by (auto simp: draft_def result_simps same_policy_def task_defs)
qed

text \<open>Reads that the chain answers.\<close>

definition yields :: "int \<Rightarrow> payment_record \<Rightarrow> ('c, sqlite_db, 'a) act \<Rightarrow> ('a \<Rightarrow> bool) \<Rightarrow> bool" where
  "yields k r m P \<longleftrightarrow> (\<forall>w. stored k r w \<longrightarrow> wp m (\<lambda>x w'. \<exists>y. x = Inr y \<and> P y \<and> stored k r w') w)"

lemma yields_bind:
  assumes "yields k r m P" and "\<And>y. P y \<Longrightarrow> yields k r (f y) R"
  shows "yields k r (io_bind m f) R"
  using assms unfolding yields_def wp_bind by (fastforce elim: wp_mono)

lemma yields_ret: "P x \<Longrightarrow> yields k r (io_ret x) P"
  by (simp add: yields_def)

lemma yields_rpc: "r_pending r = None \<Longrightarrow> answered (ready None) f P \<Longrightarrow> yields k r (rpc_do f) P"
  unfolding yields_def by (blast intro: wp_read)

lemma wp_yields:
  assumes "yields k r m P" and "stored k r w" and "\<And>y w'. P y \<Longrightarrow> stored k r w' \<Longrightarrow> wp (f y) Q w'"
  shows "wp (io_bind m f) Q w"
  using assms unfolding yields_def wp_bind by (fastforce elim: wp_mono)

lemma yields_fees:
  assumes "r_pending r = None"
  shows "yields k r (estimate_fees en kp n ps acc) (\<lambda>_. True)"
proof (induction ps arbitrary: acc)
  case (Cons p ps)
  show ?case
    unfolding estimate_fees.simps by (rule yields_bind [OF yields_rpc [OF assms fees] Cons.IH])
qed (simp add: yields_ret)

lemma yields_floor: "r_pending r = None \<Longrightarrow> yields k r (sweep_floor en n) (\<lambda>_. True)"
  unfolding sweep_floor_def by (intro yields_bind [OF yields_rpc [OF _ prices]] yields_ret) auto

lemma yields_spendable:
  assumes "r_pending r = None"
  shows "yields k r (engine_spendable en) (\<lambda>x. allowance \<le> x)"
  unfolding yields_def
proof (intro allI impI)
  fix w assume w: "stored k r w"
  then have c: "ready None (w_env w)" using assms by (simp add: stored_def)
  obtain free c1 where f: "rp_free_balance (en_rpc en) (treasury_account en) (w_env w) = (Inr free, c1)" "ready None c1"
    using balances c unfolding answered_def by blast
  obtain ed c2 where e: "rp_existential_deposit (en_rpc en) c1 = (Inr ed, c2)" "ready None c2"
    using deposit f(2) unfolding answered_def by blast
  show "wp (engine_spendable en) (\<lambda>x w'. \<exists>y. x = Inr y \<and> allowance \<le> y \<and> stored k r w') w"
    using w f e assms solvent [OF c f(1) e(1)] by (simp add: engine_spendable_def wp_rpc stored_def)
qed

lemma transition_progress:
  assumes "stored k r w" and "draft r q" and "can_transition (r_state q) to" and "to \<in> {Funded, Swept}"
    and "r_state q = r_state r" and "tasks en hotkeys q \<le> tasks en hotkeys r"
  shows "wp (io_bind (io_lift (transition to q)) (\<lambda>x. io_bind (st_update (en_client en) x) (\<lambda>_. io_ret True))) (advanced k r) w"
proof -
  obtain x where x: "transition to q = Inr x" "draft r x" "r_state x = to"
    "closing_tasks (en_cfg en) x = closing_tasks (en_cfg en) q"
    "sweeping_tasks (en_crypto en) (en_cfg en) hotkeys x = sweeping_tasks (en_crypto en) (en_cfg en) hotkeys q"
    using draft_transition [OF assms(2,3)] assms(4) by auto
  have "servable en takes who allowance q" using assms(2) by (simp add: draft_def)
  then have "tasks en hotkeys x < tasks en hotkeys q"
    using x(3-5) assms(3,4) servableD(1) by (fastforce simp: tasks_def Let_def)
  then have t: "tasks en hotkeys x < tasks en hotkeys r" using assms(6) by simp
  show ?thesis
    unfolding x(1) wp_simps wp_bind sum.case
    by (rule store_progress [OF assms(1) x(2) t])
      (use t x(2,3) assms(4) in \<open>auto simp: advanced_def work_def draft_def intro!: exI [of _ "next_version _ x"]\<close>)
qed

lemma wallet_ready:
  assumes "draft r q"
  shows "\<exists>wl. wallet_of en q = Inr wl \<and> wallet_account_id (en_crypto en) wl = who"
  using assms servableD(9) by (auto simp: draft_def)

lemma may_take: "draft r q \<Longrightarrow> may_need (en_cfg en) q a \<Longrightarrow> takes a"
  using servableD(10) by (auto simp: draft_def)

lemma detected_progress:
  assumes "stored k r w" and "r_pending r = None" and "r_state r = Detected"
  shows "wp (step_detected en r) (advanced k r) w"
proof -
  note d = draft_self [OF assms(1,2)]
  obtain wl where wl: "wallet_of en r = Inr wl" "wallet_account_id (en_crypto en) wl = who" using wallet_ready [OF d] by blast
  have q: "draft r (r\<lparr>r_detected_alpha := a\<rparr>)" "tasks en hotkeys (r\<lparr>r_detected_alpha := a\<rparr>) = tasks en hotkeys r" for a
    using d servableD(2-4) [of en takes who allowance r] assms(3)
    by (auto simp: draft_def same_policy_def task_defs Let_def intro!: servable_same [of en takes who allowance r])
  show ?thesis
    unfolding step_detected_def Let_def wl wp_bind_lift sum.case
  proof (rule wp_yields [OF yields_rpc [OF assms(2) positions] assms(1)], unfold case_prod_beta,
      rule wp_yields [OF yields_rpc [OF assms(2) accounts]], assumption,
      rule wp_yields [OF yields_floor [OF assms(2)]], assumption,
      rule wp_yields [OF yields_fees [OF assms(2)]], assumption,
      rule wp_yields [OF yields_rpc [OF assms(2) deposit]], assumption)
    fix pos :: "u64 \<times> stake_position list" and acc :: "u64 \<times> u32" and floor fees ed w'
    assume s: "stored k r w'"
    let ?q = "r\<lparr>r_detected_alpha := max (r_detected_alpha r) (fst pos)\<rparr>"
    let ?need = "if snd pos = [] then 0 else funding_needed fees (c_fee_margin_bps (en_cfg en)) ed (fst acc)"
    have "wp (send_journaled (en_client en) ?q Fund (TransferTao who ?need) (en_treasury en)) (advanced k r) w'"
      by (rule send_progress [OF s q(1)]) (use assms(3) q may_take [OF d, of Fund] in \<open>simp_all add: expects_def\<close>)
    moreover have "wp (io_bind (io_lift (transition Funded ?q)) (\<lambda>x. io_bind (st_update (en_client en) x) (\<lambda>_. io_ret True))) (advanced k r) w'"
      by (rule transition_progress [OF s q(1)]) (use assms(3) q in simp_all)
    ultimately show "wp (if ?need = 0
        then io_bind (io_lift (transition Funded ?q)) (\<lambda>r. io_bind (st_update (en_client en) r) (\<lambda>_. io_ret True))
        else send en ?q Fund (TransferTao who ?need) (en_treasury en)) (advanced k r) w'"
      by (simp add: send_def del: wp_bind)
  qed
qed

lemma funded_progress:
  assumes "stored k r w" and "r_pending r = None" and "r_state r = Funded"
  shows "wp (step_funded en r) (advanced k r) w"
proof -
  note d = draft_self [OF assms(1,2)]
  obtain wl where wl: "wallet_of en r = Inr wl" "wallet_account_id (en_crypto en) wl = who" using wallet_ready [OF d] by blast
  show ?thesis
    unfolding step_funded_def Let_def wl wp_bind_lift sum.case
  proof (rule wp_yields [OF yields_rpc [OF assms(2) positions] assms(1)], unfold case_prod_beta,
      rule wp_yields [OF yields_floor [OF assms(2)]], assumption)
    fix pos :: "u64 \<times> stake_position list" and floor w'
    assume s: "stored k r w'" and pos: "sp_hotkey ` set (snd pos) \<subseteq> hotkeys"
    have "wp (send_journaled (en_client en) r (Sweep (ss58 (en_crypto en) (sp_hotkey p)))
        (TransferStake (treasury_account en) (sp_hotkey p) (r_netuid r) (sp_alpha p)) (wl_keypair wl)) (advanced k r) w'"
      if p: "find (sweepable (en_crypto en) r floor) (snd pos) = Some p" for p
    proof (rule send_progress [OF s d])
      have "p \<in> set (snd pos)" "sweepable (en_crypto en) r floor p" using p by (auto simp: find_Some_iff)
      then show "expects en hotkeys r (Sweep (ss58 (en_crypto en) (sp_hotkey p)))
          (call_amount (TransferStake (treasury_account en) (sp_hotkey p) (r_netuid r) (sp_alpha p)))"
        using pos assms(3) by (auto simp: expects_def sweepable_def)
    qed (use may_take [OF d, of "Sweep _"] in simp_all)
    moreover have "wp (io_bind (io_lift (transition Swept r)) (\<lambda>x. io_bind (st_update (en_client en) x) (\<lambda>_. io_ret True))) (advanced k r) w'"
      by (rule transition_progress [OF s d]) (use assms(3) in simp_all)
    ultimately show "wp (case find (sweepable (en_crypto en) r floor) (snd pos) of
        None \<Rightarrow> io_bind (io_lift (transition Swept r)) (\<lambda>r. io_bind (st_update (en_client en) r) (\<lambda>_. io_ret True))
      | Some p \<Rightarrow> send en r (Sweep (ss58 (en_crypto en) (sp_hotkey p)))
            (TransferStake (treasury_account en) (sp_hotkey p) (r_netuid r) (sp_alpha p)) (wl_keypair wl)) (advanced k r) w'"
      by (simp add: send_def del: wp_bind split: option.split)
  qed
qed

text \<open>The job is settled: nothing is under way, no signer is reserved, and a required buyback is
  complete according to its budget.\<close>

definition settled :: "int \<Rightarrow> string \<Rightarrow> ('c, sqlite_db) world \<Rightarrow> bool" where
  "settled k i w \<longleftrightarrow> (\<exists>q. job_db {} q (w_db w) \<and> r_id q = i \<and> r_state q = Settled \<and> r_pending q = None \<and>
     int (length (w_sent w)) = k + int (length (r_txs q)) \<and>
     (required q \<longrightarrow> r_buyback_done q \<and> validate_completed_buyback (en_crypto en) q = Inr ()))"

definition moved :: "int \<Rightarrow> payment_record \<Rightarrow> error + 'a \<Rightarrow> ('c, sqlite_db) world \<Rightarrow> bool" where
  "moved k r x w \<longleftrightarrow> advanced k r x w \<or> is_ok x \<and> settled k (r_id r) w"

lemma wp_write_settled:
  assumes "job_db {} q (w_db w)" and "r_id x = r_id q" and "r_version x = r_version q" and "same_policy q x"
    and "r_pending q = None" and "r_pending x = None" and "unat (r_version q) + 1 < 2 ^ 64"
    and "\<And>now d c. job_db {} (next_version now x) d \<Longrightarrow> Q (Inr (next_version now x)) (w\<lparr>w_env := c, w_db := d\<rparr>)"
  shows "wp (st_update (en_client en) x) Q w"
proof -
  obtain t c where c: "rp_now (en_rpc en) (w_env w) = (t, c)" by force
  obtain d where "sqlite_update x t (w_db w) = (Inr (next_version t x), d)" "job_db {} (next_version t x) d"
    using update_job_db [OF assms(1-4,7), of "{}"] assms(5,6) by blast
  then show ?thesis using assms(8) by (simp add: st_update_def wp_now wp_db [OF alone] client_simps store c)
qed

lemma notify_settled:
  assumes "job_db {} q (w_db w)" and "r_state q = Settled" and "r_pending q = None" and "unat (r_version q) + 1 < 2 ^ 64"
    and "int (length (w_sent w)) = k + int (length (r_txs q))"
    and "required q \<longrightarrow> r_buyback_done q \<and> validate_completed_buyback (en_crypto en) q = Inr ()"
  shows "wp (notify en q) (\<lambda>x w'. is_ok x \<and> settled k (r_id q) w') w"
proof -
  have wrote: "wp (st_update (en_client en) x) (\<lambda>x w'. is_ok x \<and> settled k (r_id q) w') w1"
    if "x = q\<lparr>r_notified := True\<rparr> \<or> x = q\<lparr>r_next_attempt_at := t\<rparr>" and "w_db w1 = w_db w" and "w_sent w1 = w_sent w" for x t w1
  proof (rule wp_write_settled [of q])
    fix now d c assume d: "job_db {} (next_version now x) d"
    have "required x = required q" "validate_completed_buyback (en_crypto en) (next_version now x) = validate_completed_buyback (en_crypto en) q"
      "required (next_version now x) = required q" "r_buyback_done (next_version now x) = r_buyback_done q"
      using that(1) by (auto simp: required_def validate_completed_buyback_def next_version_def)
    then show "is_ok (Inr (next_version now x)) \<and> settled k (r_id q) (w1\<lparr>w_env := c, w_db := d\<rparr>)"
      using d assms that unfolding settled_def by (intro conjI exI [of _ "next_version now x"]) auto
  qed (use assms(1-4) that in \<open>auto simp: same_policy_def\<close>)
  have written: "wp (io_bind (st_update (en_client en) (q\<lparr>r_notified := True\<rparr>)) (\<lambda>_. io_ret ()))
      (\<lambda>x w'. is_ok x \<and> settled k (r_id q) w') w1" if "w_db w1 = w_db w" "w_sent w1 = w_sent w" for w1
    unfolding wp_bind by (rule wp_mono [OF wrote [OF disjI1]]) (use that in \<open>auto split: sum.splits\<close>)
  have later: "wp (io_bind (now_do (en_client en)) (\<lambda>now. io_bind (st_update (en_client en) (q\<lparr>r_next_attempt_at := now + 30\<rparr>)) (\<lambda>_. io_ret ())))
      (\<lambda>x w'. is_ok x \<and> settled k (r_id q) w') w1" if "w_db w1 = w_db w" "w_sent w1 = w_sent w" for w1
    unfolding wp_bind [of "now_do _"] wp_now case_prod_beta sum.case wp_bind
    by (rule wp_mono [OF wrote [OF disjI2]]) (use that in \<open>auto split: sum.splits\<close>)
  show ?thesis
    unfolding notify_def Let_def wp_bind [of "emit _"] wp_emit sum.case
    using written later
    by (simp add: wp_attempt_rpc del: wp_bind split: option.split sum.split)
qed

lemma budget_validate_InrD:
  "budget_validate cr b = Inr u \<Longrightarrow> (\<exists>hk. parse_ss58 cr (bb_hotkey b) = Inr hk) \<and> MIN_STAKE_RAO \<le> bb_amount_rao b"
  by (auto simp: budget_validate_def result_simps split: if_splits)

text \<open>The two halves of a buyback: the purchase while there is no receipt, then what the policy says.\<close>

lemma purchase_progress:
  assumes "stored k r w" and "draft r q" and "r_state q = Swept" and "required q"
    and "tasks en hotkeys q \<le> tasks en hotkeys r" and "r_buyback q = None"
    and b: "r_buyback_budget q = Some b" "budget_validate (en_crypto en) b = Inr ()" "bb_amount_rao b \<le> allowance"
    and hk: "parse_ss58 (en_crypto en) (bb_hotkey b) = Inr hk" "MIN_STAKE_RAO \<le> bb_amount_rao b"
  shows "wp (step_auto_buyback en q) (advanced k r) w"
proof -
  have q: "r_pending r = None" using assms(2) by (simp add: draft_def)
  have "wp (send_journaled (en_client en) q (BuyStake (bb_netuid b) limit) (AddStakeLimit hk (bb_netuid b) (bb_amount_rao b) limit False)
      (en_treasury en)) (advanced k r) w'" if "stored k r w'" for limit w'
    by (rule send_progress [OF that assms(2)])
      (use assms(3-6) b may_take [OF assms(2), of "BuyStake _ _"] in \<open>auto simp: expects_def\<close>)
  then show ?thesis
    unfolding step_auto_buyback_def Let_def b(1,2) assms(6) ok_or_simps wp_bind_lift sum.case option.case
    by (intro wp_yields [OF yields_spendable [OF q] assms(1)])
      (use hk b(3) in \<open>auto simp: strict_buyback_amount_def send_def wp_bind_lift simp del: wp_bind
        intro!: wp_yields [OF yields_rpc [OF q prices]]\<close>)
qed

lemma keep_progress:
  assumes "stored k r w" and "draft r q" and "r_state q = Swept" and "required q" and "\<not> r_buyback_done q"
    and "tasks en hotkeys q \<le> tasks en hotkeys r" and "r_buyback q = Some rc"
    and "r_buyback_budget q = Some b" and "bb_destroy b = Keep"
    and "br_tao_spent rc = bb_amount_rao b" and "br_netuid rc = bb_netuid b" and "br_alpha_bought rc \<noteq> 0"
    and "tr_block_hash (br_stake_tx rc) \<noteq> []"
  shows "wp (io_bind (st_update (en_client en) (q\<lparr>r_buyback_done := True\<rparr>)) (\<lambda>_. io_ret True)) (advanced k r) w"
proof -
  have q: "servable en takes who allowance q" using assms(2) by (simp add: draft_def)
  have d: "draft r (q\<lparr>r_buyback_done := True\<rparr>)"
    using assms(2,3,7-13) servableD(2-4) [OF q]
    by (auto simp: draft_def same_policy_def purchase_ok_def intro!: servable_fields [OF q])
  have "tasks en hotkeys (q\<lparr>r_buyback_done := True\<rparr>) < tasks en hotkeys q"
    using assms(3-5,7) by (auto simp: task_defs Let_def)
  then have t: "tasks en hotkeys (q\<lparr>r_buyback_done := True\<rparr>) < tasks en hotkeys r" using assms(6) by simp
  show ?thesis
    unfolding wp_bind
    by (rule store_progress [OF assms(1) d t]) (use d t assms(3) in \<open>auto simp: advanced_def work_def draft_def intro!: exI [of _ "next_version _ _"]\<close>)
qed

lemma buyback_progress:
  assumes "stored k r w" and "draft r q" and "r_state q = Swept" and "required q" and "\<not> r_buyback_done q"
    and "tasks en hotkeys q \<le> tasks en hotkeys r"
  shows "wp (step_auto_buyback en q) (advanced k r) w"
proof -
  have q: "servable en takes who allowance q" using assms(2) by (simp add: draft_def)
  obtain b where b: "r_buyback_budget q = Some b" "budget_validate (en_crypto en) b = Inr ()" "bb_amount_rao b \<le> allowance"
    "purchase_ok b q" using servableD(7,8) [OF q] assms(4) by blast
  obtain hk where hk: "parse_ss58 (en_crypto en) (bb_hotkey b) = Inr hk" "MIN_STAKE_RAO \<le> bb_amount_rao b"
    using budget_validate_InrD [OF b(2)] by blast
  show ?thesis
  proof (cases "r_buyback q")
    case None
    then show ?thesis by (rule purchase_progress [OF assms(1-4,6) _ b(1-3) hk])
  next
    case (Some rc)
    then have rc: "br_tao_spent rc = bb_amount_rao b" "br_netuid rc = bb_netuid b" "br_alpha_bought rc \<noteq> 0" "br_destroy_tx rc = None"
      "tr_block_hash (br_stake_tx rc) \<noteq> []"
      using b(4) assms(5) by (auto simp: purchase_ok_def)
    show ?thesis
    proof (cases "bb_destroy b = Keep")
      case True
      then show ?thesis
        using keep_progress [OF assms Some b(1) True rc(1-3,5)] Some rc b(1,2)
        by (simp add: step_auto_buyback_def wp_bind_lift Let_def del: wp_bind)
    next
      case False
      have "wp (send_journaled (en_client en) q (Destroy (bb_netuid b) (bb_destroy b = Recycle))
          (destroy_call (bb_destroy b) hk (bb_netuid b) (br_alpha_bought rc)) (en_treasury en)) (advanced k r) w"
        by (rule send_progress [OF assms(1,2)])
          (use Some False assms(3-6) b may_take [OF assms(2), of "Destroy _ _"] in
            \<open>auto simp: expects_def destroy_call_def split: destroy.splits\<close>)
      then show ?thesis
        using False Some rc hk b(1,2) by (simp add: step_auto_buyback_def send_def wp_bind_lift Let_def del: wp_bind)
    qed
  qed
qed

lemma completed_buyback:
  assumes "servable en takes who allowance q" and "required q" and "r_buyback_done q"
  shows "validate_completed_buyback (en_crypto en) q = Inr ()"
proof -
  obtain b where b: "r_buyback_budget q = Some b" "budget_validate (en_crypto en) b = Inr ()" "purchase_ok b q"
    using servableD(7,8) [OF assms(1)] assms(2) by blast
  then show ?thesis
    using assms(3) by (auto simp: validate_completed_buyback_def purchase_ok_def split: option.splits if_splits)
qed

lemma closing_progress:
  assumes "stored k r w" and "draft r q" and "r_state q = Swept" and "tasks en hotkeys q \<le> tasks en hotkeys r"
    and "required q \<longrightarrow> r_buyback_done q"
  shows "wp (io_bind (io_lift (transition Settled q)) (\<lambda>r. io_bind (st_update (en_client en) r)
           (\<lambda>r. io_bind (notify en r) (\<lambda>_. io_ret True)))) (moved k r) w"
proof -
  obtain x where x: "transition Settled q = Inr x" "draft r x" "r_state x = Settled"
    using draft_transition [OF assms(2), of Settled] assms(3) by auto
  have same: "required x = required q" "r_buyback_done x = r_buyback_done q"
    using x(1) by (auto simp: result_simps required_def)
  have t: "tasks en hotkeys x < tasks en hotkeys r"
    using x(3) assms(3,4) by (auto simp: tasks_def closing_tasks_def Let_def)
  have v: "required (next_version now x) = required x" "r_buyback_done (next_version now x) = r_buyback_done x" for now
    by (simp_all add: next_version_def required_def)
  show ?thesis
    unfolding x(1) wp_bind_lift sum.case wp_bind [of "st_update _ _"]
  proof (rule store_progress [OF assms(1) x(2) t], unfold sum.case)
    fix now c d assume s: "stored k (next_version now x) (w\<lparr>w_env := c, w_db := d\<rparr>)"
    let ?x = "next_version now x"
    have "r_pending ?x = None" "r_id ?x = r_id r" using x(2) by (simp_all add: draft_def)
    moreover have "required ?x \<longrightarrow> r_buyback_done ?x \<and> validate_completed_buyback (en_crypto en) ?x = Inr ()"
      using completed_buyback [of ?x] x(2) assms(5) same v by (auto simp: draft_def)
    ultimately have "wp (notify en ?x) (\<lambda>y w'. is_ok y \<and> settled k (r_id r) w') (w\<lparr>w_env := c, w_db := d\<rparr>)"
      using notify_settled [of ?x "w\<lparr>w_env := c, w_db := d\<rparr>" k] s x(3) by (simp add: stored_def)
    then show "wp (io_bind (notify en ?x) (\<lambda>_. io_ret True)) (moved k r) (w\<lparr>w_env := c, w_db := d\<rparr>)"
      unfolding wp_bind by (rule wp_mono) (auto simp: moved_def split: sum.splits)
  qed
qed

lemma advanced_moved: "wp m (advanced k r) w \<Longrightarrow> wp m (moved k r) w"
  by (auto simp: moved_def elim: wp_mono)

lemma settle_progress:
  assumes "stored k r w" and "draft r q" and "r_state q = Swept" and "tasks en hotkeys q \<le> tasks en hotkeys r"
  shows "wp (settle en q) (moved k r) w"
proof -
  have q: "servable en takes who allowance q" using assms(2) by (simp add: draft_def)
  obtain auto where auto: "r_auto_required q = Some auto" using servableD(6) [OF q] by blast
  then have a: "auto = required q" by (auto simp: required_def)
  have b: "required q \<Longrightarrow> r_buyback_budget q \<noteq> None" using servableD(8) [OF q] by auto
  show ?thesis
  proof (cases "required q \<and> \<not> r_buyback_done q")
    case True
    then have "settle en q = step_auto_buyback en q"
      using auto a b by (auto simp: settle_def bind_value)
    then show ?thesis using advanced_moved [OF buyback_progress [OF assms(1-3) _ _ assms(4)]] True by simp
  next
    case False
    then have "settle en q = io_bind (io_lift (transition Settled q)) (\<lambda>r. io_bind (st_update (en_client en) r)
        (\<lambda>r. io_bind (notify en r) (\<lambda>_. io_ret True)))"
      using auto a b completed_buyback [OF q] by (auto simp: settle_def bind_value)
    then show ?thesis using closing_progress [OF assms] False by simp
  qed
qed

text \<open>The consolidation loop sends one transaction, or leaves nothing to move.\<close>

lemma swept_hotkey:
  assumes "servable en takes who allowance r" and "r_consolidated r < length (r_swept_positions r)"
  obtains hk where "parse_ss58 (en_crypto en) (fst (r_swept_positions r ! r_consolidated r)) = Inr hk"
  using servableD(4) [OF assms(1)] assms(2) by (auto simp: list_all_length case_prod_beta is_ok_iff)

lemma consolidate_send:
  assumes "stored k r w" and "r_pending r = None" and "r_state r = Swept" and "c_consolidate (en_cfg en)"
    and "r_consolidated r < length (r_swept_positions r)" and Q: "\<And>x w'. advanced k r x w' \<Longrightarrow> Q (case x of Inl e \<Rightarrow> Inl e | Inr b \<Rightarrow> Inr (Inl b)) w'"
  shows "wp (io_bind (send en r (Consolidate (ss58 (en_crypto en) hk))
      (MoveStake hk (c_treasury_hotkey (en_cfg en)) (r_netuid r) live) (en_treasury en)) (\<lambda>b. io_ret (Inl b))) Q w"
proof -
  note d = draft_self [OF assms(1,2)]
  show ?thesis
    unfolding wp_bind send_def
    by (rule wp_mono [OF send_progress [OF assms(1) d]])
      (use assms(3-5) Q [of "Inl _"] Q [of "Inr _"] may_take [OF d, of "Consolidate _"] in \<open>auto simp: expects_def split: sum.splits\<close>)
qed

lemma consolidate_progress:
  assumes "stored k r w" and "r_pending r = None" and "r_state r = Swept" and "c_consolidate (en_cfg en)"
    and "length (r_swept_positions r) - r_consolidated r \<le> n"
  shows "wp (consolidate_loop n en r) (\<lambda>x w'. case x of
      Inr (Inr q) \<Rightarrow> stored k q w' \<and> r_pending q = None \<and> r_state q = Swept \<and> r_id q = r_id r \<and>
        tasks en hotkeys q \<le> tasks en hotkeys r
    | _ \<Rightarrow> advanced k r x w') w"
  using assms
proof (induction n arbitrary: r w)
  case 0
  then show ?case by simp
next
  case (Suc n)
  note d = draft_self [OF Suc.prems(1,2)]
  show ?case
  proof (cases "r_consolidated r < length (r_swept_positions r)")
    case True
    let ?r = "r\<lparr>r_consolidated := r_consolidated r + 1\<rparr>"
    let ?Q = "\<lambda>x w'. case x of
      Inr (Inr q) \<Rightarrow> stored k q w' \<and> r_pending q = None \<and> r_state q = Swept \<and> r_id q = r_id r \<and>
        tasks en hotkeys q \<le> tasks en hotkeys r
    | _ \<Rightarrow> advanced k r x w'"
    obtain hk where hk: "parse_ss58 (en_crypto en) (fst (r_swept_positions r ! r_consolidated r)) = Inr hk"
      using d True by (auto simp: draft_def elim: swept_hotkey)
    have q: "draft r ?r" "tasks en hotkeys ?r < tasks en hotkeys r"
      using d Suc.prems(3,4) True servableD(2-4) [of en takes who allowance r]
      by (auto simp: draft_def same_policy_def task_defs Let_def intro!: servable_same [of en takes who allowance r])
    have skip: "wp (io_bind (st_update (en_client en) ?r) (consolidate_loop n en)) ?Q w'" if s: "stored k r w'" for w'
      unfolding wp_bind
    proof (rule store_progress [OF s q], unfold sum.case)
      fix now c' d' assume s': "stored k (next_version now ?r) (w'\<lparr>w_env := c', w_db := d'\<rparr>)"
      have f: "r_state (next_version now ?r) = Swept" "r_pending (next_version now ?r) = None"
        "length (r_swept_positions (next_version now ?r)) - r_consolidated (next_version now ?r) \<le> n"
        using Suc.prems(2,3,5) by (simp_all add: next_version_def)
      show "wp (consolidate_loop n en (next_version now ?r)) ?Q (w'\<lparr>w_env := c', w_db := d'\<rparr>)"
        by (rule wp_mono [OF Suc.IH [OF s' f(2,1) Suc.prems(4) f(3)]])
          (use q(2) Suc.prems(2) in \<open>auto simp: advanced_def work_def split: sum.splits\<close>)
    qed
    have move: "wp (io_bind (send en r (Consolidate (ss58 (en_crypto en) hk))
        (MoveStake hk (c_treasury_hotkey (en_cfg en)) (r_netuid r) live) (en_treasury en)) (\<lambda>b. io_ret (Inl b))) ?Q w'"
      if "stored k r w'" for live w'
      by (rule consolidate_send [OF that Suc.prems(2-4) True]) (auto simp: advanced_def split: sum.splits)
    have "yields k r (if hk = c_treasury_hotkey (en_cfg en) then io_ret 0
        else rpc_do (rp_alpha_of (en_rpc en) hk (treasury_account en) (r_netuid r))) (\<lambda>_. True)"
      by (simp add: yields_ret yields_rpc [OF Suc.prems(2) stakes [OF Suc.prems(4)]])
    then show ?thesis
      using True hk skip move
      by (auto simp: wp_bind_lift Let_def simp del: wp_bind intro!: wp_yields [OF _ Suc.prems(1)])
  qed (use Suc.prems in simp)
qed

lemma moved_mono:
  "moved k q x w \<Longrightarrow> r_id q = r_id r \<Longrightarrow> work en hotkeys q \<le> work en hotkeys r \<Longrightarrow> moved k r x w"
  by (auto simp: moved_def advanced_def)

text \<open>What \<open>step_swept\<close> does after the consolidation.\<close>

definition after_moves :: "payment_record \<Rightarrow> ('c, sqlite_db, bool) act" where
  "after_moves r =
     (if \<not> r_dust_returned r \<and> (c_return_dust (en_cfg en) \<or> 0 < r_detected_tao r)
      then io_bind (io_lift (wallet_of en r)) (\<lambda>wallet.
           io_bind (rpc_do (rp_free_balance (en_rpc en) (wallet_account_id (en_crypto en) wallet))) (\<lambda>free.
           if 0 < free
           then send en r ReturnDust (TransferAll (treasury_account en)) (wl_keypair wallet)
           else settle en (r\<lparr>r_dust_returned := True\<rparr>)))
      else settle en r)"

lemma step_swept_eq:
  "step_swept en r = io_bind (if c_consolidate (en_cfg en)
      then consolidate_loop (length (r_swept_positions r) - r_consolidated r) en r else io_ret (Inr r))
    (\<lambda>x. case x of Inl b \<Rightarrow> io_ret b | Inr r \<Rightarrow> after_moves r)"
  unfolding step_swept_def after_moves_def ..

lemma dust_progress:
  assumes "stored k r w" and "r_pending r = None" and "r_state r = Swept"
  shows "wp (after_moves r) (moved k r) w"
proof -
  note d = draft_self [OF assms(1,2)]
  obtain wl where wl: "wallet_of en r = Inr wl" "wallet_account_id (en_crypto en) wl = who" using wallet_ready [OF d] by blast
  let ?r = "r\<lparr>r_dust_returned := True\<rparr>"
  have q: "draft r ?r" "tasks en hotkeys ?r \<le> tasks en hotkeys r"
    using d assms(3) servableD(2-4) [of en takes who allowance r]
    by (auto simp: draft_def same_policy_def task_defs Let_def intro!: servable_same [of en takes who allowance r])
  have "wp (send en r ReturnDust (TransferAll (treasury_account en)) kp) (moved k r) w'"
    if "stored k r w'" "dust_left (en_cfg en) r" for kp w'
    unfolding send_def
    by (rule advanced_moved, rule send_progress [OF that(1) d])
      (use assms(3) that(2) may_take [OF d, of ReturnDust] in \<open>auto simp: expects_def dust_left_def\<close>)
  moreover have "wp (settle en ?r) (moved k r) w'" if "stored k r w'" for w'
    by (rule settle_progress [OF that q(1)]) (use assms(3) q in simp_all)
  moreover have "wp (settle en r) (moved k r) w" by (rule settle_progress [OF assms(1) d assms(3)]) simp
  ultimately show ?thesis
    using wl by (auto simp: after_moves_def bind_value dust_left_def simp del: wp_bind
        intro!: wp_yields [OF yields_rpc [OF assms(2) balances] assms(1)])
qed

lemma swept_progress:
  assumes "stored k r w" and "r_pending r = None" and "r_state r = Swept"
  shows "wp (step_swept en r) (moved k r) w"
proof (cases "c_consolidate (en_cfg en)")
  case True
  have c: "wp (consolidate_loop (length (r_swept_positions r) - r_consolidated r) en r) (\<lambda>x w'. case x of
      Inr (Inr q) \<Rightarrow> stored k q w' \<and> r_pending q = None \<and> r_state q = Swept \<and> r_id q = r_id r \<and>
        tasks en hotkeys q \<le> tasks en hotkeys r
    | _ \<Rightarrow> advanced k r x w') w"
    by (rule consolidate_progress [OF assms True]) simp
  have rest: "wp (after_moves q) (moved k r) w'"
    if "stored k q w'" "r_pending q = None" "r_state q = Swept" "r_id q = r_id r" "tasks en hotkeys q \<le> tasks en hotkeys r" for q w'
    by (rule wp_mono [OF dust_progress [OF that(1-3)]]) (use that assms(2) in \<open>auto simp: work_None elim!: moved_mono\<close>)
  show ?thesis
    unfolding step_swept_eq if_P [OF True] wp_bind [of "consolidate_loop _ _ _"]
    by (rule wp_mono [OF c]) (auto simp: moved_def [of _ _ "Inl _"] moved_def [of _ _ "Inr (_ :: bool)"] advanced_def rest split: sum.splits)
next
  case False
  then show ?thesis using dust_progress [OF assms] by (simp add: step_swept_eq bind_value del: wp_bind)
qed

text \<open>After an error nothing more is recorded: the transaction is under way.\<close>

lemma guarded_progress:
  assumes "wp m (moved k r) w"
  shows "wp (or_record_failure en (r_id r) m) (moved k r) w"
proof -
  have fail: "wp (step_failed en (r_id r) e) (moved k r) w'" if a: "advanced k r (Inl e :: bool res) w'" for e w'
  proof -
    obtain q where q: "stored k q w'" "r_id q = r_id r" "r_pending q \<noteq> None"
      using a by (auto simp: advanced_def)
    then have "sqlite_get (r_id r) (w_db w') = Inr (Some q)"
      by (simp add: stored_def job_db_def sqlite_get_def db_content_def)
    then show ?thesis
      using q(3) a by (simp add: step_failed_def get_or_not_found_def st_get_def wp_db [OF alone] store moved_def advanced_def)
  qed
  show ?thesis
    unfolding or_record_failure_def wp_bind [of "io_attempt m"] wp_attempt sum.case
    by (rule wp_mono [OF assms]) (auto simp: moved_def fail simp del: wp_bind split: sum.splits error.splits)
qed

section \<open>Passes\<close>

text \<open>What is left until the job is settled: its work, and enquiries about a transaction under way.\<close>

definition cost :: "payment_record \<Rightarrow> 'c \<Rightarrow> nat" where
  "cost r c = (patience + 1) * work en hotkeys r + (case r_pending r of None \<Rightarrow> 0 | Some e \<Rightarrow> delay e c)"

definition closer :: "int \<Rightarrow> payment_record \<Rightarrow> nat \<Rightarrow> ('c, sqlite_db) world \<Rightarrow> bool" where
  "closer k r n w \<longleftrightarrow> settled k (r_id r) w \<or>
     (\<exists>q. stored k q w \<and> r_id q = r_id r \<and> r_state q \<noteq> Settled \<and> cost q (w_env w) < n)"

lemma cost_bound: "stored k r w \<Longrightarrow> cost r (w_env w) \<le> (patience + 1) * work en hotkeys r + patience"
  using patient by (auto simp: cost_def stored_def split: option.split)

lemma work_cost: "stored k q w \<Longrightarrow> work en hotkeys q < n \<Longrightarrow> cost q (w_env w) < (patience + 1) * n"
proof -
  assume "stored k q w" and n: "work en hotkeys q < n"
  then have "cost q (w_env w) < (patience + 1) * (work en hotkeys q + 1)" using cost_bound [of k q w] by simp
  also have "\<dots> \<le> (patience + 1) * n" using n by (intro mult_le_mono2) simp
  finally show ?thesis .
qed

lemma moved_closer: "r_pending r = None \<Longrightarrow> moved k r x w \<Longrightarrow> closer k r (cost r c) w"
  using work_cost by (fastforce simp: moved_def advanced_def closer_def cost_def)

lemma announce_servable: "servable en takes who allowance q \<Longrightarrow> announce_if_final q = io_ret ()"
  using servableD(1) by (fastforce simp: announce_if_final_def)

lemma found_progress:
  assumes "stored k r w" and "r_pending r = Some e" and "h \<noteq> []" and "confirms (pd_action e) (pd_amount e) s"
    and "w_db w1 = w_db w" and "w_sent w1 = w_sent w" and "ready None (w_env w1)"
  shows "\<exists>q. apply_tx r (pending_tx_ref e h) s = Inr q \<and>
     wp (st_update (en_client en) q) (\<lambda>x w'. \<exists>y. x = Inr y \<and> servable en takes who allowance y \<and>
        closer k r (cost r (w_env w)) w') w1"
proof -
  have r: "servable en takes who allowance r" "expects en hotkeys r (pd_action e) (pd_amount e)"
    "unat (r_version r) + work en hotkeys r < 2 ^ 63" "int (length (w_sent w)) = k + int (length (r_txs r)) + 1"
    using assms(1,2) by (simp_all add: stored_def)
  obtain t where t: "pd_reservation e = Some t" using assms(1,2) by (auto simp: stored_def)
  have "forward en takes who allowance hotkeys r (pending_tx_ref e h) s"
    by (rule forward_expected [OF finite_hotkeys r(1) assms(2) r(2) assms(4)])
      (use assms(3) in \<open>simp_all add: pending_tx_ref_def\<close>)
  then obtain q where q: "apply_tx r (pending_tx_ref e h) s = Inr q" "servable en takes who allowance q"
    "tasks en hotkeys q < tasks en hotkeys r" "r_txs q = r_txs r @ [pending_tx_ref e h]" "r_state q \<noteq> Settled"
    unfolding forward_def by blast
  note frame = apply_tx_pending [OF q(1)] apply_tx_policy [OF q(1)]
  have "wp (st_update (en_client en) q) (\<lambda>x w'. \<exists>y. x = Inr y \<and> servable en takes who allowance y \<and>
      closer k r (cost r (w_env w)) w') w1"
  proof (rule wp_write [where r = r and held = "claims r" and held' = "{}" and x = None])
    fix now c d assume d: "job_db {} (next_version now q) d" "ready None c"
    have v: "unat (r_version r + 1) = unat (r_version r) + 1" using r(3) by (simp add: unat_word_ariths)
    have s: "stored k (next_version now q) (w1\<lparr>w_env := c, w_db := d\<rparr>)"
      using d q frame r(3,4) v assms(6) by (simp add: stored_def work_def assms(2))
    have "work en hotkeys (next_version now q) < work en hotkeys r" using q(3) frame by (simp add: work_def assms(2))
    then have "cost (next_version now q) c < cost r (w_env w)"
      using less_le_trans [OF work_cost [OF s]] by (simp add: cost_def [of r])
    then have "closer k r (cost r (w_env w)) (w1\<lparr>w_env := c, w_db := d\<rparr>)"
      using s q(5) frame unfolding closer_def by (intro disjI2 exI [of _ "next_version now q"]) simp
    then show "\<exists>y. Inr (next_version now q) = Inr y \<and> servable en takes who allowance y \<and>
        closer k r (cost r (w_env w)) (w1\<lparr>w_env := c, w_db := d\<rparr>)" using q(2) by simp
  qed (use assms frame r(3) t in \<open>auto simp: stored_def claims_def journal_claim_def\<close>)
  then show ?thesis using q(1) by blast
qed

lemma resolve_progress:
  assumes "stored k r w" and "r_pending r = Some e"
  shows "wp (resolve_pending en r e) (\<lambda>_. closer k r (cost r (w_env w))) w"
proof -
  obtain x c where x: "rp_find_pending (en_rpc en) e (w_env w) = (x, c)" by force
  have r: "ready (Some e) (w_env w)" "expects en hotkeys r (pd_action e) (pd_amount e)"
    using assms by (simp_all add: stored_def)
  have f: "wp (rpc_do (rp_find_pending (en_rpc en) e)) Q w = Q x (w\<lparr>w_env := c\<rparr>)" for Q by (simp add: wp_rpc x)
  consider (found) h s where "x = Inr (Included h s)" "h \<noteq> []" "confirms (pd_action e) (pd_amount e) s" "ready None c"
    | (waiting) "x = Inr Wait \<or> (\<exists>err. x = Inl err)" "ready (Some e) c" "delay e c < delay e (w_env w)"
    using finds [OF r(1) x] by blast
  then show ?thesis
  proof cases
    case waiting
    then have "closer k r (cost r (w_env w)) (w\<lparr>w_env := c\<rparr>)"
      using assms expects_state [OF r(2)] by (auto simp: closer_def stored_def cost_def intro!: exI [of _ r])
    then show ?thesis
      using waiting(1) assms(2) by (auto simp: resolve_pending_def reconcile_journaled_def client_simps f split: sum.split)
  next
    case found
    obtain q where q: "apply_tx r (pending_tx_ref e h) s = Inr q"
      "wp (st_update (en_client en) q) (\<lambda>x w'. \<exists>y. x = Inr y \<and> servable en takes who allowance y \<and>
        closer k r (cost r (w_env w)) w') (w\<lparr>w_env := c\<rparr>)"
      using found_progress [OF assms found(2,3), of "w\<lparr>w_env := c\<rparr>"] found(4) by auto
    moreover have "\<not> es_failed s" using found(3) by (simp add: confirms_def)
    ultimately show ?thesis
      using found(1) assms(2)
      by (auto simp: resolve_pending_def reconcile_journaled_def client_simps f included_record_def bind_value
          announce_servable elim!: wp_mono)
  qed
qed

lemma step_progress:
  assumes "stored k r w" and "r_state r \<noteq> Settled"
  shows "wp (step en r ps) (\<lambda>_. closer k r (cost r (w_env w))) w"
proof -
  have r: "servable en takes who allowance r" using assms(1) by (simp add: stored_def)
  note guards = servableD(2,5,6) [OF r]
  have policy: "r_auto_required r = Some True \<longrightarrow> r_buyback_budget r \<noteq> None"
    using servableD(8) [OF r] by (auto simp: required_def)
  show ?thesis
  proof (cases "r_pending r")
    case (Some e)
    then show ?thesis using guards resolve_progress [OF assms(1) Some] by (auto simp: step_def)
  next
    case None
    have mono: "wp m (moved k r) w \<Longrightarrow> wp m (\<lambda>_. closer k r (cost r (w_env w))) w" for m :: "('c, sqlite_db, bool) act"
      by (erule wp_mono) (rule moved_closer [OF None])
    note parts = guarded_progress [OF advanced_moved [OF detected_progress [OF assms(1) None]]]
      guarded_progress [OF advanced_moved [OF funded_progress [OF assms(1) None]]]
      guarded_progress [OF swept_progress [OF assms(1) None]]
    consider "r_state r = Detected" | "r_state r = Funded" | "r_state r = Swept" using servableD(1) [OF r] assms(2) by auto
    then show ?thesis
      by cases (use None guards policy in \<open>auto simp: step_def intro!: mono parts\<close>)
  qed
qed

lemma tick_loop_skips:
  "\<forall>q \<in> set recs. skip_record t q \<Longrightarrow> tick_loop e t ps (recs @ rest) n = tick_loop e t ps rest n"
  by (induction recs arbitrary: n) auto

lemma tick_progress:
  assumes "stored k r w" and "r_state r \<noteq> Settled"
  shows "wp (tick en) (\<lambda>_. closer k r (cost r (w_env w))) w"
proof -
  let ?states = "[Pending, Detected, Funded, Swept, Settled, Failed]"
  have r: "job_db (claims r) r (w_db w)" "servable en takes who allowance r" "ready (r_pending r) (w_env w)"
    using assms(1) by (simp_all add: stored_def)
  have state: "r_state r = Detected \<or> r_state r = Funded \<or> r_state r = Swept" using servableD(1) [OF r(2)] assms(2) by auto
  then obtain xs ys where xs: "sqlite_list ?states (w_db w) = Inr (xs @ r # ys)"
    "\<forall>q \<in> set (xs @ ys). r_pending q = None \<and> (r_state q = Failed \<or> r_state q = Settled \<and> r_notified q)"
    using job_db_list [OF r(1), of ?states] by auto
  have who: "pending_accounts (en_crypto en) (xs @ r # ys) = []"
  proof -
    have "r_state q \<noteq> Pending" if "q \<in> set (xs @ r # ys)" for q
    proof (cases "q = r")
      case False
      then show ?thesis using that bspec [OF xs(2), of q] by auto
    qed (use state in auto)
    then have "filter (\<lambda>q. r_state q = Pending \<and> r_pending q = None) (xs @ r # ys) = []"
      unfolding filter_empty_conv by blast
    then show ?thesis by (simp only: pending_accounts_def map_filter_simps)
  qed
  have skip: "\<forall>q \<in> set xs. skip_record t q" "\<forall>q \<in> set ys. skip_record t q" "\<not> skip_record t r" for t
    using xs(2) state servableD(3) [OF r(2)] by (auto simp: skip_record_def)
  have loop: "wp (tick_loop en t [] (xs @ r # ys) 0) (\<lambda>_. closer k r (cost r (w_env w))) (w\<lparr>w_env := c\<rparr>)"
    if c: "ready (r_pending r) c" "\<And>e. delay e c \<le> delay e (w_env w)" for t c
  proof -
    have "stored k r (w\<lparr>w_env := c\<rparr>)" using assms(1) c(1) by (simp add: stored_def)
    note step = step_progress [OF this assms(2), of "[]"]
    have "cost r c \<le> cost r (w_env w)" using c(2) by (simp add: cost_def split: option.split)
    then have "closer k r (cost r c) w' \<Longrightarrow> closer k r (cost r (w_env w)) w'" for w'
      by (auto simp: closer_def intro: less_le_trans)
    then have "wp (step en r []) (\<lambda>_. closer k r (cost r (w_env w))) (w\<lparr>w_env := c\<rparr>)"
      using step by (auto elim: wp_mono)
    moreover have "tick_loop en t [] ys n = io_ret n" for n using tick_loop_skips [OF skip(2), of en t "[]" "[]"] by simp
    ultimately show ?thesis using skip(3) by (simp add: tick_loop_skips [OF skip(1)])
  qed
  show ?thesis
    unfolding tick_def st_list_def wp_bind [of "db_do _ _"] wp_db [OF alone] store
    by (simp add: xs(1) who Let_def bind_value wp_bind [of "now_do _"] del: wp_bind)
      (rule wp_clock [OF r(3)], simp add: loop)
qed

text \<open>Passes until the job is settled.\<close>

lemma ticks_settle:
  "stored k r w \<Longrightarrow> r_state r \<noteq> Settled \<Longrightarrow>
   \<exists>n \<le> cost r (w_env w). settled k (r_id r) (((\<lambda>w. snd (tick en w)) ^^ n) w)"
proof (induction "cost r (w_env w)" arbitrary: r w rule: less_induct)
  case less
  let ?w = "snd (tick en w)"
  have "closer k r (cost r (w_env w)) ?w" using tick_progress [OF less.prems] by (simp add: wp_def)
  then consider "settled k (r_id r) ?w"
    | q where "stored k q ?w" "r_id q = r_id r" "r_state q \<noteq> Settled" "cost q (w_env ?w) < cost r (w_env w)"
    by (auto simp: closer_def)
  then show ?case
  proof cases
    case 1
    have "0 < cost r (w_env w)"
    proof -
      have "0 < tasks en hotkeys r"
        using less.prems servableD(1) by (fastforce simp: stored_def tasks_def closing_tasks_def Let_def)
      then have "0 < work en hotkeys r" by (simp add: work_def)
      then show ?thesis by (simp add: cost_def)
    qed
    then show ?thesis using 1 by (intro exI [of _ 1]) simp
  next
    case (2 q)
    then obtain n where "n \<le> cost q (w_env ?w)" "settled k (r_id r) (((\<lambda>w. snd (tick en w)) ^^ n) ?w)"
      using less.hyps [of q ?w] by auto
    then show ?thesis using 2(4) by (intro exI [of _ "Suc n"]) (simp add: funpow_swap1 del: funpow.simps add: funpow_Suc_right)
  qed
qed

lemma job_settled:
  assumes "servable en takes who allowance r" and "r_state r \<noteq> Settled" and "r_pending r = None"
    and "job_db {} r (w_db w)" and "ready None (w_env w)" and "unat (r_version r) + 2 * tasks en hotkeys r < 2 ^ 63"
  shows "\<exists>n q w'. n \<le> 2 * (patience + 1) * tasks en hotkeys r \<and> w' = ((\<lambda>w. snd (tick en w)) ^^ n) w \<and>
     db_content (w_db w') (r_id r) = Some q \<and> r_state q = Settled \<and> r_pending q = None \<and> db_held (w_db w') = {} \<and>
     (required q \<longrightarrow> r_buyback_done q \<and> validate_completed_buyback (en_crypto en) q = Inr ()) \<and>
     length (w_sent w') + length (r_txs r) = length (w_sent w) + length (r_txs q)"
proof -
  let ?k = "int (length (w_sent w)) - int (length (r_txs r))"
  have "stored ?k r w" using assms by (simp add: stored_def work_None)
  then obtain n where "n \<le> cost r (w_env w)" "settled ?k (r_id r) (((\<lambda>w. snd (tick en w)) ^^ n) w)"
    using ticks_settle assms(2) by blast
  then show ?thesis
    using assms(3) by (fastforce simp: settled_def cost_def work_None job_db_def algebra_simps)
qed

end

section \<open>Property\<close>

text \<open>C7: a job gets done.  On a chain that executes what it is handed, whatever replies are lost
  on the way, repeated passes of the engine settle every job that needs no operator within a
  number of passes that its remaining tasks bound: the stored record is settled, no signer
  stays reserved, a required buyback is complete according to its budget, and every receipt on
  the record stands for exactly one broadcast.\<close>

theorem job_settles:
  assumes "cooperative en ready delay patience takes who hotkeys allowance"
    and "servable en takes who allowance r" and "r_state r \<noteq> Settled" and "r_pending r = None"
    and "job_db {} r (w_db w)" and "ready None (w_env w)" and "unat (r_version r) + 2 * tasks en hotkeys r < 2 ^ 63"
  shows "\<exists>n q w'. n \<le> 2 * (patience + 1) * tasks en hotkeys r \<and> w' = ((\<lambda>w. snd (tick en w)) ^^ n) w \<and>
     db_content (w_db w') (r_id r) = Some q \<and> r_state q = Settled \<and> r_pending q = None \<and> db_held (w_db w') = {} \<and>
     (required q \<longrightarrow> r_buyback_done q \<and> validate_completed_buyback (en_crypto en) q = Inr ()) \<and>
     length (w_sent w') + length (r_txs r) = length (w_sent w) + length (r_txs q)"
  by (rule cooperative.job_settled [OF assms])

end
