(* ===== verification/Simulated_Chain.thy ===== *)
theory Simulated_Chain
  imports Engine_Progress
begin

text \<open>
  The simulated chain of the engine's own tests, \<open>SimulatedChain\<close> in the test module
  \<open>journal_rpc_tests\<close> of \<open>src/src/engine.rs\<close>: it executes every transaction, loses every reply to
  a broadcast, and reports what was executed last when asked about a transaction.  It is a
  \<open>cooperative\<close> chain, so the scenario of the test \<open>engine_ticks_complete_after_each_lost_response_and_restart\<close>
  is an instance of \<open>job_settles\<close>, here for any wallet, treasury and budget.
\<close>

record simulated_chain =
  sim_broadcasts :: nat
  sim_result :: event_summary

text \<open>What the tests leave to the system: clock, tokens and random numbers, and whatever an
  operation would do whose fake panics (\<open>os_alpha_of\<close>, \<open>os_positions\<close>, \<open>os_unexpected\<close>).\<close>

record 'c system =
  os_now :: "'c \<Rightarrow> u64 \<times> 'c"
  os_uuid :: "'c \<Rightarrow> string \<times> 'c"
  os_random :: "nat \<Rightarrow> 'c \<Rightarrow> u8 list \<times> 'c"
  os_webhook :: "string \<Rightarrow> payment_status \<Rightarrow> unit res"
  os_alpha_of :: "u64 res"
  os_positions :: "(account_id \<times> stake_position list) list res"
  os_unexpected :: event_summary

definition no_summary :: event_summary where
  "no_summary = \<lparr>es_names = [], es_failed = False, es_stake_added = None, es_alpha_destroyed = None,
     es_stake_moved_tao = None, es_transferred = None\<rparr>"

definition sim_summary :: "event_summary \<Rightarrow> chain_call \<Rightarrow> event_summary" where
  "sim_summary unexpected call =
     (case call of
        TransferTao _ _ \<Rightarrow> no_summary
      | TransferStake _ _ _ _ \<Rightarrow> no_summary\<lparr>es_names := [(PALLET, ''StakeTransferred'')]\<rparr>
      | AddStakeLimit _ _ tao _ allow_partial \<Rightarrow>
          if allow_partial then unexpected else no_summary\<lparr>es_stake_added := Some (tao, 20)\<rparr>
      | BurnAlpha _ _ alpha \<Rightarrow> no_summary\<lparr>es_alpha_destroyed := Some alpha\<rparr>
      | _ \<Rightarrow> unexpected)"

definition sim_prepare :: "'k crypto \<Rightarrow> chain_call \<Rightarrow> 'k \<Rightarrow> simulated_chain \<Rightarrow> prepared_tx" where
  "sim_prepare cr call signer s =
     (let nonce = of_nat (sim_broadcasts s)
      in \<lparr>pp_call = call, pp_signer = ss58 cr (cr_account_id cr signer), pp_nonce = nonce,
          pp_tx_hash = ''simulated-'' @ show_nat (unat nonce), pp_birth_block = 100, pp_bytes = []\<rparr>)"

definition sim_broadcast :: "event_summary \<Rightarrow> prepared_tx \<Rightarrow> simulated_chain \<Rightarrow> finalized_tx res \<times> simulated_chain" where
  "sim_broadcast unexpected p s =
     (Inl (ErrChain ''simulated lost broadcast response''),
      s\<lparr>sim_broadcasts := sim_broadcasts s + 1, sim_result := sim_summary unexpected (pp_call p)\<rparr>)"

definition sim_find_pending :: "simulated_chain \<Rightarrow> pending_outcome res" where
  "sim_find_pending s = Inr (Included ''simulated-finalized-block'' (sim_result s))"

definition simulated_rpc ::
    "'k crypto \<Rightarrow> 'c system \<Rightarrow> account_id \<Rightarrow> account_id option \<Rightarrow> (simulated_chain \<times> 'c, 'k) rpc" where
  "simulated_rpc cr os hotkey owner =
     \<lparr>rp_others = (\<lambda>x. ([], x)),
      rp_now = (\<lambda>(s, c). let (t, c) = os_now os c in (t, (s, c))),
      rp_uuid = (\<lambda>(s, c). let (t, c) = os_uuid os c in (t, (s, c))),
      rp_random = (\<lambda>n (s, c). let (t, c) = os_random os n c in (t, (s, c))),
      rp_prepare = (\<lambda>call signer (s, c). (Inr (sim_prepare cr call signer s), (s, c))),
      rp_broadcast = (\<lambda>p (s, c). let (r, s) = sim_broadcast (os_unexpected os) p s in (r, (s, c))),
      rp_find_pending = (\<lambda>_ (s, c). (sim_find_pending s, (s, c))),
      rp_genesis_hash = ''simulated-genesis'',
      rp_free_balance = (\<lambda>_ x. (Inr 1000000000, x)),
      rp_account = (\<lambda>_ x. (Inr (0, 0), x)),
      rp_alpha_on = (\<lambda>_ netuid x. (Inr (1000000000,
         [\<lparr>sp_hotkey = hotkey, sp_netuid = netuid, sp_alpha = 1000000000\<rparr>]), x)),
      rp_alpha_of = (\<lambda>_ _ _ x. (os_alpha_of os, x)),
      rp_estimate_fee = (\<lambda>_ _ x. (Inr 100, x)),
      rp_existential_deposit = (\<lambda>x. (Inr 100, x)),
      rp_alpha_price = (\<lambda>_ x. (Inr 1000000000, x)),
      rp_hotkey_owner = (\<lambda>_ x. (Inr owner, x)),
      rp_stake_positions_many = (\<lambda>_ x. (os_positions os, x)),
      rp_webhook_post = (\<lambda>url st x. (os_webhook os url st, x))\<rparr>"

text \<open>The engine of the tests, on a database of its own.\<close>

definition simulated_engine ::
    "'k crypto \<Rightarrow> 'c system \<Rightarrow> account_id \<Rightarrow> account_id option \<Rightarrow> keyring \<Rightarrow> 'k \<Rightarrow> config \<Rightarrow>
     (simulated_chain \<times> 'c, sqlite_db, 'k) engine" where
  "simulated_engine cr os hotkey owner kr treasury cfg =
     engine_new \<lparr>cl_rpc = simulated_rpc cr os hotkey owner, cl_store = sqlite_ops cr, cl_crypto = cr\<rparr>
       kr treasury (cfg\<lparr>c_consolidate := False, c_return_dust := False\<rparr>)"

lemma simulated_engine_simps [simp]:
  "en_client (simulated_engine cr os hotkey owner kr treasury cfg) =
     \<lparr>cl_rpc = simulated_rpc cr os hotkey owner, cl_store = sqlite_ops cr, cl_crypto = cr\<rparr>"
  "en_rpc (simulated_engine cr os hotkey owner kr treasury cfg) = simulated_rpc cr os hotkey owner"
  "en_crypto (simulated_engine cr os hotkey owner kr treasury cfg) = cr"
  "en_cfg (simulated_engine cr os hotkey owner kr treasury cfg) = cfg\<lparr>c_consolidate := False, c_return_dust := False\<rparr>"
  by (simp_all add: simulated_engine_def engine_new_def en_rpc_def en_crypto_def)

section \<open>It is cooperative\<close>

text \<open>The transactions it executes, and what it remembers of the one under way.\<close>

fun sim_takes :: "action \<Rightarrow> bool" where
  "sim_takes Fund = True"
| "sim_takes (Sweep _) = True"
| "sim_takes (BuyStake _ _) = True"
| "sim_takes (Destroy _ recycle) = (\<not> recycle)"
| "sim_takes _ = False"

definition sim_ready :: "pending_tx option \<Rightarrow> simulated_chain \<times> 'c \<Rightarrow> bool" where
  "sim_ready x c = (case x of None \<Rightarrow> True | Some e \<Rightarrow> confirms (pd_action e) (pd_amount e) (sim_result (fst c)))"

definition sim_allowance :: "config \<Rightarrow> u64" where
  "sim_allowance cfg = spendable 1000000000 (c_fee_reserve cfg) 100"

lemma sim_confirms:
  assumes "sim_takes a" and "carries a call"
  shows "confirms a (call_amount call) (sim_summary u call)"
  using assms
  by (cases a; cases call) (auto simp: confirms_def sim_summary_def no_summary_def summary_has_def)

interpretation sim: cooperative "simulated_engine (cr :: 'k crypto) (os :: 'c system) hotkey owner kr treasury cfg" sim_ready "\<lambda>_ _. 0" 0
  sim_takes who "{hotkey}" "sim_allowance cfg"
proof unfold_locales
  fix c :: "simulated_chain \<times> 'c" and a p sent c' t
  assume "sim_takes a" "carries a (pp_call p)"
    and b: "rp_broadcast (en_rpc (simulated_engine cr os hotkey owner kr treasury cfg)) p c = (sent, c')"
  from sim_confirms [OF this(1,2)] b
  show "case sent of
       Inl _ \<Rightarrow> sim_ready (Some (journal_entry a t p (pp_call p))) c'
     | Inr f \<Rightarrow> sim_ready None c' \<and> confirms a (call_amount (pp_call p)) (ft_summary f) \<and>
         tr_action (ft_tx f) = action_name a \<and> tr_amount (ft_tx f) = call_amount (pp_call p) \<and>
         tr_block_hash (ft_tx f) \<noteq> []"
    by (cases c) (auto simp: simulated_rpc_def sim_broadcast_def sim_ready_def journal_entry_def)
qed (auto simp: simulated_rpc_def quiet_def answered_def sim_ready_def sim_find_pending_def sim_prepare_def sim_allowance_def
    Let_def split: prod.splits option.splits)

section \<open>The scenario of the test\<close>

text \<open>A wallet of 32 bytes, a treasury, and a job with a budget to buy and burn the minimum.\<close>

definition test_system :: "unit system" where
  "test_system = \<lparr>os_now = (\<lambda>c. (1000, c)), os_uuid = (\<lambda>c. (''token'', c)), os_random = (\<lambda>n c. (replicate n 0, c)),
     os_webhook = (\<lambda>_ _. Inr ()), os_alpha_of = Inr 0, os_positions = Inr [], os_unexpected = no_summary\<rparr>"

definition test_engine :: "(simulated_chain \<times> unit, sqlite_db, account_id) engine" where
  "test_engine = simulated_engine plain_crypto test_system [3] (Some [3]) (keyring_of_master (replicate 32 42)) [3]
     (config_new ''unused'' 100 [3])"

definition test_budget :: buyback_budget where
  "test_budget = \<lparr>bb_amount_rao = MIN_STAKE_RAO, bb_currency = ''TAO'', bb_source = ''explicit-test-allocation'',
     bb_netuid = 100, bb_destroy = Burn, bb_hotkey = text_of [3]\<rparr>"

definition test_job :: payment_record where
  "test_job =
     (let secret = replicate 32 5; address = text_of secret; nonce = replicate 24 7 in
      (test_record ''engine'')\<lparr>r_address := address, r_netuid := 100, r_state := Detected,
        r_sealed_secret := \<lparr>ss_v = 1, ss_nonce = text_of nonce,
          ss_ct = text_of ((replicate 32 42 @ nonce @ wallet_aad ''engine'' address) @ secret), ss_kid = None\<rparr>,
        r_auto_required := Some True, r_buyback_budget := Some test_budget,
        r_identity := Some (job_identity_of test_engine)\<rparr>)"

definition test_world :: "(simulated_chain \<times> unit, sqlite_db) world" where
  "test_world = \<lparr>w_env = (\<lparr>sim_broadcasts = 0, sim_result = no_summary\<rparr>, ()), w_db = snd (sqlite_insert test_job empty_db),
     w_events = [], w_sent = []\<rparr>"

lemma plain_open:
  assumes "length nonce = 24"
  shows "master_open plain_crypto key \<lparr>ss_v = 1, ss_nonce = text_of nonce, ss_ct = text_of ((key @ nonce @ aad) @ msg), ss_kid = k\<rparr> aad = Inr msg"
proof -
  have "take (length p) (p @ msg) = p" "drop (length p) (p @ msg) = msg" for p :: "u8 list" by simp_all
  then show ?thesis
    using assms by (simp add: master_open_def plain_crypto_def Let_def)
qed

lemma test_job_simps [simp]:
  "r_id test_job = ''engine''" "r_state test_job = Detected" "r_pending test_job = None" "r_txs test_job = []"
  "r_version test_job = 0" "r_swept_positions test_job = []" "r_buyback test_job = None" "\<not> r_buyback_done test_job"
  "r_buyback_budget test_job = Some test_budget" "r_auto_required test_job = Some True" "r_quarantined test_job = None"
  "r_next_attempt_at test_job = 0" "r_detected_tao test_job = 0" "r_derivation_path test_job = None"
  "r_address test_job = text_of (replicate 32 5)" "r_identity test_job = Some (job_identity_of test_engine)"
  by (simp_all add: test_job_def test_record_def Let_def)

lemma test_engine_simps [simp]:
  "en_crypto test_engine = plain_crypto" "en_keyring test_engine = keyring_of_master (replicate 32 42)"
  "en_cfg test_engine = (config_new ''unused'' 100 [3])\<lparr>c_consolidate := False, c_return_dust := False\<rparr>"
  by (simp_all add: test_engine_def) (simp add: simulated_engine_def engine_new_def)

lemma test_wallet:
  "wallet_of test_engine test_job = Inr \<lparr>wl_secret = replicate 32 5, wl_keypair = replicate 32 5\<rparr>"
proof -
  have "keyring_open plain_crypto (keyring_of_master (replicate 32 42)) (r_sealed_secret test_job)
      (wallet_aad ''engine'' (text_of (replicate 32 5))) = Inr (replicate 32 5)"
    using plain_open [of "replicate 24 7" "replicate 32 42" "wallet_aad ''engine'' (text_of (replicate 32 5))" "replicate 32 5" None]
    by (simp add: test_job_def keyring_open_def keyring_of_master_def kid_of_def Let_def del: append_assoc)
  then show ?thesis
    by (simp add: wallet_of_def wallet_unseal_with_def wallet_from_secret_bytes_def wallet_from_mini_secret_def
        wallet_account_id_def ss58_def plain_crypto_def Let_def)
qed

lemma test_allowance: "5000000 \<le> sim_allowance (config_new ''unused'' 100 [3])"
  by (simp add: sim_allowance_def config_new_def spendable_def saturating_sub_def RAO_PER_TAO_def)

lemma test_job_servable: "servable test_engine sim_takes (replicate 32 5) (sim_allowance (config_new ''unused'' 100 [3])) test_job"
proof -
  have "sim_takes a" if "may_need (en_cfg test_engine) test_job a" for a
    using that by (cases a) (auto simp: test_budget_def)
  moreover have "trim ''explicit-test-allocation'' = ''explicit-test-allocation''" by (simp add: trim_def ws1_def ws2_def ws3_def byte_of_def)
  then have "budget_validate plain_crypto test_budget = Inr ()"
    by (simp add: budget_validate_def test_budget_def parse_ss58_def plain_crypto_def MIN_STAKE_RAO_def)
  moreover have "bb_amount_rao test_budget \<le> sim_allowance (config_new ''unused'' 100 [3])"
    by (rule order_trans [OF _ test_allowance]) (simp add: test_budget_def MIN_STAKE_RAO_def)
  moreover have "wallet_account_id plain_crypto \<lparr>wl_secret = x, wl_keypair = y\<rparr> = y" for x y
    by (simp add: wallet_account_id_def plain_crypto_def)
  ultimately show ?thesis
    using test_wallet by (simp add: servable_def purchase_ok_def required_def plain_crypto_correct)
qed

lemma test_tasks: "tasks test_engine {[3]} test_job = 6"
  by (simp add: task_defs Let_def)

text \<open>The test's loop makes at most twelve passes, as many as the theorem allows.\<close>

lemma test_db: "job_db {} test_job (w_db test_world)"
proof -
  have "sqlite_inv (w_db test_world)"
    unfolding test_world_def by (simp add: insert_inv_sqlite empty_db_inv)
  then show ?thesis
    by (simp add: job_db_def test_world_def sqlite_insert_def find_row_def empty_db_def db_content_def db_held_def)
qed

theorem job_settles_witness:
  "\<exists>n q w'. n \<le> 12 \<and> w' = ((\<lambda>w. snd (tick test_engine w)) ^^ n) test_world \<and>
     db_content (w_db w') ''engine'' = Some q \<and> r_state q = Settled \<and> r_pending q = None \<and>
     db_held (w_db w') = {} \<and> length (w_sent w') = length (r_txs q)"
proof -
  have "cooperative test_engine sim_ready (\<lambda>_ _. 0) 0 sim_takes (replicate 32 5) {[3]} (sim_allowance (config_new ''unused'' 100 [3]))"
    unfolding test_engine_def by (rule sim.cooperative_axioms)
  moreover have "sim_ready None (w_env test_world)" "w_sent test_world = []" by (simp_all add: sim_ready_def test_world_def)
  ultimately show ?thesis
    using job_settles [OF _ test_job_servable _ _ test_db] test_tasks by fastforce
qed

end
