(* ===== verification/Unit_Tests.thy ===== *)
theory Unit_Tests
  imports Payment Chain_Connect
begin

text \<open>
  The unit tests of \<open>units.rs\<close>, \<open>state.rs\<close> and \<open>chain.rs\<close>, run on the model: each definition is the
  conjunction of the assertions of one test, and holds.
\<close>

definition is_err :: "'e + 'a \<Rightarrow> bool" where
  "is_err x \<longleftrightarrow> \<not> is_ok x"

section \<open>Amounts\<close>

definition parse_and_format :: bool where
  "parse_and_format \<longleftrightarrow>
     parse_amount ''1'' = Inr RAO_PER_TAO \<and> parse_amount ''0.5'' = Inr 500000000 \<and>
     parse_amount ''.000000001'' = Inr 1 \<and> parse_amount ''12.000000001'' = Inr 12000000001 \<and>
     list_all (\<lambda>s. is_err (parse_amount s))
       ['''', ''.'', ''1.0000000001'', ''-1'', ''1e9'', ''abc'', ''99999999999999999999''] \<and>
     format_amount 1500000000 = ''1.500000000'' \<and>
     parse_amount (format_amount 123456789012) = Inr 123456789012"

definition fee_math :: bool where
  "fee_math \<longleftrightarrow>
     add_bps_ceil 1000 5000 = 1500 \<and> add_bps_ceil 1 1 = 2 \<and> add_bps_ceil (- 1) 5000 = - 1 \<and>
     funding_needed 200000 5000 500 0 = 300500 \<and> funding_needed 200000 5000 500 300000 = 500 \<and>
     funding_needed 200000 5000 500 1000000 = 0 \<and>
     spendable (10 * RAO_PER_TAO) RAO_PER_TAO 500 = 9 * RAO_PER_TAO - 500 \<and> spendable 100 1000 500 = 0"

definition slippage_math :: bool where
  "slippage_math \<longleftrightarrow>
     buy_limit_price 20000000 100 = 20200000 \<and> buy_limit_price 0 100 = 1 \<and>
     buy_limit_price RAO_PER_TAO 0 = RAO_PER_TAO \<and> alpha_value_in_tao (2 * RAO_PER_TAO) 20000000 = 40000000"

lemmas parts_eval = amount_parts_def trim_def ws1_def ws2_def ws3_def byte_of_def starts_with_def

lemma amount_parts_tests:
  "amount_parts ''1'' = (''1'', [])" "amount_parts ''0.5'' = (''0'', ''5'')" "amount_parts ''.000000001'' = ([], ''000000001'')"
  "amount_parts ''12.000000001'' = (''12'', ''000000001'')" "amount_parts [] = ([], [])" "amount_parts ''.'' = ([], [])"
  "amount_parts ''1.0000000001'' = (''1'', ''0000000001'')" "amount_parts ''-1'' = (''-1'', [])" "amount_parts ''1e9'' = (''1e9'', [])"
  "amount_parts ''abc'' = (''abc'', [])" "amount_parts ''99999999999999999999'' = (''99999999999999999999'', [])"
  "amount_parts ''123.456789012'' = (''123'', ''456789012'')"
  by (simp_all add: parts_eval)

lemmas digits_eval = digits_val_def is_ascii_digit_def byte_of_def

lemma parse_and_format: parse_and_format
proof -
  have v: "parse_amount ''1'' = Inr RAO_PER_TAO" "parse_amount ''0.5'' = Inr 500000000" "parse_amount ''.000000001'' = Inr 1"
    "parse_amount ''12.000000001'' = Inr 12000000001" "parse_amount ''123.456789012'' = Inr 123456789012"
    by (simp_all add: parse_amount_iff amount_parts_tests digits_eval RAO_PER_TAO_def)
  have "parse_amount ''99999999999999999999'' \<noteq> Inr x" for x
    using unat_u64_less [of x] by (auto simp: parse_amount_iff amount_parts_tests digits_eval simp del: unat_u64_less)
  moreover have "parse_amount s \<noteq> Inr x" if "s \<in> {[], ''.'', ''1.0000000001'', ''-1'', ''1e9'', ''abc''}" for s x
    using that by (auto simp: parse_amount_iff amount_parts_tests digits_eval)
  ultimately have e: "is_err (parse_amount s)"
    if "s \<in> {[], ''.'', ''1.0000000001'', ''-1'', ''1e9'', ''abc'', ''99999999999999999999''}" for s
    using that by (cases "parse_amount s") (auto simp: is_err_def)
  have f: "format_amount 1500000000 = ''1.500000000''" "format_amount 123456789012 = ''123.456789012''"
    by (simp_all add: format_amount_def RAO_PER_TAO_def pad_left0_def show_nat.simps digit_char_def char_of_def bit_numeral_rec bit_0)
  show ?thesis
    unfolding parse_and_format_def f using v e by simp
qed

lemma fee_math: fee_math
proof -
  have "unat (add_bps_ceil (- 1) 5000) = unat (- 1 :: u64)" by (simp add: unat_add_bps_ceil)
  then have "add_bps_ceil (- 1) 5000 = - 1" by (rule unsigned_word_eqI)
  moreover have "add_bps_ceil 1000 5000 = 1500" "add_bps_ceil 1 1 = 2" "add_bps_ceil 200000 5000 = 300000"
    by (simp_all add: add_bps_ceil_def BPS_def div_ceil_def u64_try_from_def)
  ultimately show ?thesis
    by (simp add: fee_math_def funding_needed_def spendable_def saturating_sub_def saturating_add_def RAO_PER_TAO_def)
qed

lemma slippage_math: slippage_math
  by (simp add: slippage_math_def buy_limit_price_def alpha_value_in_tao_def RAO_PER_TAO_def add_bps_ceil_def BPS_def div_ceil_def u64_try_from_def)

section \<open>States\<close>

definition all_states :: "payment_state list" where
  "all_states = [Pending, Detected, Funded, Swept, Settled, Failed, Expired]"

text \<open>They are all the states, so a statement about every state is decided by evaluation.\<close>

instantiation payment_state :: enum
begin

definition enum_payment_state :: "payment_state list" where
  "enum_payment_state = all_states"

definition enum_all_payment_state :: "(payment_state \<Rightarrow> bool) \<Rightarrow> bool" where
  "enum_all_payment_state P = list_all P all_states"

definition enum_ex_payment_state :: "(payment_state \<Rightarrow> bool) \<Rightarrow> bool" where
  "enum_ex_payment_state P = list_ex P all_states"

instance
proof
  have all: "set all_states = UNIV" by (auto simp: all_states_def intro: payment_state.exhaust)
  then show "(UNIV :: payment_state set) = set enum_class.enum" by (simp add: enum_payment_state_def)
  show "distinct (enum_class.enum :: payment_state list)" by (simp add: enum_payment_state_def all_states_def)
  show "enum_class.enum_all P \<longleftrightarrow> Ball UNIV P" "enum_class.enum_ex P \<longleftrightarrow> Bex UNIV P" for P :: "payment_state \<Rightarrow> bool"
    using all by (simp_all add: enum_all_payment_state_def enum_ex_payment_state_def list_all_iff list_ex_iff)
qed

end

fun transitions :: "payment_state list \<Rightarrow> payment_record \<Rightarrow> payment_record res" where
  "transitions [] r = Inr r"
| "transitions (s # ss) r = and_then (transition s r) (transitions ss)"

definition happy_path :: bool where
  "happy_path \<longleftrightarrow>
     (case transitions [Detected, Funded, Swept, Settled] (test_record ''a'') of
        Inl _ \<Rightarrow> False
      | Inr r \<Rightarrow> r_state r = Settled \<and> \<not> is_active (r_state r))"

definition no_skipping_or_going_back :: bool where
  "no_skipping_or_going_back \<longleftrightarrow>
     (let r = test_record ''a'' in
      is_err (transition Funded r) \<and> is_err (transition Swept r) \<and> is_err (transition Settled r) \<and>
      (case transition Detected r of
         Inl _ \<Rightarrow> False
       | Inr r \<Rightarrow> is_err (transition Pending r) \<and> is_err (transition Detected r)))"

definition settled_is_final :: bool where
  "settled_is_final \<longleftrightarrow> list_all (\<lambda>to. \<not> can_transition Settled to) all_states"

text \<open>The search of the test; its loop runs at most once per state.\<close>

fun search :: "nat \<Rightarrow> payment_state list \<Rightarrow> payment_state list \<Rightarrow> payment_state list" where
  "search (Suc n) (s # stack) reach =
     (let new = filter (\<lambda>to. s \<noteq> Failed \<and> can_transition s to \<and> to \<notin> set reach) all_states
      in search n (rev new @ stack) (reach @ new))"
| "search _ _ reach = reach"

definition sweep_happens_exactly_once_per_path :: bool where
  "sweep_happens_exactly_once_per_path \<longleftrightarrow>
     (let reach = search 8 [Swept] [] in Funded \<notin> set reach \<and> Detected \<notin> set reach \<and>
        list_all (\<lambda>s. s = Failed \<or> list_all (\<lambda>to. can_transition s to \<longrightarrow> to \<in> set reach) all_states) (Swept # reach)) \<and>
     (case transitions [Detected, Funded, Swept, Failed] (test_record ''a'') of
        Inl _ \<Rightarrow> False
      | Inr r \<Rightarrow> is_err (transition Funded r) \<and> is_err (transition Detected r) \<and> is_ok (transition Swept r))"

definition failures_back_off_then_fail_then_retry :: bool where
  "failures_back_off_then_fail_then_retry \<longleftrightarrow>
     (case transitions [Detected, Funded] (test_record ''a'') of
        Inl _ \<Rightarrow> False
      | Inr r \<Rightarrow>
          (let r1 = record_failure ''boom'' 3 1000 r; r2 = record_failure ''boom'' 3 1000 r1;
               r3 = record_failure ''boom'' 3 1000 r2 in
           r_state r1 = Funded \<and> r_attempts r1 = 1 \<and> r_next_attempt_at r1 = 1010 \<and> r_next_attempt_at r2 = 1020 \<and>
           r_state r3 = Failed \<and> r_failed_from r3 = Some Funded \<and>
           (case transition Funded r3 of
              Inl _ \<Rightarrow> False
            | Inr r \<Rightarrow> r_attempts r = 0 \<and> r_last_error r = None)))"

definition expiry_and_force_sweep :: bool where
  "expiry_and_force_sweep \<longleftrightarrow>
     (case transition Expired (test_record ''a'') of
        Inl _ \<Rightarrow> False
      | Inr r \<Rightarrow> \<not> is_active (r_state r) \<and> is_ok (transition Detected r))"

lemma happy_path: happy_path
  by code_simp

lemma no_skipping_or_going_back: no_skipping_or_going_back
  by code_simp

lemma settled_is_final: settled_is_final
  by code_simp

text \<open>Nothing leads back behind a sweep but the resumption of a failed payment.\<close>

lemma no_way_back:
  "\<forall>s to. s \<in> {Swept, Settled} \<and> can_transition s to \<longrightarrow> to = Settled \<or> to = Failed"
  by code_simp

lemma sweep_happens_exactly_once_per_path: sweep_happens_exactly_once_per_path
  by code_simp

lemma failures_back_off_then_fail_then_retry: failures_back_off_then_fail_then_retry
  by code_simp

lemma expiry_and_force_sweep: expiry_and_force_sweep
  by code_simp

section \<open>The client\<close>

text \<open>The encoded weights and fees of the test are SCALE, and so are parameters.\<close>

definition partial_fee_u64_and_u128 :: "scale \<Rightarrow> u8 list \<Rightarrow> u8 list \<Rightarrow> u8 list \<Rightarrow> bool" where
  "partial_fee_u64_and_u128 sc head fee64 fee128 \<longleftrightarrow>
     decode_partial_fee sc (head @ fee64) = Inr 55000 \<and> decode_partial_fee sc (head @ fee128) = Inr 66000 \<and>
     is_err (decode_partial_fee sc head)"

lemma partial_fee_u64_and_u128:
  assumes "\<And>xs. sc_weights sc (head @ xs) = Some xs" and "length fee64 = 8" and "length fee128 = 16"
    and "sc_u64 sc fee64 = Some 55000" and "sc_u128 sc fee128 = Some 66000"
  shows "partial_fee_u64_and_u128 sc head fee64 fee128"
  using assms(2-) assms(1) [of fee64] assms(1) [of fee128] assms(1) [of "[]"]
  by (simp add: partial_fee_u64_and_u128_def decode_partial_fee_def is_err_def is_ok_def u64_try_from_def Let_def)

definition fixed_point_prices :: bool where
  "fixed_point_prices \<longleftrightarrow>
     fixed_bits_to_rao (push_bit 31 1) 32 = 500000000 \<and> fixed_bits_to_rao (push_bit 32 3) 32 = 3000000000 \<and>
     fixed_bits_to_rao 0 32 = 0 \<and> fixed_bits_to_rao (- 1) 32 = - 1"

definition urls_are_redacted_and_endpoint_debug_hides_key :: bool where
  "urls_are_redacted_and_endpoint_debug_hides_key \<longleftrightarrow>
     redact_url ''wss://rpc.example.io/v1?key=abc'' = ''wss://rpc.example.io'' \<and>
     redact_url ''wss://user:pw@host:443/x'' = ''wss://host:443'' \<and>
     split_once ''s3cr3t'' (endpoint_debug (with_bearer ''s3cr3t'' (endpoint_new ''wss://x''))) = None \<and>
     ep_bearer (with_bearer ''  '' (endpoint_new ''wss://x'')) = None"

text \<open>Of URL parsing the test uses the scheme and the host of one URL.\<close>

definition plaintext_remote_rpc_is_refused :: "('c, 'k) transport \<Rightarrow> 'c \<Rightarrow> bool" where
  "plaintext_remote_rpc_is_refused tp c \<longleftrightarrow>
     (case fst (connect_endpoint tp (endpoint_new ''ws://example.com:9944'') c) of
        Inl e \<Rightarrow> split_once ''wss'' (error_display e) \<noteq> None
      | Inr _ \<Rightarrow> False)"

definition signer_decoding :: bool where
  "signer_decoding \<longleftrightarrow> signer_of (0 # replicate 32 7) = Some (replicate 32 7) \<and> signer_of (replicate 21 1) = None"

definition network_parse :: bool where
  "network_parse \<longleftrightarrow>
     map_sum id network_url (network_from_str ''finney'') = Inr ''wss://entrypoint-finney.opentensor.ai:443'' \<and>
     map_sum id network_url (network_from_str ''local'') = Inr ''ws://127.0.0.1:9944'' \<and>
     is_err (network_from_str ''nope'')"

lemma fixed_point_prices: fixed_point_prices
  by (simp add: fixed_point_prices_def fixed_bits_to_rao_def saturating_mul_def saturating_add_def u64_try_from_def RAO_PER_TAO_def
      mask_eq_exp_minus_1 drop_bit_eq_div)

lemma urls_are_redacted_and_endpoint_debug_hides_key: urls_are_redacted_and_endpoint_debug_hides_key
  by (simp add: urls_are_redacted_and_endpoint_debug_hides_key_def redact_url_def endpoint_debug_def with_bearer_def endpoint_new_def
      str_debug_def debug_char_def starts_with_def trim_def ws1_def ws2_def ws3_def byte_of_def)

lemma plaintext_remote_rpc_is_refused:
  "tp_parse_url tp ''ws://example.com:9944'' = Some (''ws'', Some ''example.com'') \<Longrightarrow> plaintext_remote_rpc_is_refused tp c"
  by (simp add: plaintext_remote_rpc_is_refused_def connect_endpoint_insecure secure_url_def endpoint_new_def loopback_def io_simps
      str_debug_def debug_char_def starts_with_def byte_of_def)

lemma signer_decoding: signer_decoding
  by (simp add: signer_decoding_def numeral_eq_Suc)

lemma network_parse: network_parse
  by (simp add: network_parse_def network_from_str_def is_err_def is_ok_def starts_with_def)

end
