(* ===== verification/Key_Tests.thy ===== *)
theory Key_Tests
  imports Unit_Tests Key_Debug Recovery
begin

text \<open>
  The tests of \<open>src/src/keys.rs\<close> and \<open>src/src/recovery.rs\<close> that are about this code and not about the
  cryptography or the JSON library, run on the model: master keys, derivation paths, keyrings and
  their rotation, and the offline replay of a legacy job.
\<close>

section \<open>Keys\<close>

definition require :: "bool \<Rightarrow> unit res" where
  "require b = (if b then Inr () else Inl (ErrStore ''assertion failed''))"

definition contains_text :: "string \<Rightarrow> string \<Rightarrow> bool" where
  "contains_text s x \<longleftrightarrow> list_ex (\<lambda>n. starts_with x (drop n s)) [0..<length s + 1]"

definition master_key_hex :: "'k crypto \<Rightarrow> master_key \<Rightarrow> u8 list \<Rightarrow> bool" where
  "master_key_hex cr k nonce \<longleftrightarrow>
     is_ok (and_then (master_from_hex cr (master_to_hex cr k)) (\<lambda>k2.
            and_then (master_seal cr k nonce (bytes_of ''x'') (bytes_of ''a'')) (\<lambda>s.
            and_then (master_open cr k2 s (bytes_of ''a'')) (\<lambda>x.
            and_then (require (x = bytes_of ''x'')) (\<lambda>_.
            require (is_err (master_from_hex cr ''abcd'')))))))"

definition PHRASE :: string where
  "PHRASE = ''bottom drive obey lake curtain smoke basket hold race lonely fit walk''"

definition derivation_refuses_soft_and_malformed_paths :: "'k crypto \<Rightarrow> bool" where
  "derivation_refuses_soft_and_malformed_paths cr \<longleftrightarrow>
     is_ok (and_then (seed_from_phrase cr PHRASE) (\<lambda>seed.
            and_then (require (list_all (\<lambda>bad. is_err (derive_mini cr seed bad))
              ['''', ''/soft'', ''//a/soft'', ''//'', ''//a////b'', ''opentype''])) (\<lambda>_.
            and_then (require (is_err (seed_from_phrase cr ''not a mnemonic''))) (\<lambda>_.
            require (\<not> contains_text (seed_debug seed) ''bottom'')))))"

definition keyring_roundtrip_rotation_and_tamper ::
    "'k crypto \<Rightarrow> master_key \<Rightarrow> master_key \<Rightarrow> 'k wallet \<Rightarrow> u8 list \<Rightarrow> u8 list \<Rightarrow> bool" where
  "keyring_roundtrip_rotation_and_tamper cr k1 k2 w nonce nonce2 \<longleftrightarrow>
     (let aad = bytes_of ''tenant-a/5Fxyz''; k1_hex = master_to_hex cr k1; who = wallet_account_id cr w in
      is_ok (and_then (keyring_new ''k1'' [(''k1'', k1)]) (\<lambda>old.
             and_then (wallet_seal_with cr w old nonce aad) (\<lambda>sealed.
             and_then (require (ss_kid sealed = Some ''k1'')) (\<lambda>_.
             and_then (wallet_unseal_with cr old sealed aad) (\<lambda>b.
             and_then (require (wallet_account_id cr b = who)) (\<lambda>_.
             and_then (require (is_err (wallet_unseal_with cr old sealed (bytes_of ''tenant-b/5Fxyz'')))) (\<lambda>_.
             and_then (ok_or (ErrStore ''unwrap of None'') (cr_hex_decode cr (ss_ct sealed))) (\<lambda>ct.
             let t = sealed\<lparr>ss_ct := cr_hex_encode cr (ct[5 := Bit_Operations.xor (ct ! 5) 128])\<rparr> in
             and_then (require (is_err (wallet_unseal_with cr old t aad))) (\<lambda>_.
             and_then (require (is_err (wallet_unseal_with cr old (sealed\<lparr>ss_kid := Some ''k9''\<rparr>) aad))) (\<lambda>_.
             and_then (keyring_parse cr (''k1:'' @ k1_hex @ '',k2:'' @ master_to_hex cr k2) ''k2'') (\<lambda>new.
             and_then (wallet_unseal_with cr new sealed aad) (\<lambda>b.
             and_then (require (wallet_account_id cr b = who)) (\<lambda>_.
             and_then (keyring_reseal cr new nonce2 sealed aad) (\<lambda>resealed.
             and_then (ok_or (ErrStore ''re-sealed'') resealed) (\<lambda>resealed.
             and_then (require (ss_kid resealed = Some ''k2'')) (\<lambda>_.
             and_then (keyring_reseal cr new nonce2 resealed aad) (\<lambda>again.
             and_then (require (again = None)) (\<lambda>_.
             and_then (master_from_hex cr (cr_hex_encode cr (replicate 32 0))) (\<lambda>zero.
             and_then (keyring_parse cr (''k2:'' @ master_to_hex cr zero) ''k2'') (\<lambda>only_k2.
             and_then (require (is_err (wallet_unseal_with cr only_k2 sealed aad))) (\<lambda>_.
             and_then (require (is_err (keyring_new ''nope'' []))) (\<lambda>_.
             require (\<not> contains_text (keyring_debug new) k1_hex))))))))))))))))))))))))"

definition legacy_sealed_without_kid_opens_with_default_key ::
    "'k crypto \<Rightarrow> master_key \<Rightarrow> 'k wallet \<Rightarrow> u8 list \<Rightarrow> bool" where
  "legacy_sealed_without_kid_opens_with_default_key cr k w nonce \<longleftrightarrow>
     is_ok (and_then (wallet_seal cr w k nonce (bytes_of ''x'')) (\<lambda>sealed.
            and_then (require (ss_kid sealed = None)) (\<lambda>_.
            and_then (master_from_hex cr (master_to_hex cr k)) (\<lambda>k.
            and_then (wallet_unseal_with cr (keyring_of_master k) sealed (bytes_of ''x'')) (\<lambda>b.
            require (wallet_account_id cr b = wallet_account_id cr w))))))"

section \<open>Legacy recovery\<close>

text \<open>The record, the manifest and the events of the fixture; \<open>bob\<close> is the treasury and \<open>deposit\<close> the
  account of the record's address.\<close>

definition fixture_call :: "account_id \<Rightarrow> chain_call" where
  "fixture_call deposit = TransferTao deposit 123"

definition fixture_receipt :: "account_id \<Rightarrow> tx_ref" where
  "fixture_receipt deposit =
     \<lparr>tr_action = call_name (fixture_call deposit), tr_tx_hash = ''hash'', tr_block_hash = ''block'', tr_amount = 123\<rparr>"

definition fixture_record :: "account_id \<Rightarrow> payment_record" where
  "fixture_record deposit =
     (test_record ''legacy'')\<lparr>r_auto_required := None, r_state := Funded, r_funded_tao := 123, r_txs := [fixture_receipt deposit]\<rparr>"

definition fixture_manifest :: "'k crypto \<Rightarrow> account_id \<Rightarrow> account_id \<Rightarrow> legacy_manifest" where
  "fixture_manifest cr bob deposit =
     \<lparr>lm_job = ''legacy'', lm_version = 0, lm_genesis_hash = ''test-genesis'', lm_treasury = ss58 cr bob,
      lm_treasury_hotkey = ss58 cr bob, lm_consolidate = False, lm_return_dust = False, lm_budget = None,
      lm_first_block = 1, lm_stopped_at = 2, lm_maximum_mortality = 128,
      lm_operator_attestation = ''offline shutdown and historical mortality evidence'', lm_all_stopped = True,
      lm_transactions = [\<lparr>lt_block = 2, lt_index = 0, lt_signer = ss58 cr bob, lt_nonce = 0,
        lt_receipt = fixture_receipt deposit, lt_call = fixture_call deposit\<rparr>]\<rparr>"

definition fixture_summary :: event_summary where
  "fixture_summary =
     \<lparr>es_names = [(''System'', ''ExtrinsicSuccess''), (''Balances'', ''Transfer'')], es_failed = False, es_stake_added = None,
      es_alpha_destroyed = None, es_stake_moved_tao = None, es_transferred = Some 123\<rparr>"

definition pristine_identity_requires_explicit_history :: "'k crypto \<Rightarrow> account_id \<Rightarrow> account_id \<Rightarrow> bool" where
  "pristine_identity_requires_explicit_history cr bob deposit \<longleftrightarrow>
     (let r = (fixture_record deposit)\<lparr>r_state := Detected, r_funded_tao := 0, r_txs := []\<rparr>;
          m = (fixture_manifest cr bob deposit)\<lparr>lm_transactions := []\<rparr> in
      is_ok (and_then (replay cr r m ([], 200, ''anchor'')) (\<lambda>(next, _).
             and_then (ok_or (ErrStore ''unwrap of None'') (r_identity next)) (\<lambda>i.
             and_then (require (ji_genesis_hash i = ''test-genesis'')) (\<lambda>_.
             require (is_err (validate_manifest cr r (m\<lparr>lm_operator_attestation := []\<rparr>))))))))"

text \<open>The six manifests that must be refused.\<close>

definition bad_manifests :: "legacy_manifest \<Rightarrow> legacy_manifest list" where
  "bad_manifests m =
     [m\<lparr>lm_maximum_mortality := 0\<rparr>, m\<lparr>lm_all_stopped := False\<rparr>, m\<lparr>lm_operator_attestation := []\<rparr>,
      m\<lparr>lm_transactions := []\<rparr>,
      m\<lparr>lm_transactions := (case lm_transactions m of [] \<Rightarrow> []
         | t # ts \<Rightarrow> t\<lparr>lt_receipt := (lt_receipt t)\<lparr>tr_amount := tr_amount (lt_receipt t) + 1\<rparr>\<rparr> # ts)\<rparr>,
      m\<lparr>lm_version := lm_version m + 1\<rparr>]"

definition replay_preserves_evidence :: "'k crypto \<Rightarrow> account_id \<Rightarrow> account_id \<Rightarrow> bool" where
  "replay_preserves_evidence cr bob deposit \<longleftrightarrow>
     (let r = fixture_record deposit; m = fixture_manifest cr bob deposit; s = fixture_summary in
      is_ok (and_then (replay cr r m ([s], 200, ''anchor'')) (\<lambda>(next, report).
             and_then (require (r_txs next = r_txs r)) (\<lambda>_.
             and_then (require (r_version next = r_version r)) (\<lambda>_.
             and_then (require (r_state next = r_state r)) (\<lambda>_.
             and_then (ok_or (ErrStore ''unwrap of None'') (r_identity next)) (\<lambda>i.
             and_then (require (ji_genesis_hash i = lm_genesis_hash m)) (\<lambda>_.
             and_then (require (\<not> rr_applied report)) (\<lambda>_.
             and_then (require (is_err (replay cr r m ([], 200, ''anchor'')))) (\<lambda>_.
             and_then (require (is_err (replay cr r m ([s\<lparr>es_transferred := Some 122\<rparr>], 200, ''anchor'')))) (\<lambda>_.
             require (list_all (\<lambda>bad. is_err (validate_manifest cr r bad)) (bad_manifests m)))))))))))))"

section \<open>They pass\<close>

lemmas replay_eval = replay_def validate_manifest_def unfit_record_def started_too_early_def fixture_record_def fixture_manifest_def
  fixture_receipt_def fixture_call_def fixture_summary_def test_record_def recovered_record_def reproduces_def replay_start_def
  replay_stage_def replay_step_def summary_has_def require_def is_ok_def is_err_def trim_def ws1_def ws2_def ws3_def byte_of_def Let_def

lemma legacy_tests:
  assumes "ss58_correct cr" and "ss58 cr deposit = r_address (test_record ''legacy'')" and "bob \<noteq> deposit"
  shows "pristine_identity_requires_explicit_history cr bob deposit" and "replay_preserves_evidence cr bob deposit"
proof -
  have p: "parse_ss58 cr (ss58 cr a) = Inr a" for a
    using assms(1) by (simp add: ss58_correct_def ss58_def parse_ss58_def)
  note d = assms(2) [simplified test_record_def payment_record.simps, symmetric]
  show "pristine_identity_requires_explicit_history cr bob deposit"
    using assms(3) by (simp add: pristine_identity_requires_explicit_history_def p d replay_eval)
  show "replay_preserves_evidence cr bob deposit"
    using assms(3) by (simp add: replay_preserves_evidence_def bad_manifests_def p d replay_eval)
qed

text \<open>Of the hexadecimal encoding the tests use that it decodes, and that its digits need no trimming.\<close>

lemma master_from_to_hex:
  assumes "hex_correct cr" and "length k = 32" and "trim_start_0x (trim (cr_hex_encode cr k)) = cr_hex_encode cr k"
  shows "master_from_hex cr (master_to_hex cr k) = Inr k"
  using assms by (simp add: master_from_hex_def master_to_hex_def hex_correct_def)

lemma master_key_hex:
  assumes "aead_correct cr" and "hex_correct cr" and "length k = 32" and "length nonce = 24"
    and "trim_start_0x (trim (cr_hex_encode cr k)) = cr_hex_encode cr k"
    and "cr_encrypt cr k nonce (bytes_of ''a'') (bytes_of ''x'') = Some ct" and "cr_hex_decode cr ''abcd'' = Some [171, 205]"
  shows "master_key_hex cr k nonce"
proof -
  have "trim_start_0x (trim ''abcd'') = ''abcd''" by (simp add: trim_def ws1_def ws2_def ws3_def byte_of_def)
  then show ?thesis
    using assms master_from_to_hex [OF assms(2,3,5)]
    by (simp add: master_key_hex_def master_seal_def master_open_def master_from_hex_def aead_correct_def hex_correct_def
        require_def is_ok_def is_err_def Let_def)
qed

lemma legacy_sealed_without_kid_opens_with_default_key:
  assumes "aead_correct cr" and "hex_correct cr" and "length k = 32" and "length nonce = 24"
    and "trim_start_0x (trim (cr_hex_encode cr k)) = cr_hex_encode cr k"
    and "cr_encrypt cr k nonce (bytes_of ''x'') (wl_secret w) = Some ct" and "wallet_from_secret_bytes cr (wl_secret w) = Inr w"
  shows "legacy_sealed_without_kid_opens_with_default_key cr k w nonce"
  using assms master_from_to_hex [OF assms(2,3,5)]
  by (simp add: legacy_sealed_without_kid_opens_with_default_key_def wallet_seal_def wallet_unseal_with_def keyring_open_def
      keyring_of_master_def kid_of_def master_seal_def master_open_def aead_correct_def hex_correct_def require_def is_ok_def Let_def)

lemma derivation_refuses_soft_and_malformed_paths:
  assumes "cr_entropy_of_phrase cr PHRASE = Some e" and "cr_pbkdf2 cr e (bytes_of ''mnemonic'') 2048 64 = Some seed"
    and "cr_entropy_of_phrase cr ''not a mnemonic'' = None"
  shows "derivation_refuses_soft_and_malformed_paths cr"
  using assms
  by (auto simp: derivation_refuses_soft_and_malformed_paths_def PHRASE_def seed_from_phrase_def derive_mini_def hard_junctions_def
      strip_prefix_def starts_with_def contains_text_def seed_debug_def require_def is_ok_def is_err_def
      trim_def ws1_def ws2_def ws3_def byte_of_def upt_rec Let_def split: prod.splits)

text \<open>The keyring test runs with the transparent cryptography, which detects a wrong key, wrong associated
  data and a changed ciphertext, and with the keys \<open>aa...\<close> and \<open>bb...\<close>.\<close>

lemma keyring_texts:
  "keyring_parse plain_crypto (''k1:'' @ text_of (replicate 32 97) @ '',k2:'' @ text_of (replicate 32 98)) ''k2'' =
     Inr \<lparr>kr_active = ''k2'', kr_keys = [(''k2'', replicate 32 98), (''k1'', replicate 32 97)]\<rparr>"
  "keyring_parse plain_crypto (''k2:'' @ text_of (replicate 32 0)) ''k2'' =
     Inr \<lparr>kr_active = ''k2'', kr_keys = [(''k2'', replicate 32 0)]\<rparr>"
  "master_from_hex plain_crypto (text_of (replicate 32 0)) = Inr (replicate 32 0)"
  "contains_text (keyring_debug \<lparr>kr_active = ''k2'', kr_keys = [(''k2'', replicate 32 98), (''k1'', replicate 32 97)]\<rparr>)
     (text_of (replicate 32 97)) = False"
  by code_simp+

lemma plain_open_iff:
  assumes "length nonce = 24" and "length k = length k'" and "length aad = length aad'"
  shows "master_open plain_crypto k \<lparr>ss_v = 1, ss_nonce = text_of nonce, ss_ct = text_of (k' @ nonce @ aad' @ msg), ss_kid = i\<rparr> aad =
     (if k' = k \<and> aad' = aad then Inr msg else Inl (ErrCrypto ''decryption failed (wrong key or tampered data)''))"
proof -
  let ?p = "k @ nonce @ aad" and ?q = "k' @ nonce @ aad'"
  have "take (length ?p) (?q @ msg) = ?q" "drop (length ?p) (?q @ msg) = msg" using assms by simp_all
  moreover have "?q = ?p \<longleftrightarrow> k' = k \<and> aad' = aad" using assms by auto
  ultimately show ?thesis
    using assms(1) by (auto simp: master_open_def plain_crypto_def Let_def simp del: take_append drop_append)
qed

lemma keyring_roundtrip_rotation_and_tamper:
  assumes "length secret = 32" and "length nonce = 24" and "length nonce2 = 24"
  shows "keyring_roundtrip_rotation_and_tamper plain_crypto (replicate 32 97) (replicate 32 98)
     \<lparr>wl_secret = secret, wl_keypair = secret\<rparr> nonce nonce2"
proof -
  have new: "keyring_new ''k1'' [(''k1'', k)] = Inr \<lparr>kr_active = ''k1'', kr_keys = [(''k1'', k)]\<rparr>" for k
    by (simp add: keyring_new_def collect_keys_def key_id_ok_def is_ascii_alphanumeric_def is_ascii_digit_def byte_of_def)
  have w: "wallet_from_secret_bytes plain_crypto secret = Inr \<lparr>wl_secret = secret, wl_keypair = secret\<rparr>"
    using assms(1) by (simp add: wallet_from_secret_bytes_def wallet_from_mini_secret_def plain_crypto_def)
  have seal: "master_seal plain_crypto k n m aad = Inr \<lparr>ss_v = 1, ss_nonce = text_of n, ss_ct = text_of (k @ n @ aad @ m), ss_kid = None\<rparr>" for k n m aad
    by (simp add: master_seal_def plain_crypto_def)
  have tampered: "(replicate 32 97 @ n @ aad @ m)[5 := x] = (replicate 32 97)[5 := x] @ n @ aad @ m" for n aad m and x :: u8
    by (simp add: list_update_append1)
  have byte: "(replicate 32 97 @ n @ aad @ m) ! 5 = 97" for n aad and m :: "u8 list" by (simp add: nth_append)
  have flip: "(replicate 32 97)[5 := 225] \<noteq> replicate 32 (97 :: u8)"
  proof
    assume "(replicate 32 97)[5 := 225] = replicate 32 (97 :: u8)"
    then have "(replicate 32 97)[5 := 225] ! 5 = replicate 32 (97 :: u8) ! 5" by simp
    then show False by simp
  qed
  have keys: "replicate 32 97 \<noteq> replicate 32 (0 :: u8)" by simp
  define A B where "A = bytes_of ''tenant-a/5Fxyz''" and "B = bytes_of ''tenant-b/5Fxyz''"
  have aads: "A \<noteq> B" "length B = length A" by (simp_all add: A_def B_def bytes_of_def byte_of_def)
  have hex: "cr_hex_encode plain_crypto = text_of" "cr_hex_decode plain_crypto s = Some (bytes_of s)" for s
    by (simp_all add: plain_crypto_def)
  show ?thesis
    using assms w keyring_texts flip keys aads
    unfolding keyring_roundtrip_rotation_and_tamper_def A_def [symmetric] B_def [symmetric]
    by (simp add: new wallet_seal_with_def keyring_seal_def seal wallet_unseal_with_def
        keyring_open_def kid_of_def keyring_reseal_def plain_open_iff hex tampered byte master_to_hex_def require_def is_ok_def is_err_def
        keyring_new_def [of "''nope''"] collect_keys_def Let_def del: replicate_eq_replicate replicate.simps)
qed

end
