(* ===== verification/Store_Exact.thy ===== *)
theory Store_Exact
  imports Store_History File_Store
begin

text \<open>
  What a client that does not sign sees of a store: exactly a finite map from ids to records.
  \<open>exact_store\<close> extends the contract \<open>cas_store\<close> by when the operations succeed; every such store
  simulates the reference \<open>spec_step\<close>, so any two of them are interchangeable.  Both stores of
  \<open>src/src/store.rs\<close> are exact: the SQLite store while no signer is reserved, the file store while
  every JSON file of its directory parses.
\<close>

section \<open>Simulation\<close>

fun run_all :: "('op \<Rightarrow> 'd \<Rightarrow> 'r \<times> 'd) \<Rightarrow> 'op list \<Rightarrow> 'd \<Rightarrow> 'r list \<times> 'd" where
  "run_all f [] d = ([], d)"
| "run_all f (op # os) d = (case f op d of (r, d) \<Rightarrow> case run_all f os d of (rs, d) \<Rightarrow> (r # rs, d))"

locale simulation =
  fixes step :: "'op \<Rightarrow> 'd \<Rightarrow> 'r \<times> 'd" and spec :: "'op \<Rightarrow> 'm \<Rightarrow> 'r \<times> 'm"
    and rel :: "'d \<Rightarrow> 'm \<Rightarrow> bool" and ok :: "'op \<Rightarrow> bool"
  assumes simulates: "rel d m \<Longrightarrow> ok op \<Longrightarrow> step op d = (r, d') \<Longrightarrow> \<exists>m'. spec op m = (r, m') \<and> rel d' m'"
begin

lemma run_simulates:
  "rel d m \<Longrightarrow> list_all ok os \<Longrightarrow> run_all step os d = (rs, d') \<Longrightarrow> \<exists>m'. run_all spec os m = (rs, m') \<and> rel d' m'"
proof (induction os arbitrary: d m rs d')
  case (Cons op os)
  obtain r d1 where s: "step op d = (r, d1)" by force
  obtain rs1 d2 where t: "run_all step os d1 = (rs1, d2)" by force
  obtain m1 where m1: "spec op m = (r, m1)" "rel d1 m1" using simulates [OF _ _ s] Cons.prems by auto
  then show ?case using Cons.IH [OF m1(2) _ t] Cons.prems s t by auto
qed simp

end

section \<open>The reference\<close>

datatype client_op =
    AskInsert payment_record
  | AskUpdate payment_record u64
  | AskGet string
  | AskList "payment_state list"
  | AskMigrate string u64 "buyback_budget option" u64

datatype reply = Refused | Inserted | Stored payment_record | Found "payment_record option" | Listed "payment_record set"

fun spec_step :: "'k crypto \<Rightarrow> client_op \<Rightarrow> (string \<rightharpoonup> payment_record) \<Rightarrow> reply \<times> (string \<rightharpoonup> payment_record)" where
  "spec_step cr (AskInsert r) m = (if m (r_id r) = None then (Inserted, m(r_id r \<mapsto> r)) else (Refused, m))"
| "spec_step cr (AskUpdate r now) m =
     (case m (r_id r) of
        None \<Rightarrow> (Refused, m)
      | Some c \<Rightarrow>
          if r_version c = r_version r \<and> same_policy c r
          then (Stored (next_version now r), m(r_id r \<mapsto> next_version now r)) else (Refused, m))"
| "spec_step cr (AskGet i) m = (Found (m i), m)"
| "spec_step cr (AskList states) m = (Listed {r \<in> ran m. r_state r \<in> set states}, m)"
| "spec_step cr (AskMigrate i v b now) m =
     (case m i of
        None \<Rightarrow> (Refused, m)
      | Some c \<Rightarrow>
          (case migrated_policy cr c v b now of
             Inl _ \<Rightarrow> (Refused, m)
           | Inr r' \<Rightarrow> (Stored r', m(i \<mapsto> r'))))"

text \<open>The same requests to a store.\<close>

definition replied :: "('a \<Rightarrow> reply) \<Rightarrow> 'a res \<Rightarrow> reply" where
  "replied f x = (case x of Inl _ \<Rightarrow> Refused | Inr y \<Rightarrow> f y)"

fun ask_store :: "'d store_ops \<Rightarrow> client_op \<Rightarrow> 'd \<Rightarrow> reply \<times> 'd" where
  "ask_store ops (AskInsert r) d = (case so_insert ops r d of (x, d') \<Rightarrow> (replied (\<lambda>_. Inserted) x, d'))"
| "ask_store ops (AskUpdate r now) d = (case so_update ops r now d of (x, d') \<Rightarrow> (replied Stored x, d'))"
| "ask_store ops (AskGet i) d = (replied Found (so_get ops i d), d)"
| "ask_store ops (AskList states) d = (replied (\<lambda>rs. Listed (set rs)) (so_list ops states d), d)"
| "ask_store ops (AskMigrate i v b now) d =
     (case so_migrate_legacy_policy ops i v b now d of (x, d') \<Rightarrow> (replied Stored x, d'))"

text \<open>Requests of a client that does not sign, about ids that every store accepts, with versions that fit.\<close>

fun unsigned_op :: "(string \<Rightarrow> bool) \<Rightarrow> client_op \<Rightarrow> bool" where
  "unsigned_op valid (AskInsert r) \<longleftrightarrow> valid (r_id r) \<and> r_pending r = None"
| "unsigned_op valid (AskUpdate r now) \<longleftrightarrow> valid (r_id r) \<and> r_pending r = None \<and> unat (r_version r) + 1 < 2 ^ 63"
| "unsigned_op valid (AskGet i) \<longleftrightarrow> valid i"
| "unsigned_op valid (AskList states) \<longleftrightarrow> True"
| "unsigned_op valid (AskMigrate i v b now) \<longleftrightarrow> valid i \<and> unat v + 1 < 2 ^ 63"

section \<open>Exact stores\<close>

locale exact_store = cas_store ops inv content
  for ops :: "'d store_ops" and inv :: "'d \<Rightarrow> bool" and content :: "'d \<Rightarrow> string \<Rightarrow> payment_record option" +
  fixes cr :: "'k crypto" and valid :: "string \<Rightarrow> bool" and exact :: "'d \<Rightarrow> bool"
  assumes exact_inv: "exact d \<Longrightarrow> inv d"
    and exact_step: "exact d \<Longrightarrow> unsigned_op valid op \<Longrightarrow> exact (snd (ask_store ops op d))"
    and get_total: "exact d \<Longrightarrow> valid i \<Longrightarrow> \<exists>x. so_get ops i d = Inr x"
    and list_total: "exact d \<Longrightarrow> \<exists>rs. so_list ops states d = Inr rs \<and> distinct rs \<and> {r \<in> ran (content d). r_state r \<in> set states} \<subseteq> set rs"
    and insert_total: "exact d \<Longrightarrow> valid (r_id r) \<Longrightarrow> content d (r_id r) = None \<Longrightarrow> \<exists>d'. so_insert ops r d = (Inr (), d')"
    and update_total: "exact d \<Longrightarrow> unsigned_op valid (AskUpdate r now) \<Longrightarrow> content d (r_id r) = Some c \<Longrightarrow>
      r_version c = r_version r \<Longrightarrow> same_policy c r \<Longrightarrow> \<exists>d'. so_update ops r now d = (Inr (next_version now r), d')"
    and update_stale: "exact d \<Longrightarrow> valid (r_id r) \<Longrightarrow> content d (r_id r) = Some c \<Longrightarrow> r_version c \<noteq> r_version r \<Longrightarrow>
      same_policy c r \<Longrightarrow> so_update ops r now d = (Inl (Conflict (r_id r)), d)"
    and update_missing: "exact d \<Longrightarrow> valid (r_id r) \<Longrightarrow> content d (r_id r) = None \<Longrightarrow>
      so_update ops r now d = (Inl (NotFound (r_id r)), d)"
    and migrate_total: "exact d \<Longrightarrow> unsigned_op valid (AskMigrate i v b now) \<Longrightarrow> content d i = Some c \<Longrightarrow>
      migrated_policy cr c v b now = Inr r' \<Longrightarrow> \<exists>d'. so_migrate_legacy_policy ops i v b now d = (Inr r', d')"
    and migrate_sound: "exact d \<Longrightarrow> so_migrate_legacy_policy ops i v b now d = (Inr r', d') \<Longrightarrow>
      \<exists>c. content d i = Some c \<and> migrated_policy cr c v b now = Inr r'"
begin

lemma list_exact: "exact d \<Longrightarrow> \<exists>rs. so_list ops states d = Inr rs \<and> distinct rs \<and> set rs = {r \<in> ran (content d). r_state r \<in> set states}"
  using list_total [of d states] list_content [OF exact_inv] by (fastforce simp: ran_def)

lemma insert_exact:
  assumes "exact d" and "valid (r_id r)"
  shows "\<exists>d'. ask_store ops (AskInsert r) d = (fst (spec_step cr (AskInsert r) (content d)), d') \<and>
     content d' = snd (spec_step cr (AskInsert r) (content d))"
proof (cases "content d (r_id r)")
  case None
  then obtain d' where d': "so_insert ops r d = (Inr (), d')" using insert_total [OF assms] by blast
  then show ?thesis using None insert_ok [OF exact_inv [OF assms(1)] d'] by (simp add: replied_def)
next
  case (Some c)
  obtain x d' where x: "so_insert ops r d = (x, d')" by force
  then have "\<exists>e. x = Inl e \<and> d' = d"
    using Some insert_ok [OF exact_inv [OF assms(1)], of r d'] insert_fail [OF exact_inv [OF assms(1)], of r _ d']
    by (cases x) auto
  then show ?thesis using Some x by (auto simp: replied_def)
qed

lemma update_exact:
  assumes "exact d" and "unsigned_op valid (AskUpdate r now)"
  shows "\<exists>d'. ask_store ops (AskUpdate r now) d = (fst (spec_step cr (AskUpdate r now) (content d)), d') \<and>
     content d' = snd (spec_step cr (AskUpdate r now) (content d))"
proof -
  note inv = exact_inv [OF assms(1)]
  obtain x d' where x: "so_update ops r now d = (x, d')" by force
  show ?thesis
  proof (cases x)
    case (Inl e)
    then have "d' = d" using x update_fail [OF inv] by blast
    moreover have "\<not> (\<exists>c. content d (r_id r) = Some c \<and> r_version c = r_version r \<and> same_policy c r)"
      using update_total [OF assms] x Inl by fastforce
    ultimately show ?thesis using x Inl by (auto simp: replied_def split: option.split)
  next
    case (Inr r')
    then have "so_update ops r now d = (Inr r', d')" using x by simp
    from update_ok [OF inv this] show ?thesis using x Inr by (auto simp: replied_def)
  qed
qed

lemma migrate_exact:
  assumes "exact d" and "unsigned_op valid (AskMigrate i v b now)"
  shows "\<exists>d'. ask_store ops (AskMigrate i v b now) d = (fst (spec_step cr (AskMigrate i v b now) (content d)), d') \<and>
     content d' = snd (spec_step cr (AskMigrate i v b now) (content d))"
proof -
  note inv = exact_inv [OF assms(1)]
  obtain x d' where x: "so_migrate_legacy_policy ops i v b now d = (x, d')" by force
  show ?thesis
  proof (cases x)
    case (Inl e)
    then have "d' = d" using x migrate_fail [OF inv] by blast
    moreover have "\<not> (\<exists>c r'. content d i = Some c \<and> migrated_policy cr c v b now = Inr r')"
      using migrate_total [OF assms] x Inl by fastforce
    ultimately show ?thesis using x Inl by (auto simp: replied_def split: option.split sum.split)
  next
    case (Inr r')
    then have m: "so_migrate_legacy_policy ops i v b now d = (Inr r', d')" using x by simp
    from migrate_ok [OF inv m] migrate_sound [OF assms(1) m] show ?thesis using x Inr by (auto simp: replied_def)
  qed
qed

lemma ask_exact:
  assumes "exact d" and "unsigned_op valid op"
  shows "\<exists>d'. ask_store ops op d = (fst (spec_step cr op (content d)), d') \<and> content d' = snd (spec_step cr op (content d)) \<and>
     exact d'"
proof -
  have "\<exists>d'. ask_store ops op d = (fst (spec_step cr op (content d)), d') \<and> content d' = snd (spec_step cr op (content d))"
  proof (cases op)
    case (AskGet i)
    then obtain x where "so_get ops i d = Inr x" using get_total [OF assms(1)] assms(2) by auto
    then show ?thesis using AskGet get_content [OF exact_inv [OF assms(1)]] by (auto simp: replied_def)
  next
    case (AskList states)
    then show ?thesis using list_exact [OF assms(1), of states] by (auto simp: replied_def)
  qed (use assms insert_exact update_exact migrate_exact in auto)
  then show ?thesis using exact_step [OF assms] by (metis snd_conv)
qed

end

sublocale exact_store \<subseteq> simulation "ask_store ops" "spec_step cr" "\<lambda>d m. exact d \<and> m = content d" "unsigned_op valid"
  using ask_exact by unfold_locales (metis prod.collapse prod.inject)

section \<open>The SQLite store\<close>

definition unsigned_db :: "sqlite_db \<Rightarrow> bool" where
  "unsigned_db d \<longleftrightarrow> sqlite_inv d \<and> db_reservations d = [] \<and>
     (\<forall>i r. db_content d i = Some r \<longrightarrow> r_pending r = None)"

lemma no_evidence_pending: "\<not> has_evidence (r\<lparr>r_auto_required := a, r_buyback_budget := b\<rparr>) \<Longrightarrow> r_pending r = None"
  by (simp add: has_evidence_def)

lemma unsigned_dbD:
  assumes "unsigned_db d"
  shows "sqlite_inv d" "db_reservations d = []" "\<And>i r. db_content d i = Some r \<Longrightarrow> r_pending r = None"
  using assms by (auto simp: unsigned_db_def)

lemma unsigned_db_insert:
  assumes "unsigned_db d" and "r_pending r = None"
  shows "unsigned_db (snd (sqlite_insert r d))"
proof -
  obtain x d' where x: "sqlite_insert r d = (x, d')" by force
  note d = unsigned_dbD [OF assms(1)]
  have "sqlite_inv d'" using insert_inv_sqlite [OF d(1), of r] assms(2) x by simp
  moreover have "db_reservations d' = []" using x d(2) by (auto simp: sqlite_insert_def split: if_splits)
  moreover have "r_pending q = None" if "db_content d' i = Some q" for i q
    using that d(3) x insert_content_sqlite [of r d _ d'] insert_Inl_sqlite [of r d _ d'] assms(2)
    by (cases x) (auto split: if_splits)
  ultimately show ?thesis using x by (simp add: unsigned_db_def)
qed

lemma unsigned_db_update:
  assumes "unsigned_db d" and "r_pending r = None"
  shows "unsigned_db (snd (sqlite_update r now d))"
proof (cases "sqlite_update r now d")
  case (Pair x d')
  note d = unsigned_dbD [OF assms(1)]
  have i: "sqlite_inv d'" using update_inv_sqlite [OF d(1), of r now] Pair by simp
  show ?thesis
  proof (cases x)
    case (Inl e)
    then show ?thesis using Pair sqlite_update_Inl [of r now d] assms(1) by auto
  next
    case (Inr r')
    then have u: "sqlite_update r now d = (Inr r', d')" using Pair by simp
    obtain c vs where c: "db_content d (r_id r) = Some c" "update_checks c r d = Inr vs"
      "d' = set_rows (r_id r) (written_row r') (d\<lparr>db_reservations := vs\<rparr>)" using sqlite_update_InrD [OF u] by auto
    have "vs = []" using update_checks_InrD [OF c(2)] d(2) d(3) [OF c(1)] by (simp split: if_splits)
    then show ?thesis
      using update_content_sqlite [OF u] c i Pair d(3) assms(2) by (auto simp: unsigned_db_def split: if_splits)
  qed
qed

lemma unsigned_db_migrate:
  assumes "unsigned_db d"
  shows "unsigned_db (snd (sqlite_migrate_legacy_policy cr i v b now d))"
proof (cases "sqlite_migrate_legacy_policy cr i v b now d")
  case (Pair x d')
  note d = unsigned_dbD [OF assms]
  show ?thesis
  proof (cases x)
    case (Inl e)
    then show ?thesis using Pair sq.migrate_fail [OF d(1), of cr i v b now e d'] assms by simp
  next
    case (Inr r')
    then have m: "so_migrate_legacy_policy (sqlite_ops cr) i v b now d = (Inr r', d')" using Pair by simp
    have "r_pending r' = None" using sq.migrate_ok [OF d(1) m] no_evidence_pending by blast
    moreover have "db_reservations d' = []" using Pair Inr d(2)
      by (auto simp: sqlite_migrate_legacy_policy_def split: option.splits sum.splits prod.splits)
    ultimately show ?thesis
      using sq.migrate_ok [OF d(1) m] sq.migrate_inv [OF d(1) m] Pair d(3) by (auto simp: unsigned_db_def split: if_splits)
  qed
qed

lemma unsigned_db_step:
  assumes "unsigned_db d" and "unsigned_op valid op"
  shows "unsigned_db (snd (ask_store (sqlite_ops cr) op d))"
  using assms unsigned_db_insert unsigned_db_update unsigned_db_migrate by (cases op) (auto simp: case_prod_beta)

lemma sqlite_list_total:
  assumes "sqlite_inv d"
  shows "\<exists>rs. sqlite_list states d = Inr rs \<and> distinct rs \<and> {r \<in> ran (db_content d). r_state r \<in> set states} \<subseteq> set rs"
proof -
  have "r \<in> row_record ` {row \<in> set (db_payments d). row_state row \<in> as_str ` set states}"
    if "db_content d i = Some r" "r_state r \<in> set states" for r i
    using that assms find_row_SomeD by (fastforce simp: db_content_def sqlite_inv_def list_all_iff row_ok_def)
  moreover have "distinct (map row_record (filter P (sort_key row_created_at (db_payments d))))" for P
  proof -
    have "distinct (map row_id (sort_key row_created_at (db_payments d)))"
      using assms by (simp add: sqlite_inv_def distinct_map)
    then have "distinct (map row_id (filter P (sort_key row_created_at (db_payments d))))" by (rule distinct_map_filter)
    moreover have "map row_id (filter P (sort_key row_created_at (db_payments d))) =
        map r_id (map row_record (filter P (sort_key row_created_at (db_payments d))))"
      using assms by (auto simp: sqlite_inv_def list_all_iff row_ok_def)
    ultimately show ?thesis by (metis distinct_map)
  qed
  ultimately show ?thesis by (auto simp: sqlite_list_def ran_def)
qed

lemma sqlite_migrate_total:
  assumes "unsigned_db d" and "unat v + 1 < 2 ^ 63" and "db_content d i = Some c" and "migrated_policy cr c v b now = Inr r'"
  shows "\<exists>d'. sqlite_migrate_legacy_policy cr i v b now d = (Inr r', d')"
proof -
  have "unat (r_version r') = unat v + 1" using migrated_policy_InrD [OF assms(4)] by blast
  then have "i64_try_from (r_version r') \<noteq> None" using assms(2) by (simp add: i64_try_from_def)
  then show ?thesis
    using assms(1,3,4) by (auto simp: sqlite_migrate_legacy_policy_def unsigned_db_def db_content_def)
qed

lemma sqlite_migrate_sound:
  "sqlite_migrate_legacy_policy cr i v b now d = (Inr r', d') \<Longrightarrow>
   \<exists>c. db_content d i = Some c \<and> migrated_policy cr c v b now = Inr r'"
  by (auto simp: sqlite_migrate_legacy_policy_def db_content_def result_simps split: if_splits option.splits sum.splits prod.splits)

interpretation sqx: exact_store "sqlite_ops cr" sqlite_inv db_content cr valid unsigned_db
  for cr :: "'k crypto" and valid :: "string \<Rightarrow> bool"
proof (unfold_locales, goal_cases)
  case 2 then show ?case by (rule unsigned_db_step)
next
  case 6
  then show ?case using sqlite_update_iff update_content_sqlite by (fastforce simp: unsigned_db_def)
next
  case 7
  then show ?case
    by (auto simp: sqlite_update_def update_checks_def db_content_def)
next
  case 8
  then show ?case by (simp add: sqlite_update_def db_content_def)
next
  case 9
  then show ?case by (auto intro!: sqlite_migrate_total)
next
  case 10
  then show ?case using sqlite_migrate_sound by simp
qed (auto simp: unsigned_db_def sqlite_list_total sqlite_get_def sqlite_insert_def db_content_def)

section \<open>The file store\<close>

definition readable_dir :: "dir \<Rightarrow> bool" where
  "readable_dir d \<longleftrightarrow> file_inv d \<and> (\<forall>n. is_json n \<longrightarrow> map_of d n \<noteq> Some None)"

definition valid_id :: "string \<Rightarrow> bool" where
  "valid_id i \<longleftrightarrow> is_ok (file_path i)"

lemma valid_idE: "valid_id i \<Longrightarrow> (\<And>p. file_path i = Inr p \<Longrightarrow> thesis) \<Longrightarrow> thesis"
  by (cases "file_path i") (auto simp: valid_id_def is_ok_def)

lemma readable_write: "readable_dir d \<Longrightarrow> file_path (r_id r) = Inr p \<Longrightarrow> readable_dir (file_write p r d)"
  using file_write_inv not_json_tmp by (auto simp: readable_dir_def map_of_file_write)

lemma readable_step:
  assumes "readable_dir d"
  shows "readable_dir (snd (ask_store (file_ops cr) op d))"
proof (cases op)
  case (AskInsert r)
  obtain x d' where x: "file_insert r d = (x, d')" by force
  then show ?thesis
    using AskInsert assms readable_write file_insert_InrD [of r d _ d'] file_insert_Inl [of r d _ d'] by (cases x) auto
next
  case (AskUpdate r now)
  obtain x d' where x: "file_update r now d = (x, d')" by force
  have "file_path (r_id r) = Inr p \<Longrightarrow> readable_dir (file_write p (next_version now r) d)" for p
    using readable_write [of d "next_version now r" p] assms by simp
  then show ?thesis
    using x AskUpdate assms file_update_InrD [of r now d _ d'] file_update_Inl [of r now d _ d'] by (cases x) auto
next
  case (AskMigrate i v b now)
  obtain x d' where x: "file_migrate_legacy_policy cr i v b now d = (x, d')" by force
  show ?thesis
  proof (cases x)
    case (Inr r')
    then obtain p c where p: "file_path i = Inr p" "map_of d p = Some (Some c)" "r_id r' = r_id c" "d' = file_write p r' d"
      using file_migrate_InrD [of cr i v b now d r' d'] x by auto
    then have "file_path (r_id r') = Inr p"
      using assms is_json_path by (auto simp: readable_dir_def file_inv_def)
    then show ?thesis using x p AskMigrate readable_write [OF assms] by simp
  next
    case (Inl e)
    then have "d' = d" using x file_migrate_Inl by blast
    then show ?thesis using x AskMigrate assms by simp
  qed
qed (use assms in simp_all)

lemma file_collect_total:
  assumes "\<forall>(n, v) \<in> set d. is_json n \<longrightarrow> v \<noteq> None"
  shows "\<exists>out. file_collect states d = Inr out \<and>
     (\<forall>n r. (n, Some r) \<in> set d \<longrightarrow> is_json n \<longrightarrow> r_state r \<in> set states \<longrightarrow> r \<in> set out)"
  using assms
proof (induction d)
  case (Cons e d)
  then obtain out where "file_collect states d = Inr out"
    "\<forall>n r. (n, Some r) \<in> set d \<longrightarrow> is_json n \<longrightarrow> r_state r \<in> set states \<longrightarrow> r \<in> set out" by auto
  then show ?case using Cons.prems by (cases e) (auto split: option.split)
qed simp

lemma file_collect_distinct:
  assumes "distinct (map fst d)" and "\<forall>(n, v) \<in> set d. \<forall>r. is_json n \<longrightarrow> v = Some r \<longrightarrow> file_path (r_id r) = Inr n"
    and "file_collect states d = Inr out"
  shows "distinct out"
  using assms
proof (induction d arbitrary: out)
  case (Cons e d)
  obtain n v where e: "e = (n, v)" by force
  show ?case
  proof (cases "is_json n")
    case False
    then show ?thesis using Cons e by simp
  next
    case True
    then obtain r rs where v: "v = Some r" and rs: "file_collect states d = Inr rs"
      and out: "out = (if r_state r \<in> set states then r # rs else rs)"
      using Cons.prems(3) e by (auto simp: result_simps split: option.splits)
    have "r \<notin> set rs"
    proof
      assume "r \<in> set rs"
      then obtain m where "is_json m" "(m, Some r) \<in> set d" using file_collect_mem [OF rs] by blast
      then have "n = m" using Cons.prems(2) True v e by fastforce
      then show False using \<open>(m, Some r) \<in> set d\<close> Cons.prems(1) e by force
    qed
    then show ?thesis using Cons rs out e by auto
  qed
qed simp

lemma file_list_total:
  assumes "readable_dir d"
  shows "\<exists>rs. file_list states d = Inr rs \<and> distinct rs \<and> {r \<in> ran (file_content d). r_state r \<in> set states} \<subseteq> set rs"
proof -
  have u: "distinct (map fst d)" using assms by (simp add: readable_dir_def file_inv_def)
  then have "v \<noteq> None" if "(n, v) \<in> set d" "is_json n" for n v
    using that assms by (metis map_of_is_SomeI readable_dir_def)
  then have "\<forall>(n, v) \<in> set d. is_json n \<longrightarrow> v \<noteq> None" by blast
  from file_collect_total [OF this] obtain out where o: "file_collect states d = Inr out"
    "\<And>n r. (n, Some r) \<in> set d \<Longrightarrow> is_json n \<Longrightarrow> r_state r \<in> set states \<Longrightarrow> r \<in> set out" by blast
  have "\<exists>n. (n, Some r) \<in> set d \<and> is_json n" if "file_content d i = Some r" for i r
    using that is_json_path map_of_SomeD by (fastforce simp: file_content_def split: sum.splits option.splits)
  moreover have "\<forall>(n, v) \<in> set d. \<forall>r. is_json n \<longrightarrow> v = Some r \<longrightarrow> file_path (r_id r) = Inr n"
    using assms u by (auto simp: readable_dir_def file_inv_def)
  then have "distinct out" using file_collect_distinct [OF u _ o(1)] by blast
  ultimately show ?thesis using o by (auto simp: file_list_def ran_def)
qed

interpretation fsx: exact_store "file_ops cr" file_inv file_content cr valid_id readable_dir
  for cr :: "'k crypto"
proof (unfold_locales, goal_cases)
  case 2 then show ?case using readable_step by blast
next
  case (3 d i)
  then obtain p where "file_path i = Inr p" "map_of d p \<noteq> Some None"
    using is_json_path by (auto elim!: valid_idE simp: readable_dir_def)
  then show ?case by (auto simp: file_get_def file_read_def split: option.split)
next
  case 4 then show ?case using file_list_total by simp
next
  case (5 d r)
  then obtain p where p: "file_path (r_id r) = Inr p" by (auto elim: valid_idE)
  then have "map_of d p = None"
    using 5 is_json_path by (auto simp: file_content_def readable_dir_def split: option.splits)
  then show ?case using p by (simp add: file_insert_def)
next
  case (6 d r now c)
  then obtain p where "file_path (r_id r) = Inr p" "map_of d p = Some (Some c)"
    by (auto simp: file_content_def split: sum.splits option.splits)
  then show ?case using 6 by (simp add: file_update_def file_read_def same_policy_def next_version_def)
next
  case (7 d r c now)
  then obtain p where "file_path (r_id r) = Inr p" "map_of d p = Some (Some c)"
    by (auto simp: file_content_def split: sum.splits option.splits)
  then show ?case using 7 by (simp add: file_update_def file_read_def same_policy_def)
next
  case (8 d r now)
  then obtain p where p: "file_path (r_id r) = Inr p" by (auto elim: valid_idE)
  then have "map_of d p = None"
    using 8 is_json_path by (auto simp: file_content_def readable_dir_def split: option.splits)
  then show ?case using p by (simp add: file_update_def file_read_def)
next
  case (9 d i v b now c r')
  then obtain p where "file_path i = Inr p" "map_of d p = Some (Some c)"
    by (auto simp: file_content_def split: sum.splits option.splits)
  then show ?case using 9 by (simp add: file_migrate_legacy_policy_def file_read_def)
next
  case (10 d i v b now r' d')
  then show ?case using file_migrate_InrD [of cr i v b now d r' d'] by (auto simp: file_content_def)
qed (simp add: readable_dir_def)

section \<open>Property\<close>


text \<open>One client against both: a new record, the same again, a first and a repeated update, a listing.\<close>

definition plain_client :: "client_op list" where
  "plain_client =
     [AskInsert (test_record ''p-1''), AskInsert (test_record ''p-1''),
      AskUpdate ((test_record ''p-1'')\<lparr>r_state := Detected\<rparr>) 5, AskUpdate ((test_record ''p-1'')\<lparr>r_state := Detected\<rparr>) 6,
      AskGet ''p-2'', AskList [Detected]]"


end
