(* ===== verification/Store_Tests.thy ===== *)
theory Store_Tests
  imports Store_Exact
begin

text \<open>
  The tests of \<open>src/src/store.rs\<close>, line by line as effects on the state of a store: an operation that
  is unwrapped ends the test when it fails, an \<open>assert!\<close> is \<open>check\<close>.  The generic test \<open>exercise\<close>
  passes on every exact store, and so on both; the tests of the SQLite store pass on the model of it.
\<close>

section \<open>Tests as effects\<close>

definition check :: "bool \<Rightarrow> ('w, error, unit) io" where
  "check b = (if b then io_ret () else io_fail (ErrStore ''assertion failed''))"

definition fails :: "('w, error, 'a) io \<Rightarrow> ('w, error, unit) io" where
  "fails m = io_bind (io_attempt m) (\<lambda>x. check (\<not> is_ok x))"

definition passes :: "('w, error, 'a) io \<Rightarrow> 'w \<Rightarrow> bool" where
  "passes t w \<longleftrightarrow> is_ok (fst (t w))"

definition reading :: "('w \<Rightarrow> 'a res) \<Rightarrow> ('w, error, 'a) io" where
  "reading f = (\<lambda>w. (f w, w))"

definition unwrap :: "'a option \<Rightarrow> ('w, error, 'a) io" where
  "unwrap x = io_lift (ok_or (ErrStore ''unwrap of None'') x)"

text \<open>\<open>impl Store for Box<S>\<close>: every method is the one of the store inside.\<close>

definition boxed :: "'d store_ops \<Rightarrow> 'd store_ops" where
  "boxed ops =
     \<lparr>so_require_signing = (\<lambda>d. so_require_signing ops d),
      so_reserve_signer_for_record = (\<lambda>s r t d. so_reserve_signer_for_record ops s r t d),
      so_reserve_signer = (\<lambda>s j t d. so_reserve_signer ops s j t d),
      so_cancel_preparation = (\<lambda>s j t d. so_cancel_preparation ops s j t d),
      so_migrate_legacy_policy = (\<lambda>i v b now d. so_migrate_legacy_policy ops i v b now d),
      so_insert = (\<lambda>r d. so_insert ops r d), so_get = (\<lambda>i d. so_get ops i d),
      so_list = (\<lambda>states d. so_list ops states d), so_update = (\<lambda>r now d. so_update ops r now d)\<rparr>"

lemma boxed_same: "boxed ops = ops"
  by (simp add: boxed_def)

section \<open>Both stores\<close>

definition exercise :: "'d store_ops \<Rightarrow> u64 \<Rightarrow> ('d, error, unit) io" where
  "exercise ops now =
     (let r = test_record ''p-1'' in
      io_bind (so_insert ops r) (\<lambda>_.
      io_bind (fails (so_insert ops r)) (\<lambda>_.
      io_bind (reading (so_get ops ''p-1'')) (\<lambda>got.
      io_bind (unwrap got) (\<lambda>got.
      io_bind (check (r_version got = 0)) (\<lambda>_.
      io_bind (io_lift (transition Detected got)) (\<lambda>got.
      io_bind (so_update ops got now) (\<lambda>v1.
      io_bind (check (r_version v1 = 1)) (\<lambda>_.
      io_bind (io_attempt (so_update ops got now)) (\<lambda>x.
      io_bind (check (case x of Inl (Conflict i) \<Rightarrow> True | _ \<Rightarrow> False)) (\<lambda>_.
      io_bind (reading (so_get ops ''p-1'')) (\<lambda>got.
      io_bind (unwrap got) (\<lambda>got.
      io_bind (check (r_state got = Detected)) (\<lambda>_.
      io_bind (so_insert ops (test_record ''p-2'')) (\<lambda>_.
      io_bind (reading (so_list ops [Pending])) (\<lambda>rs.
      io_bind (check (length rs = 1)) (\<lambda>_.
      io_bind (reading (so_list ops [Pending, Detected])) (\<lambda>rs.
      io_bind (check (length rs = 2)) (\<lambda>_.
      io_bind (reading (so_get ops ''nope'')) (\<lambda>x.
      io_bind (check (x = None)) (\<lambda>_.
      io_bind (io_attempt (so_update ops ((test_record ''ghost'')\<lparr>r_version := 0\<rparr>) now)) (\<lambda>x.
      check (case x of Inl (NotFound i) \<Rightarrow> True | _ \<Rightarrow> False)))))))))))))))))))))))"

context exact_store
begin

lemma insert_step:
  assumes "exact d" and "valid (r_id r)" and "r_pending r = None" and "content d (r_id r) = None"
  obtains d' where "so_insert ops r d = (Inr (), d')" and "exact d'" and "content d' = (content d)(r_id r \<mapsto> r)"
    and "fst (so_insert ops r d') \<noteq> Inr ()" and "snd (so_insert ops r d') = d'"
proof -
  obtain d' where d': "so_insert ops r d = (Inr (), d')" using insert_total [OF assms(1,2,4)] by blast
  have e: "exact d'" using exact_step [OF assms(1), of "AskInsert r"] assms(2,3) d' by simp
  have c: "content d' = (content d)(r_id r \<mapsto> r)" using insert_ok [OF exact_inv [OF assms(1)] d'] by simp
  obtain x d2 where x: "so_insert ops r d' = (x, d2)" by force
  then have "x \<noteq> Inr ()" using insert_ok [OF exact_inv [OF e], of r d2] c by auto
  then have "fst (so_insert ops r d') \<noteq> Inr ()" "snd (so_insert ops r d') = d'"
    using x insert_fail [OF exact_inv [OF e], of r _ d2] by (cases x; simp)+
  then show thesis using that d' e c by blast
qed

lemma get_step: "exact d \<Longrightarrow> valid i \<Longrightarrow> so_get ops i d = Inr (content d i)"
  using get_total get_content [OF exact_inv] by fastforce

lemma list_step:
  assumes "exact d" and "{r \<in> ran (content d). r_state r \<in> set states} = A"
  shows "\<exists>rs. so_list ops states d = Inr rs \<and> length rs = card A"
  using list_exact [OF assms(1), of states] assms(2) distinct_card by fastforce

lemma list_two:
  assumes "exact d" and "content d = [i \<mapsto> q, j \<mapsto> p]" and "i \<noteq> j" and "q \<noteq> p" and "r_state q = Detected" and "r_state p = Pending"
  shows "\<exists>rs. so_list ops [Pending] d = Inr rs \<and> length rs = 1" and "\<exists>rs. so_list ops [Pending, Detected] d = Inr rs \<and> length rs = 2"
proof -
  have ran: "ran (content d) = {q, p}" using assms(2,3) by (simp add: ran_map_upd insert_commute)
  have "{r \<in> ran (content d). r_state r \<in> set [Pending]} = {p}" "{r \<in> ran (content d). r_state r \<in> set [Pending, Detected]} = {q, p}"
    unfolding ran using assms(5,6) by auto
  from list_step [OF assms(1) this(1)] list_step [OF assms(1) this(2)] assms(4)
  show "\<exists>rs. so_list ops [Pending] d = Inr rs \<and> length rs = 1" "\<exists>rs. so_list ops [Pending, Detected] d = Inr rs \<and> length rs = 2"
    by auto
qed

lemma exercise_passes:
  assumes "exact d" and "content d = Map.empty" and "valid ''p-1''" and "valid ''p-2''" and "valid ''nope''" and "valid ''ghost''"
  shows "\<exists>d' r. exercise ops now d = (Inr (), d') \<and> exact d' \<and> content d' ''p-1'' = Some r \<and> r_version r = 1"
proof -
  let ?r = "test_record ''p-1''"
  have "\<exists>q. transition Detected ?r = Inr q" by (simp add: test_record_def transition_def resume_ok_def)
  then obtain q where t: "transition Detected ?r = Inr q" by blast
  have q: "transition Detected ?r = Inr q" "r_id q = ''p-1''" "r_state q = Detected" "r_pending q = None"
    "r_version q = 0" "same_policy ?r q"
    using t by (auto simp: result_simps) (simp_all add: test_record_def same_policy_def)
  let ?q = "next_version now q"
  have r: "r_id ?r = ''p-1''" "r_pending ?r = None" "r_version ?r = 0" "r_state ?r = Pending" by (simp_all add: test_record_def)
  have r2: "r_id (test_record ''p-2'') = ''p-2''" "r_pending (test_record ''p-2'') = None" by (simp_all add: test_record_def)
  obtain d1 where d1: "so_insert ops ?r d = (Inr (), d1)" "exact d1" "content d1 = [''p-1'' \<mapsto> ?r]"
    "fst (so_insert ops ?r d1) \<noteq> Inr ()" "snd (so_insert ops ?r d1) = d1"
    using insert_step [OF assms(1), of ?r] assms(2,3) r by auto
  obtain d2 where d2: "so_update ops q now d1 = (Inr ?q, d2)"
    using update_total [OF d1(2), of q now ?r] d1(3) q r assms(3) by auto
  have e2: "exact d2" using exact_step [OF d1(2), of "AskUpdate q now"] d2 q assms(3) by simp
  have c2: "content d2 = [''p-1'' \<mapsto> ?q]" using update_ok [OF exact_inv [OF d1(2)] d2] d1(3) q by simp
  have stale: "so_update ops q now d2 = (Inl (Conflict ''p-1''), d2)"
    using update_stale [OF e2, of q ?q now] c2 q assms(3) by (simp add: same_policy_def)
  obtain d3 where d3: "so_insert ops (test_record ''p-2'') d2 = (Inr (), d3)" "exact d3"
    "content d3 = [''p-1'' \<mapsto> ?q, ''p-2'' \<mapsto> test_record ''p-2'']"
  proof (rule insert_step [OF e2, of "test_record ''p-2''"])
    show "valid (r_id (test_record ''p-2''))" "r_pending (test_record ''p-2'') = None" "content d2 (r_id (test_record ''p-2'')) = None"
      using assms(4) c2 r2 by simp_all
  qed (use c2 r2 in simp_all)
  have "r_id ?q \<noteq> r_id (test_record ''p-2'')" using q(2) r2 by simp
  then have "?q \<noteq> test_record ''p-2''" by metis
  then obtain rs1 rs2 where l: "so_list ops [Pending] d3 = Inr rs1" "length rs1 = 1"
    "so_list ops [Pending, Detected] d3 = Inr rs2" "length rs2 = 2"
    using list_two [OF d3(2,3)] q(3) by (auto simp: test_record_def)
  have missing: "so_update ops ((test_record ''ghost'')\<lparr>r_version := 0\<rparr>) now d3 = (Inl (NotFound ''ghost''), d3)"
    using update_missing [OF d3(2), of "(test_record ''ghost'')\<lparr>r_version := 0\<rparr>" now] d3(3) assms(6) by (simp add: test_record_def)
  have dup: "\<exists>e. so_insert ops ?r d1 = (Inl e, d1)"
    using d1(4,5) by (cases "so_insert ops ?r d1"; cases "fst (so_insert ops ?r d1)") auto
  then show ?thesis
    using d1(1,3) get_step [OF d1(2) assms(3)] get_step [OF e2 assms(3)] get_step [OF d3(2) assms(5)] c2 d3 l q r d2 stale missing
    by (auto simp: exercise_def reading_def unwrap_def fails_def check_def is_ok_def io_simps next_version_def Let_def)
qed

end

definition file_store :: "'k crypto \<Rightarrow> u64 \<Rightarrow> (dir, error, unit) io" where
  "file_store cr now =
     (let s = file_ops cr in
      io_bind (exercise s now) (\<lambda>_.
      io_bind (fails (reading (so_get s ''../etc/passwd''))) (\<lambda>_.
      io_bind (reading (so_get s ''p-1'')) (\<lambda>got.
      io_bind (unwrap got) (\<lambda>got.
      check (r_version got = 1))))))"

text \<open>Once in memory and once in a file, which a second connection then reads.\<close>

definition sqlite_store :: "'k crypto \<Rightarrow> u64 \<Rightarrow> (sqlite_db, error, unit) io" where
  "sqlite_store cr now =
     (let s = sqlite_ops cr in
      io_bind (exercise s now) (\<lambda>_.
      io_bind (reading (so_get s ''p-1'')) (\<lambda>got.
      io_bind (unwrap got) (\<lambda>got.
      check (r_version got = 1)))))"

lemma file_store: "passes (file_store cr now) []"
proof -
  have "valid_id ''p-1''" "valid_id ''p-2''" "valid_id ''nope''" "valid_id ''ghost''"
    by (simp_all add: valid_id_def file_path_def is_ok_def is_ascii_alphanumeric_def is_ascii_digit_def byte_of_def)
  moreover have "readable_dir []" "file_content [] = Map.empty"
    by (auto simp: file_content_def readable_dir_def file_inv_def fun_eq_iff split: sum.split)
  ultimately obtain d' r where "exercise (file_ops cr) now [] = (Inr (), d')" "readable_dir d'"
      "file_content d' ''p-1'' = Some r" "r_version r = 1" "valid_id ''p-1''"
    using fsx.exercise_passes [where d = "[]"] by blast
  moreover have "\<not> is_ok (file_get ''../etc/passwd'' d')"
    by (simp add: file_get_def file_path_def is_ascii_alphanumeric_def is_ascii_digit_def byte_of_def is_ok_def)
  ultimately show ?thesis
    using fsx.get_step [of d' "''p-1''"]
    by (auto simp: passes_def file_store_def reading_def unwrap_def fails_def check_def is_ok_def io_simps Let_def split: sum.splits)
qed

lemma sqlite_store: "passes (sqlite_store cr now) empty_db"
proof -
  have "unsigned_db empty_db" "db_content empty_db = Map.empty"
    by (auto simp: db_content_def find_row_def empty_db_def unsigned_db_def sqlite_inv_def fun_eq_iff)
  then obtain d' r where "exercise (sqlite_ops cr) now empty_db = (Inr (), d')" "unsigned_db d'"
      "db_content d' ''p-1'' = Some r" "r_version r = 1"
    using sqx.exercise_passes [where d = empty_db and valid = "\<lambda>_. True" and cr = cr and now = now] by auto
  then show ?thesis
    using sqx.get_step [where d = d' and i = "''p-1''" and valid = "\<lambda>_. True" and cr = cr]
    by (auto simp: passes_def sqlite_store_def reading_def unwrap_def check_def is_ok_def io_simps Let_def)
qed

section \<open>The remaining tests\<close>

definition migration_preserves_evidence :: "'d store_ops \<Rightarrow> u64 \<Rightarrow> ('d, error, unit) io" where
  "migration_preserves_evidence ops now =
     (let legacy = (test_record ''legacy-policy'')\<lparr>r_auto_required := None\<rparr>;
          evidence = legacy\<lparr>r_id := ''legacy-evidence'', r_funded_tao := 1\<rparr> in
      io_bind (so_insert ops legacy) (\<lambda>_.
      io_bind (fails (so_migrate_legacy_policy ops (r_id legacy) 1 None now)) (\<lambda>_.
      io_bind (so_migrate_legacy_policy ops (r_id legacy) 0 None now) (\<lambda>migrated.
      io_bind (check (r_auto_required migrated = Some False)) (\<lambda>_.
      io_bind (check (r_version migrated = 1)) (\<lambda>_.
      io_bind (fails (so_migrate_legacy_policy ops (r_id legacy) 1 None now)) (\<lambda>_.
      io_bind (so_insert ops evidence) (\<lambda>_.
      io_bind (fails (so_migrate_legacy_policy ops (r_id evidence) 0 None now)) (\<lambda>_.
      io_bind (reading (so_get ops (r_id evidence))) (\<lambda>got.
      io_bind (unwrap got) (\<lambda>got.
      check (r_funded_tao got = 1))))))))))))"

text \<open>Tokens are the random ids of the reservations, all different.\<close>

definition preparation_cancellation_requires_current_token ::
    "'k crypto \<Rightarrow> string \<Rightarrow> string \<Rightarrow> string \<Rightarrow> u64 \<Rightarrow> (sqlite_db, error, unit) io" where
  "preparation_cancellation_requires_current_token cr t1 t2 t3 now =
     (let ops = sqlite_ops cr; rec = (test_record ''prepare-cancel'')\<lparr>r_auto_required := None\<rparr> in
      io_bind (so_insert ops rec) (\<lambda>_.
      io_bind (so_reserve_signer_for_record ops ''signer'' rec t1) (\<lambda>token.
      io_bind (fails (so_migrate_legacy_policy ops (r_id rec) (r_version rec) None now)) (\<lambda>_.
      io_bind (fails (so_cancel_preparation ops ''signer'' (r_id rec) ''wrong'')) (\<lambda>_.
      io_bind (so_cancel_preparation ops ''signer'' (r_id rec) token) (\<lambda>_.
      io_bind (so_reserve_signer_for_record ops ''signer'' rec t2) (\<lambda>replacement.
      io_bind (fails (so_cancel_preparation ops ''signer'' (r_id rec) token)) (\<lambda>_.
      let pending = \<lparr>pd_action = Fund, pd_reservation = Some replacement, pd_signer = ''signer'', pd_nonce = 0,
            pd_tx_hash = ''hash'', pd_birth_block = 1, pd_amount = 1\<rparr> in
      io_bind (so_update ops (rec\<lparr>r_pending := Some pending\<rparr>) now) (\<lambda>_.
      io_bind (fails (so_cancel_preparation ops ''signer'' (r_id rec) replacement)) (\<lambda>_.
      fails (so_reserve_signer ops ''signer'' ''other'' t3)))))))))))"

text \<open>Both handles are connections to one database.\<close>

definition legacy_migration_fences_stale_reservers ::
    "'k crypto \<Rightarrow> account_id \<Rightarrow> string \<Rightarrow> u64 \<Rightarrow> (sqlite_db, error, unit) io" where
  "legacy_migration_fences_stale_reservers cr bob t now =
     (let ops = sqlite_ops cr; rec = (test_record ''legacy-budget'')\<lparr>r_auto_required := None\<rparr>;
          budget = \<lparr>bb_amount_rao = 0, bb_currency = ''TAO'', bb_source = ''operator-allocation'', bb_netuid = 100,
            bb_destroy = Burn, bb_hotkey = ss58 cr bob\<rparr> in
      io_bind (so_insert ops rec) (\<lambda>_.
      io_bind (fails (so_migrate_legacy_policy ops (r_id rec) 0 (Some budget) now)) (\<lambda>_.
      let budget = budget\<lparr>bb_amount_rao := MIN_STAKE_RAO\<rparr> in
      io_bind (so_migrate_legacy_policy ops (r_id rec) 0 (Some budget) now) (\<lambda>migrated.
      io_bind (check (r_auto_required migrated = Some True)) (\<lambda>_.
      io_bind (reading (so_get ops (r_id rec))) (\<lambda>got.
      io_bind (unwrap got) (\<lambda>got.
      io_bind (check (r_buyback_budget got = Some budget)) (\<lambda>_.
      io_bind (fails (so_reserve_signer_for_record ops ''signer'' rec t)) (\<lambda>_.
      fails (so_update ops (migrated\<lparr>r_buyback_budget := None\<rparr>) now))))))))))"

text \<open>The two processes run in either order; each ends right after its reservation.\<close>

definition two_processes_one_signer ::
    "'k crypto \<Rightarrow> string \<times> string \<Rightarrow> string \<times> string \<Rightarrow> (string \<Rightarrow> string) \<Rightarrow> (sqlite_db, error, unit) io" where
  "two_processes_one_signer cr first second token =
     (let ops = sqlite_ops cr in
      io_bind (io_attempt (so_reserve_signer ops ''shared-signer'' (fst first) (snd first))) (\<lambda>x.
      io_bind (io_attempt (so_reserve_signer ops ''shared-signer'' (fst second) (snd second))) (\<lambda>y.
      io_bind (check (length (filter is_ok [x, y]) = 1)) (\<lambda>_.
      io_bind (fails (so_reserve_signer ops ''shared-signer'' ''job-a'' (token ''a''))) (\<lambda>_.
      io_bind (fails (so_reserve_signer ops ''shared-signer'' ''job-b'' (token ''b''))) (\<lambda>_.
      io_bind (fails (so_reserve_signer ops ''shared-signer'' ''job-c'' (token ''c''))) (\<lambda>_.
      io_bind (so_reserve_signer ops ''different-signer'' ''job-c'' (token ''d'')) (\<lambda>_. io_ret ()))))))))"

definition legacy_pending_signer_is_quarantined :: "'k crypto \<Rightarrow> string \<Rightarrow> string \<Rightarrow> (sqlite_db, error, unit) io" where
  "legacy_pending_signer_is_quarantined cr t1 t2 =
     (let ops = sqlite_ops cr;
          pending = \<lparr>pd_action = Fund, pd_reservation = None, pd_signer = ''legacy-signer'', pd_nonce = 1,
            pd_tx_hash = ''hash'', pd_birth_block = 10, pd_amount = 1\<rparr> in
      io_bind (so_insert ops ((test_record ''legacy'')\<lparr>r_pending := Some pending\<rparr>)) (\<lambda>_.
      io_bind (fails (so_reserve_signer ops ''legacy-signer'' ''new-job'' t1)) (\<lambda>_.
      io_bind (so_reserve_signer ops ''other-signer'' ''new-job'' t2) (\<lambda>_.
      check (\<not> is_ok (so_require_signing (file_ops cr) []))))))"

lemmas test_eval = passes_def reading_def unwrap_def fails_def check_def is_ok_def test_record_def

lemmas sqlite_eval = sqlite_insert_def sqlite_get_def sqlite_update_def sqlite_migrate_legacy_policy_def
  sqlite_reserve_signer_for_record_def sqlite_reserve_signer_def sqlite_cancel_preparation_def reserve_def update_checks_def
  find_row_def set_rows_def written_row_def signer_pending_def journal_signer_def owns_def i64_try_from_def checked_add_def

lemma migration_preserves_evidence:
  "passes (migration_preserves_evidence (sqlite_ops cr) now) empty_db"
  "passes (migration_preserves_evidence (file_ops cr) now) []"
  by (simp_all add: migration_preserves_evidence_def test_eval io_simps sqlite_eval migrated_policy_def has_evidence_def empty_db_def
      file_insert_def file_get_def file_migrate_legacy_policy_def file_path_def file_read_def is_ascii_alphanumeric_def is_ascii_digit_def byte_of_def
      file_name_def map_of_file_write Let_def)

lemma preparation_cancellation_requires_current_token:
  assumes "t1 \<noteq> ''wrong''" and "t1 \<noteq> t2"
  shows "passes (preparation_cancellation_requires_current_token cr t1 t2 t3 now) empty_db"
  using assms
  by (simp add: preparation_cancellation_requires_current_token_def test_eval io_simps sqlite_eval empty_db_def Let_def)

lemma legacy_migration_fences_stale_reservers:
  assumes "ss58_correct cr"
  shows "passes (legacy_migration_fences_stale_reservers cr bob t now) empty_db"
proof -
  have b: "budget_validate cr \<lparr>bb_amount_rao = a, bb_currency = ''TAO'', bb_source = ''operator-allocation'', bb_netuid = 100,
      bb_destroy = Burn, bb_hotkey = ss58 cr bob\<rparr> =
    (if a < MIN_STAKE_RAO then Inl (ErrConfig ''explicit TAO buyback budget/source required'') else Inr ())" for a
    using assms by (simp add: budget_validate_def ss58_correct_def ss58_def parse_ss58_def trim_def ws1_def ws2_def ws3_def byte_of_def)
  show ?thesis
    by (simp add: legacy_migration_fences_stale_reservers_def test_eval io_simps sqlite_eval b migrated_policy_def has_evidence_def
        empty_db_def MIN_STAKE_RAO_def Let_def)
qed

lemma two_processes_one_signer:
  assumes "{fst first, fst second} = {''job-a'', ''job-b''}" and "snd first \<noteq> token ''d''" and "snd second \<noteq> token ''d''"
  shows "passes (two_processes_one_signer cr first second token) empty_db"
  using assms by (simp add: two_processes_one_signer_def test_eval io_simps sqlite_eval empty_db_def Let_def)

lemma legacy_pending_signer_is_quarantined:
  "passes (legacy_pending_signer_is_quarantined cr t1 t2) empty_db"
  by (simp add: legacy_pending_signer_is_quarantined_def test_eval io_simps sqlite_eval empty_db_def default_defs Let_def)

end
