(* ===== verification/Journal_Tests.thy ===== *)
theory Journal_Tests
  imports Store_Tests Journal_Outcomes Simulated_Chain
begin

text \<open>
  The tests of the journal protocol in \<open>src/src/engine.rs\<close> (\<open>strict_budget_tests\<close> and the first half of
  \<open>journal_rpc_tests\<close>) with their two fake transports, run on the model.  A fake implements
  \<open>TransactionRpc\<close> only: whatever else a transport has is the parameter \<open>rest\<close>, and so is an
  operation whose fake panics, so a test passes whatever it would do.  Random ids are taken from a
  list; the clock stands still.
\<close>

section \<open>Strict budgets\<close>

definition no_silent_clamp_or_skipped_success :: bool where
  "no_silent_clamp_or_skipped_success \<longleftrightarrow>
     \<not> is_ok (strict_buyback_amount 0 (- 1)) \<and>
     \<not> is_ok (strict_buyback_amount (MIN_STAKE_RAO - 1) (- 1)) \<and>
     \<not> is_ok (strict_buyback_amount MIN_STAKE_RAO (MIN_STAKE_RAO - 1)) \<and>
     strict_buyback_amount MIN_STAKE_RAO MIN_STAKE_RAO = Inr MIN_STAKE_RAO \<and>
     strict_buyback_amount MIN_STAKE_RAO (- 1) = Inr MIN_STAKE_RAO"

lemma no_silent_clamp_or_skipped_success: no_silent_clamp_or_skipped_success
  by (simp add: no_silent_clamp_or_skipped_success_def strict_buyback_amount_def MIN_STAKE_RAO_def is_ok_def)

section \<open>Fake transports\<close>

definition next_token :: "'t \<times> string list \<Rightarrow> string \<times> 't \<times> string list" where
  "next_token = (\<lambda>(s, ts). case ts of [] \<Rightarrow> ([], s, []) | t # ts \<Rightarrow> (t, s, ts))"

definition fake_system :: "u64 \<Rightarrow> ('t \<times> string list, 'k) rpc \<Rightarrow> ('t \<times> string list, 'k) rpc" where
  "fake_system now rest =
     rest\<lparr>rp_others := (\<lambda>c. ([], c)), rp_now := (\<lambda>c. (now, c)), rp_uuid := next_token\<rparr>"

definition prepare_failure :: "('c, 'k) rpc \<Rightarrow> ('c, 'k) rpc" where
  "prepare_failure rest = rest\<lparr>rp_prepare := (\<lambda>_ _ c. (Inl (ErrChain ''prepare RPC timeout before submission''), c))\<rparr>"

record lost_reply =
  lp_broadcasts :: nat
  lp_summary :: event_summary
  lp_lookup :: nat
  lp_dead :: bool

definition lost_prepare :: "'k crypto \<Rightarrow> chain_call \<Rightarrow> 'k \<Rightarrow> lost_reply \<Rightarrow> prepared_tx" where
  "lost_prepare cr call signer s =
     \<lparr>pp_call = call, pp_signer = ss58 cr (cr_account_id cr signer), pp_nonce = 7,
      pp_tx_hash = ''hash-'' @ show_nat (lp_broadcasts s), pp_birth_block = 100, pp_bytes = []\<rparr>"

definition lost_broadcast :: "lost_reply \<Rightarrow> finalized_tx res \<times> lost_reply" where
  "lost_broadcast s = (Inl (ErrChain ''connection lost after inclusion''), s\<lparr>lp_broadcasts := lp_broadcasts s + 1\<rparr>)"

definition lost_find_pending :: "lost_reply \<Rightarrow> pending_outcome res \<times> lost_reply" where
  "lost_find_pending s =
     (if lp_dead s then (Inr Dead, s)
      else
        let n = lp_lookup s; s = s\<lparr>lp_lookup := n + 1\<rparr> in
        if n = 0 then (Inl (ErrChain ''intermittent RPC''), s)
        else if n = 1 then (Inr Wait, s)
        else (Inr (Included ''finalized-test-block'' (lp_summary s)), s))"

definition lost_reply_rpc :: "'k crypto \<Rightarrow> (lost_reply \<times> 'c, 'k) rpc \<Rightarrow> (lost_reply \<times> 'c, 'k) rpc" where
  "lost_reply_rpc cr rest =
     rest\<lparr>rp_prepare := (\<lambda>call signer (s, c). (Inr (lost_prepare cr call signer s), s, c)),
          rp_broadcast := (\<lambda>_ (s, c). let (r, s) = lost_broadcast s in (r, s, c)),
          rp_find_pending := (\<lambda>_ (s, c). let (r, s) = lost_find_pending s in (r, s, c))\<rparr>"

text \<open>A client of the SQLite store over each of them, and the world in which a test starts.\<close>

definition failing_client :: "'k crypto \<Rightarrow> u64 \<Rightarrow> ('t \<times> string list, 'k) rpc \<Rightarrow> ('t \<times> string list, sqlite_db, 'k) client" where
  "failing_client cr now rest =
     \<lparr>cl_rpc = prepare_failure (fake_system now rest), cl_store = sqlite_ops cr, cl_crypto = cr\<rparr>"

definition lost_client ::
    "'k crypto \<Rightarrow> u64 \<Rightarrow> (lost_reply \<times> string list, 'k) rpc \<Rightarrow> (lost_reply \<times> string list, sqlite_db, 'k) client" where
  "lost_client cr now rest =
     \<lparr>cl_rpc = lost_reply_rpc cr (fake_system now rest), cl_store = sqlite_ops cr, cl_crypto = cr\<rparr>"

definition start :: "'t \<Rightarrow> string list \<Rightarrow> ('t \<times> string list, sqlite_db) world" where
  "start s tokens = \<lparr>w_env = (s, tokens), w_db = empty_db, w_events = [], w_sent = []\<rparr>"

definition st_reserve_signer :: "('c, 'd, 'k) client \<Rightarrow> string \<Rightarrow> string \<Rightarrow> ('c, 'd, string) act" where
  "st_reserve_signer cl signer job =
     io_bind (uuid_do cl) (\<lambda>token. db_do cl (so_reserve_signer (cl_store cl) signer job token))"

definition get_stored :: "('c, 'd, 'k) client \<Rightarrow> string \<Rightarrow> ('c, 'd, payment_record) act" where
  "get_stored cl i = io_bind (st_get cl i) unwrap"

definition broadcasts :: "(lost_reply \<times> 'c, 'd, nat) act" where
  "broadcasts = (\<lambda>w. (Inr (lp_broadcasts (fst (w_env w))), w))"

text \<open>A new fake with the same list of ids.\<close>

definition new_fake :: "'t \<Rightarrow> ('t \<times> 'c, 'd, unit) act" where
  "new_fake s = (\<lambda>w. (Inr (), w\<lparr>w_env := (s, snd (w_env w))\<rparr>))"

section \<open>Preparing\<close>

definition returned_prepare_failure_releases ::
    "('c, 'd, 'k) client \<Rightarrow> 'k \<Rightarrow> ('c, 'd, unit) act" where
  "returned_prepare_failure_releases cl alice =
     (let cr = cl_crypto cl; rec = test_record ''prepare-error''; who = cr_account_id cr alice;
          call = TransferTao who 1;
          attempt =
            io_bind (fails (send_journaled cl rec Fund call alice)) (\<lambda>_.
            io_bind (get_stored cl (r_id rec)) (\<lambda>got.
            check (r_pending got = None)))
      in
      io_bind (st_insert cl rec) (\<lambda>_.
      io_bind attempt (\<lambda>_.
      io_bind attempt (\<lambda>_.
      io_bind (st_reserve_signer cl (ss58 cr who) ''other-job'') (\<lambda>_. io_ret ())))))"

text \<open>A preparation that never returns is cancelled with its future: what stays is what \<open>send_journaled\<close>
  did before it.\<close>

definition stalled_send :: "('c, 'd, 'k) client \<Rightarrow> payment_record \<Rightarrow> 'k \<Rightarrow> ('c, 'd, string) act" where
  "stalled_send cl r signer =
     (if r_pending r \<noteq> None then io_fail (ErrStore ''reconcile pending transaction before preparing another'')
      else st_reserve cl (ss58 (cl_crypto cl) (cr_account_id (cl_crypto cl) signer)) r)"

lemma stalled_send_prefix:
  "send_journaled cl r a call signer =
     io_bind (stalled_send cl r signer) (\<lambda>t.
     io_bind (io_attempt (rpc_do (rp_prepare (cl_rpc cl) call signer)))
       (send_prepared cl r a call (ss58 (cl_crypto cl) (cr_account_id (cl_crypto cl) signer)) t))"
  by (rule ext) (simp add: send_journaled_stages stalled_send_def io_simps Let_def)

definition cancelled_preparation_stays_fenced ::
    "(lost_reply \<times> 'c, 'd, 'k) client \<Rightarrow> 'k \<Rightarrow> 'k \<Rightarrow> (lost_reply \<times> 'c, 'd, unit) act" where
  "cancelled_preparation_stays_fenced cl alice bob =
     (let cr = cl_crypto cl; rec = test_record ''cancelled-prepare''; who = cr_account_id cr alice;
          bob_address = ss58 cr (cr_account_id cr bob); call = TransferTao who 1 in
      io_bind (st_insert cl rec) (\<lambda>_.
      io_bind (stalled_send cl rec alice) (\<lambda>_.
      io_bind (fails (st_reserve_signer cl (ss58 cr who) ''other'')) (\<lambda>_.
      io_bind (st_reserve_signer cl bob_address (r_id rec)) (\<lambda>_.
      io_bind (rpc_do (rp_prepare (cl_rpc cl) call bob)) (\<lambda>prepared.
      io_bind (check (pp_signer prepared = bob_address)) (\<lambda>_.
      io_bind (fails (st_reserve_signer cl bob_address ''other'')) (\<lambda>_.
      io_bind broadcasts (\<lambda>n.
      check (n = 0))))))))))"

section \<open>Lost replies\<close>

definition recover_step ::
    "(lost_reply \<times> 'c, 'd, 'k) client \<Rightarrow> 'k \<Rightarrow> action \<Rightarrow> chain_call \<Rightarrow> event_summary \<Rightarrow> payment_record \<Rightarrow>
     (lost_reply \<times> 'c, 'd, payment_record) act" where
  "recover_step cl signer a call summary rec =
     io_bind (new_fake \<lparr>lp_broadcasts = 0, lp_summary = summary, lp_lookup = 0, lp_dead = False\<rparr>) (\<lambda>_.
     io_bind (fails (send_journaled cl rec a call signer)) (\<lambda>_.
     io_bind (get_stored cl ''simulation'') (\<lambda>rec.
     io_bind (unwrap (r_pending rec)) (\<lambda>pending.
     io_bind (check (pd_action pending = a)) (\<lambda>_.
     io_bind (check (pd_tx_hash pending = ''hash-0'')) (\<lambda>_.
     io_bind (fails (send_journaled cl rec a call signer)) (\<lambda>_.
     io_bind broadcasts (\<lambda>n.
     io_bind (check (n = 1)) (\<lambda>_.
     let before = r_version rec in
     io_bind (fails (reconcile_journaled cl rec pending 8)) (\<lambda>_.
     io_bind (reconcile_journaled cl rec pending 8) (\<lambda>(changed, rec).
     io_bind (check (\<not> changed)) (\<lambda>_.
     io_bind (check (r_version rec = before)) (\<lambda>_.
     io_bind (get_stored cl ''simulation'') (\<lambda>stored.
     io_bind (check (r_pending stored = Some pending)) (\<lambda>_.
     io_bind (reconcile_journaled cl rec pending 8) (\<lambda>(changed, rec).
     io_bind (check changed) (\<lambda>_.
     io_bind (check (r_pending rec = None)) (\<lambda>_.
     io_bind (fails (reconcile_journaled cl rec pending 8)) (\<lambda>_.
     if r_state rec = Funded \<and> 0 < r_swept_alpha rec
     then io_bind (io_lift (transition Swept rec)) (st_update cl)
     else io_ret rec)))))))))))))))))))"

definition simulation_record :: "'k crypto \<Rightarrow> account_id \<Rightarrow> sealed_secret \<Rightarrow> payment_record" where
  "simulation_record cr who sealed =
     \<lparr>r_id = ''simulation'', r_address = ss58 cr who, r_netuid = 100, r_min_alpha = 0, r_min_tao = None,
      r_created_at = 1, r_expires_at = 9999999999, r_state = Detected, r_version = 0, r_sealed_secret = sealed,
      r_metadata = None, r_callback_url = None, r_detected_alpha = 0, r_detected_tao = 0, r_funded_tao = 0,
      r_swept_alpha = 0, r_txs = [], r_buyback = None, r_buyback_budget = None, r_auto_required = None,
      r_identity = None, r_attempts = 0, r_next_attempt_at = 0, r_last_error = None, r_failed_from = None,
      r_pending = None, r_quarantined = None, r_swept_positions = [], r_consolidated = 0, r_dust_returned = False,
      r_buyback_done = False, r_notified = False, r_updated_at = 1, r_derivation_path = None\<rparr>"

definition durable_journal_recovers_lost_replies ::
    "(lost_reply \<times> 'c, 'd, 'k) client \<Rightarrow> 'k \<Rightarrow> sealed_secret \<Rightarrow> (lost_reply \<times> 'c, 'd, unit) act" where
  "durable_journal_recovers_lost_replies cl wallet sealed =
     (let cr = cl_crypto cl; who = cr_account_id cr wallet; rec = simulation_record cr who sealed in
      io_bind (st_insert cl rec) (\<lambda>_.
      io_bind (recover_step cl wallet Fund (TransferTao who 3000000) no_summary rec) (\<lambda>rec.
      io_bind (recover_step cl wallet (Sweep (ss58 cr who)) (TransferStake who who 100 10)
                 (no_summary\<lparr>es_names := [(PALLET, ''StakeTransferred'')]\<rparr>) rec) (\<lambda>rec.
      io_bind (recover_step cl wallet (BuyStake 100 1) (AddStakeLimit who 100 MIN_STAKE_RAO 1 False)
                 (no_summary\<lparr>es_stake_added := Some (MIN_STAKE_RAO, 20)\<rparr>) rec) (\<lambda>rec.
      io_bind (recover_step cl wallet (Destroy 100 False) (BurnAlpha who 100 20)
                 (no_summary\<lparr>es_alpha_destroyed := Some 20\<rparr>) rec) (\<lambda>rec.
      io_bind (check (length (r_txs rec) = 4)) (\<lambda>_.
      io_bind (check (r_swept_alpha rec = 10)) (\<lambda>_.
      io_bind (unwrap (r_buyback rec)) (\<lambda>receipt.
      io_bind (check (br_tao_spent receipt = MIN_STAKE_RAO)) (\<lambda>_.
      io_bind (check (br_alpha_destroyed receipt = 20)) (\<lambda>_.
      io_bind (check (r_buyback_done rec)) (\<lambda>_.
      io_bind (io_lift (transition Settled rec)) (\<lambda>rec.
      io_bind (st_update cl rec) (\<lambda>_. io_ret ()))))))))))))))"

definition stale_journal_cannot_broadcast :: "(lost_reply \<times> 'c, 'd, 'k) client \<Rightarrow> 'k \<Rightarrow> (lost_reply \<times> 'c, 'd, unit) act" where
  "stale_journal_cannot_broadcast cl wallet =
     (let cr = cl_crypto cl; rec = test_record ''stale''; who = cr_account_id cr wallet in
      io_bind (st_insert cl rec) (\<lambda>_.
      io_bind (st_update cl rec) (\<lambda>_.
      io_bind (new_fake \<lparr>lp_broadcasts = 0, lp_summary = no_summary, lp_lookup = 2, lp_dead = False\<rparr>) (\<lambda>_.
      io_bind (io_attempt (send_journaled cl rec Fund (TransferTao who 1) wallet)) (\<lambda>x.
      io_bind (check (case x of Inl (Conflict _) \<Rightarrow> True | _ \<Rightarrow> False)) (\<lambda>_.
      io_bind broadcasts (\<lambda>n.
      io_bind (check (n = 0)) (\<lambda>_.
      io_bind (check (r_pending rec = None)) (\<lambda>_.
      io_bind (st_reserve_signer cl (ss58 cr who) ''next'') (\<lambda>_. io_ret ()))))))))))"

definition invalid_finalized_burn_quarantines :: "(lost_reply \<times> 'c, 'd, 'k) client \<Rightarrow> (lost_reply \<times> 'c, 'd, unit) act" where
  "invalid_finalized_burn_quarantines cl =
     (let tx = \<lparr>tr_action = ''add_stake_limit'', tr_tx_hash = ''buy'', tr_block_hash = ''block'', tr_amount = MIN_STAKE_RAO\<rparr>;
          rec = (test_record ''burn'')
            \<lparr>r_state := Swept,
             r_buyback := Some \<lparr>br_netuid = 100, br_tao_spent = MIN_STAKE_RAO, br_alpha_bought = 20, br_limit_price = 1,
               br_stake_tx = tx, br_destroy_tx = None, br_alpha_destroyed = 0\<rparr>\<rparr> in
      io_bind (st_reserve_signer cl ''test-only'' ''burn'') (\<lambda>token.
      let pending = \<lparr>pd_action = Destroy 100 False, pd_reservation = Some token, pd_signer = ''test-only'', pd_nonce = 1,
            pd_tx_hash = ''burn'', pd_birth_block = 100, pd_amount = 20\<rparr>; rec = rec\<lparr>r_pending := Some pending\<rparr> in
      io_bind (st_insert cl rec) (\<lambda>_.
      io_bind (new_fake \<lparr>lp_broadcasts = 0, lp_summary = no_summary\<lparr>es_alpha_destroyed := Some 19\<rparr>, lp_lookup = 2,
        lp_dead = False\<rparr>) (\<lambda>_.
      io_bind (reconcile_journaled cl rec pending 8) (\<lambda>(changed, _).
      io_bind (check changed) (\<lambda>_.
      io_bind (get_stored cl ''burn'') (\<lambda>stored.
      io_bind (check (r_pending stored = None)) (\<lambda>_.
      io_bind (check (r_quarantined stored = Some pending)) (\<lambda>_.
      io_bind (check (\<not> r_buyback_done stored)) (\<lambda>_.
      io_bind (check (r_state stored = Failed)) (\<lambda>_.
      io_bind (check (length (r_txs stored) = 1)) (\<lambda>_.
      io_bind (st_reserve_signer cl ''test-only'' ''another-job'') (\<lambda>_.
      io_bind broadcasts (\<lambda>n.
      check (n = 0)))))))))))))))"

definition verified_dead_intent_releases_signer :: "(lost_reply \<times> 'c, 'd, 'k) client \<Rightarrow> (lost_reply \<times> 'c, 'd, unit) act" where
  "verified_dead_intent_releases_signer cl =
     io_bind (st_reserve_signer cl ''signer'' ''dead'') (\<lambda>token.
     let pending = \<lparr>pd_action = Fund, pd_reservation = Some token, pd_signer = ''signer'', pd_nonce = 1,
           pd_tx_hash = ''dead-hash'', pd_birth_block = 1, pd_amount = 1\<rparr>;
         rec = (test_record ''dead'')\<lparr>r_pending := Some pending\<rparr> in
     io_bind (st_insert cl rec) (\<lambda>_.
     io_bind (new_fake \<lparr>lp_broadcasts = 0, lp_summary = no_summary, lp_lookup = 0, lp_dead = True\<rparr>) (\<lambda>_.
     io_bind (reconcile_journaled cl rec pending 8) (\<lambda>(changed, rec).
     io_bind (check changed) (\<lambda>_.
     io_bind (check (r_pending rec = None)) (\<lambda>_.
     io_bind (check (\<not> r_buyback_done rec)) (\<lambda>_.
     io_bind (st_reserve_signer cl ''signer'' ''next'') (\<lambda>_.
     io_bind broadcasts (\<lambda>n.
     check (n = 0))))))))))"

section \<open>They pass\<close>

lemmas fake_eval = failing_client_def lost_client_def fake_system_def prepare_failure_def lost_reply_rpc_def next_token_def
  lost_prepare_def lost_broadcast_def lost_find_pending_def st_reserve_signer_def get_stored_def broadcasts_def new_fake_def

lemmas journal_eval = test_eval io_simps call_defs sqlite_eval fake_eval Let_def

lemma returned_prepare_failure_releases:
  "passes (returned_prepare_failure_releases (failing_client cr now rest) alice) (start s [t1, t2, t3])"
  "w_sent (snd (returned_prepare_failure_releases (failing_client cr now rest) alice (start s [t1, t2, t3]))) = []"
  by (simp_all add: returned_prepare_failure_releases_def send_journaled_def start_def empty_db_def journal_eval)

lemma cancelled_preparation_stays_fenced:
  assumes "ss58 cr (cr_account_id cr alice) \<noteq> ss58 cr (cr_account_id cr bob)" and "t1 \<noteq> t3"
  shows "passes (cancelled_preparation_stays_fenced (lost_client cr now rest) alice bob)
     (start \<lparr>lp_broadcasts = 0, lp_summary = no_summary, lp_lookup = 0, lp_dead = False\<rparr> [t1, t2, t3, t4])"
  using assms
  by (simp add: cancelled_preparation_stays_fenced_def stalled_send_def start_def empty_db_def journal_eval)

lemma stale_journal_cannot_broadcast:
  "passes (stale_journal_cannot_broadcast (lost_client cr now rest) wallet) (start s [t1, t2])"
  by (simp add: stale_journal_cannot_broadcast_def send_journaled_def start_def empty_db_def journal_eval)

lemma verified_dead_intent_releases_signer:
  "passes (verified_dead_intent_releases_signer (lost_client cr now rest)) (start s [t1, t2])"
  by (simp add: verified_dead_intent_releases_signer_def reconcile_journaled_def start_def empty_db_def journal_eval)

lemmas receipt_eval = reconcile_journaled_def included_record_def apply_tx_def pending_tx_ref_def record_failure_def
  no_summary_def

lemma invalid_finalized_burn_quarantines:
  "passes (invalid_finalized_burn_quarantines (lost_client cr now rest)) (start s [t1, t2])"
  by (simp add: invalid_finalized_burn_quarantines_def receipt_eval start_def empty_db_def journal_eval)

lemma show_nat_0: "show_nat 0 = ''0''"
  by (simp add: show_nat.simps [of 0] digit_char_def char_of_def bit_numeral_rec bit_0)

lemma durable_journal_recovers_lost_replies:
  "passes (durable_journal_recovers_lost_replies (lost_client cr now rest) wallet sealed) (start s [t1, t2, t3, t4])"
  by (simp add: durable_journal_recovers_lost_replies_def recover_step_def simulation_record_def send_journaled_def
      journal_entry_def receipt_eval show_nat_0 summary_has_def transition_def resume_ok_def start_def empty_db_def journal_eval)

end
