(* ===== verification/Engine_Tests.thy ===== *)
theory Engine_Tests
  imports Journal_Tests Engine_Wallets
begin

text \<open>
  The tests of \<open>src/src/engine.rs\<close> that run a whole engine over \<open>SimulatedChain\<close> (\<open>Simulated_Chain\<close>),
  run on the model: starting without a hotkey, identities, a job that keeps its policy when the
  configuration changes, and a job that survives a lost reply and a restart after each transaction.
  Operations whose fake panics are parameters, and never run.
\<close>

section \<open>The engine of the tests\<close>

definition list_system :: "u64 \<Rightarrow> string list system \<Rightarrow> string list system" where
  "list_system now os =
     os\<lparr>os_now := (\<lambda>c. (now, c)), os_random := (\<lambda>n c. (replicate n 0, c)),
        os_uuid := (\<lambda>ts. case ts of [] \<Rightarrow> ([], []) | t # ts \<Rightarrow> (t, ts))\<rparr>"

definition sim_client ::
    "'k crypto \<Rightarrow> 'c system \<Rightarrow> account_id option \<Rightarrow> 'k \<Rightarrow> (simulated_chain \<times> 'c, sqlite_db, 'k) client" where
  "sim_client cr os owner treasury =
     \<lparr>cl_rpc = simulated_rpc cr os (cr_account_id cr treasury) owner, cl_store = sqlite_ops cr, cl_crypto = cr\<rparr>"

definition sim_engine ::
    "'k crypto \<Rightarrow> 'c system \<Rightarrow> account_id option \<Rightarrow> 'k \<Rightarrow> config \<Rightarrow> (simulated_chain \<times> 'c, sqlite_db, 'k) engine" where
  "sim_engine cr os owner treasury cfg =
     engine_new (sim_client cr os owner treasury) (keyring_of_master (replicate 32 42)) treasury cfg"

definition sim_sent :: "(simulated_chain \<times> 'c, 'd, nat) act" where
  "sim_sent = (\<lambda>w. (Inr (sim_broadcasts (fst (w_env w))), w))"

definition sim_start :: "string list \<Rightarrow> (simulated_chain \<times> string list, sqlite_db) world" where
  "sim_start tokens = start \<lparr>sim_broadcasts = 0, sim_result = no_summary\<rparr> tokens"

definition refused_config :: "('w, error, 'a) io \<Rightarrow> ('w, error, unit) io" where
  "refused_config m =
     io_bind (io_attempt m) (\<lambda>x. check (case x of Inl (ErrConfig _) \<Rightarrow> True | _ \<Rightarrow> False))"

section \<open>The tests\<close>

definition startup_missing_hotkey_never_submits ::
    "'k crypto \<Rightarrow> 'c system \<Rightarrow> 'k \<Rightarrow> (simulated_chain \<times> 'c, sqlite_db, unit) act" where
  "startup_missing_hotkey_never_submits cr os treasury =
     (let who = cr_account_id cr treasury; signer = ss58 cr who;
          en = sim_engine cr os None treasury (config_new ''unused'' 100 who); cl = en_client en in
      io_bind (st_reserve_signer cl signer ''unresolved'') (\<lambda>_.
      io_bind (refused_config (ensure_treasury_hotkey en)) (\<lambda>_.
      io_bind (refused_config (ensure_treasury_hotkey en)) (\<lambda>_.
      io_bind (refused_config (buyback en 1)) (\<lambda>_.
      io_bind (refused_config (buyback_and_burn en 1)) (\<lambda>_.
      io_bind (refused_config (buyback_and_recycle en 1)) (\<lambda>_.
      io_bind (refused_config (buyback_all en Burn)) (\<lambda>_.
      io_bind (refused_config (buyback_with en 1 Keep)) (\<lambda>_.
      io_bind sim_sent (\<lambda>n.
      io_bind (check (n = 0)) (\<lambda>_.
      fails (st_reserve_signer cl signer ''other''))))))))))))"

definition no_opts :: create_payment_opts where
  "no_opts = \<lparr>cp_min_alpha = None, cp_expiry_secs = None, cp_metadata = None, cp_callback_url = None\<rparr>"

text \<open>The four records of another identity.\<close>

definition other_identities :: "job_identity \<Rightarrow> job_identity option list" where
  "other_identities i =
     [None, Some (i\<lparr>ji_genesis_hash := ''other''\<rparr>), Some (i\<lparr>ji_treasury := ''other''\<rparr>),
      Some (i\<lparr>ji_treasury_hotkey := ''other''\<rparr>)]"

fun refuse_all :: "('c, 'd, 'k) engine \<Rightarrow> payment_record \<Rightarrow> job_identity option list \<Rightarrow> ('c, 'd, unit) act" where
  "refuse_all en record [] = io_ret ()"
| "refuse_all en record (i # is) =
     (let bad = record\<lparr>r_identity := i\<rparr> in
      io_bind (fails (st_update (en_client en) bad)) (\<lambda>_.
      io_bind (fails (step en bad [])) (\<lambda>_.
      refuse_all en record is)))"

definition identity_is_persisted ::
    "'k crypto \<Rightarrow> 'c system \<Rightarrow> 'k \<Rightarrow> (simulated_chain \<times> 'c, sqlite_db, unit) act" where
  "identity_is_persisted cr os treasury =
     (let who = cr_account_id cr treasury;
          en = sim_engine cr os (Some who) treasury (config_new ''unused'' 100 who) in
      io_bind (create_payment en no_opts) (\<lambda>request.
      io_bind (get_stored (en_client en) (pr_id request)) (\<lambda>record.
      io_bind (check (r_identity record = Some (job_identity_of en))) (\<lambda>_.
      io_bind (refuse_all en record (other_identities (job_identity_of en))) (\<lambda>_.
      io_bind sim_sent (\<lambda>n.
      check (n = 0)))))))"

fun transitions_stored ::
    "('c, 'd, 'k) client \<Rightarrow> payment_state list \<Rightarrow> payment_record \<Rightarrow> ('c, 'd, payment_record) act" where
  "transitions_stored cl [] r = io_ret r"
| "transitions_stored cl (s # ss) r =
     io_bind (io_lift (transition s r)) (\<lambda>r.
     io_bind (st_update cl r) (transitions_stored cl ss))"

definition persisted_auto_off_settles ::
    "'k crypto \<Rightarrow> 'c system \<Rightarrow> 'k \<Rightarrow> (simulated_chain \<times> 'c, sqlite_db, unit) act" where
  "persisted_auto_off_settles cr os treasury =
     (let who = cr_account_id cr treasury;
          cfg = (config_new ''unused'' 100 who)\<lparr>c_auto := Off, c_consolidate := False, c_return_dust := False\<rparr>;
          en = sim_engine cr os (Some who) treasury cfg in
      io_bind (create_payment en no_opts) (\<lambda>request.
      io_bind (get_stored (en_client en) (pr_id request)) (\<lambda>record.
      io_bind (check (r_auto_required record = Some False)) (\<lambda>_.
      io_bind (check (r_buyback_budget record = None)) (\<lambda>_.
      io_bind (transitions_stored (en_client en) [Detected, Funded, Swept] record) (\<lambda>_.
      let en = sim_engine cr os (Some who) treasury (cfg\<lparr>c_auto := On Burn (Fixed MIN_STAKE_RAO)\<rparr>) in
      io_bind (tick en) (\<lambda>changed.
      io_bind (check (changed = 1)) (\<lambda>_.
      io_bind (get_stored (en_client en) (pr_id request)) (\<lambda>settled.
      io_bind (check (r_state settled = Settled)) (\<lambda>_.
      io_bind (check (r_notified settled)) (\<lambda>_.
      io_bind (check (r_buyback settled = None)) (\<lambda>_.
      io_bind (check (r_auto_required settled = Some False)) (\<lambda>_.
      io_bind sim_sent (\<lambda>n.
      check (n = 0)))))))))))))))"

fun ticks_until_settled ::
    "nat \<Rightarrow> ('c, 'd, 'k) engine \<Rightarrow> payment_record \<Rightarrow> ('c, 'd, payment_record) act" where
  "ticks_until_settled 0 en rec = io_ret rec"
| "ticks_until_settled (Suc n) en rec =
     io_bind (tick en) (\<lambda>_.
     io_bind (get_stored (en_client en) ''engine'') (\<lambda>rec.
     if r_state rec = Settled then io_ret rec else ticks_until_settled n en rec))"

definition engine_record :: "'k crypto \<Rightarrow> 'k \<Rightarrow> 'k wallet \<Rightarrow> sealed_secret \<Rightarrow> payment_record" where
  "engine_record cr treasury wallet sealed =
     (let address = ss58 cr (cr_account_id cr treasury) in
      (test_record ''engine'')
        \<lparr>r_identity := Some \<lparr>ji_genesis_hash = ''simulated-genesis'', ji_treasury = address, ji_treasury_hotkey = address,
           ji_consolidate = False, ji_return_dust = False\<rparr>,
         r_netuid := 100, r_auto_required := Some True, r_address := ss58 cr (wallet_account_id cr wallet),
         r_sealed_secret := sealed, r_state := Detected,
         r_buyback_budget := Some \<lparr>bb_amount_rao = MIN_STAKE_RAO, bb_currency = ''TAO'',
           bb_source = ''explicit-test-allocation'', bb_netuid = 100, bb_destroy = Burn, bb_hotkey = address\<rparr>\<rparr>)"

definition engine_settled :: "('t, sqlite_db, 'k) client \<Rightarrow> ('t, sqlite_db, nat) act \<Rightarrow> account_id \<Rightarrow> payment_record \<Rightarrow> ('t, sqlite_db, unit) act" where
  "engine_settled cl sent who rec =
     io_bind (check (r_state rec = Settled)) (\<lambda>_.
     io_bind (check (r_buyback_done rec)) (\<lambda>_.
     io_bind sent (\<lambda>n.
     io_bind (check (n = 4)) (\<lambda>_.
     io_bind (check (length (r_txs rec) = 4)) (\<lambda>_.
     io_bind (unwrap (r_buyback rec)) (\<lambda>receipt.
     io_bind (check (br_tao_spent receipt = MIN_STAKE_RAO)) (\<lambda>_.
     io_bind (check (br_alpha_destroyed receipt = 20)) (\<lambda>_.
     io_bind (check (r_pending rec = None)) (\<lambda>_.
     io_bind (st_reserve_signer cl (ss58 (cl_crypto cl) who) ''next-job'') (\<lambda>_.
     io_bind (unwrap (r_buyback_budget rec)) (\<lambda>budget.
     fails (st_update cl (rec\<lparr>r_buyback_budget := Some (budget\<lparr>bb_amount_rao := bb_amount_rao budget + 1\<rparr>)\<rparr>)))))))))))))"

definition engine_cfg :: "account_id \<Rightarrow> config" where
  "engine_cfg who =
     (config_new ''unused'' 100 who)\<lparr>c_consolidate := False, c_return_dust := False, c_buyback_budget := None\<rparr>"

definition engine_ticks_complete ::
    "'k crypto \<Rightarrow> 'c system \<Rightarrow> 'k \<Rightarrow> 'k wallet \<Rightarrow> u8 list \<Rightarrow> (simulated_chain \<times> 'c, sqlite_db, unit) act" where
  "engine_ticks_complete cr os treasury wallet nonce =
     (let who = cr_account_id cr treasury; en = sim_engine cr os (Some who) treasury (engine_cfg who); cl = en_client en in
      io_bind (io_lift (wallet_seal_with cr wallet (keyring_of_master (replicate 32 42)) nonce
        (wallet_aad ''engine'' (ss58 cr (wallet_account_id cr wallet))))) (\<lambda>sealed.
      let rec = engine_record cr treasury wallet sealed in
      io_bind (st_insert cl rec) (\<lambda>_.
      io_bind (ticks_until_settled 12 en rec) (engine_settled cl sim_sent who))))"

section \<open>They pass\<close>

text \<open>Evaluation leaves the engine and its transport folded.\<close>

lemma sim_client_simps:
  "cl_rpc (sim_client cr os owner treasury) = simulated_rpc cr os (cr_account_id cr treasury) owner"
  "cl_store (sim_client cr os owner treasury) = sqlite_ops cr" "cl_crypto (sim_client cr os owner treasury) = cr"
  "en_client (sim_engine cr os owner treasury cfg) = sim_client cr os owner treasury"
  "en_keyring (sim_engine cr os owner treasury cfg) = keyring_of_master (replicate 32 42)"
  "en_seed (sim_engine cr os owner treasury cfg) = None" "en_treasury (sim_engine cr os owner treasury cfg) = treasury"
  "en_cfg (sim_engine cr os owner treasury cfg) = cfg" "\<not> en_webhook (sim_engine cr os owner treasury cfg)"
  by (simp_all add: sim_client_def sim_engine_def engine_new_def)

lemma simulated_rpc_simps:
  "rp_others (simulated_rpc cr os hk owner) c = ([], c)" "rp_genesis_hash (simulated_rpc cr os hk owner) = ''simulated-genesis''"
  "rp_now (simulated_rpc cr (list_system now os') hk owner) (s, c') = (now, s, c')"
  "rp_random (simulated_rpc cr (list_system now os') hk owner) len (s, c') = (replicate len 0, s, c')"
  "rp_uuid (simulated_rpc cr (list_system now os') hk owner) (s, t # ts) = (t, s, ts)"
  "rp_prepare (simulated_rpc cr os hk owner) call signer (s, e) = (Inr (sim_prepare cr call signer s), s, e)"
  "rp_broadcast (simulated_rpc cr os hk owner) p (s, e) =
     (fst (sim_broadcast (os_unexpected os) p s), snd (sim_broadcast (os_unexpected os) p s), e)"
  "rp_find_pending (simulated_rpc cr os hk owner) q (s, e) = (sim_find_pending s, s, e)"
  "rp_free_balance (simulated_rpc cr os hk owner) a c = (Inr 1000000000, c)"
  "rp_account (simulated_rpc cr os hk owner) a c = (Inr (0, 0), c)"
  "rp_alpha_on (simulated_rpc cr os hk owner) a n c =
     (Inr (1000000000, [\<lparr>sp_hotkey = hk, sp_netuid = n, sp_alpha = 1000000000\<rparr>]), c)"
  "rp_estimate_fee (simulated_rpc cr os hk owner) call k c = (Inr 100, c)"
  "rp_existential_deposit (simulated_rpc cr os hk owner) c = (Inr 100, c)"
  "rp_alpha_price (simulated_rpc cr os hk owner) n c = (Inr 1000000000, c)"
  "rp_hotkey_owner (simulated_rpc cr os hk owner) a c = (Inr owner, c)"
  by (simp_all add: simulated_rpc_def list_system_def case_prod_beta Let_def)

lemmas sim_eval = sim_client_simps simulated_rpc_simps en_rpc_def en_crypto_def sim_sent_def
  sim_start_def start_def refused_config_def st_reserve_signer_def get_stored_def

lemmas engine_eval = test_eval io_simps call_defs sqlite_eval sim_eval empty_db_def Let_def

lemma startup_missing_hotkey_never_submits:
  assumes "t1 \<noteq> t2"
  shows "passes (startup_missing_hotkey_never_submits cr (list_system now os) treasury) (sim_start [t1, t2])"
  using assms
  by (simp add: startup_missing_hotkey_never_submits_def ensure_treasury_hotkey_def buyback_def buyback_and_burn_def
      buyback_and_recycle_def buyback_all_def buyback_with_def engine_eval)

text \<open>Creating a payment with the transparent cryptography of \<open>Keys\<close>.\<close>

lemmas create_eval = create_payment_def payment_record_of_def new_record_def check_policy_def no_opts_def config_new_def
  wallet_generate_def wallet_from_phrase_def wallet_seal_with_def keyring_seal_def keyring_of_master_def master_seal_def
  wallet_account_id_def sqlite_require_signing_def job_identity_of_def treasury_account_def ss58_def plain_crypto_def

lemma identity_is_persisted:
  assumes "text_of treasury \<noteq> ''other''"
  shows "passes (identity_is_persisted plain_crypto (list_system now os) treasury) (sim_start [t1])"
  using assms
  by (simp add: identity_is_persisted_def other_identities_def step_def create_eval engine_eval)

lemma persisted_auto_off_settles:
  assumes "now < now + 86400"
  shows "passes (persisted_auto_off_settles plain_crypto (list_system now os) treasury) (sim_start [t1])"
  using assms
  by (simp add: persisted_auto_off_settles_def tick_def pending_accounts_def List.map_filter_def step_def create_eval engine_eval skip_record_def or_record_failure_def
    step_swept_def settle_def notify_def emit_def record_status_def transition_def resume_ok_def sqlite_list_def)

subsection \<open>The ticks of the last test\<close>

lemma ticks_numeral:
  "ticks_until_settled (numeral k) en rec =
     io_bind (tick en) (\<lambda>_. io_bind (get_stored (en_client en) ''engine'') (\<lambda>rec.
     if r_state rec = Settled then io_ret rec else ticks_until_settled (pred_numeral k) en rec))"
  by (simp add: numeral_eq_Suc)

lemma ticks_add:
  "ticks_until_settled m en rec w = (Inr q, w') \<Longrightarrow> r_state q \<noteq> Settled \<Longrightarrow>
   ticks_until_settled (m + n) en rec w = ticks_until_settled n en q w'"
proof (induction m arbitrary: rec w)
  case (Suc m)
  then show ?case by (auto simp: io_simps split: prod.splits sum.splits if_splits)
qed (simp add: io_simps)

text \<open>The job after five ticks: funded, swept, two transactions.  The history of broadcasts is left open.\<close>

definition swept_record :: "'k crypto \<Rightarrow> 'k \<Rightarrow> 'k wallet \<Rightarrow> sealed_secret \<Rightarrow> u64 \<Rightarrow> payment_record" where
  "swept_record cr treasury wallet sealed now =
     (engine_record cr treasury wallet sealed)
       \<lparr>r_state := Swept, r_version := 5, r_detected_alpha := 1000000000, r_funded_tao := 250, r_swept_alpha := 1000000000,
        r_txs := [\<lparr>tr_action = ''transfer_keep_alive'', tr_tx_hash = ''simulated-'' @ show_nat 0,
                     tr_block_hash = ''simulated-finalized-block'', tr_amount = 250\<rparr>,
                   \<lparr>tr_action = ''transfer_stake'', tr_tx_hash = ''simulated-'' @ show_nat 1,
                     tr_block_hash = ''simulated-finalized-block'', tr_amount = 1000000000\<rparr>],
        r_swept_positions := [(ss58 cr (cr_account_id cr treasury), 1000000000)], r_updated_at := now\<rparr>"

definition one_job ::
    "nat \<Rightarrow> event_summary \<Rightarrow> string list \<Rightarrow> payment_record \<Rightarrow> (prepared_tx \<times> sqlite_db) list \<Rightarrow>
     (simulated_chain \<times> string list, sqlite_db) world" where
  "one_job n result tokens rec history =
     \<lparr>w_env = (\<lparr>sim_broadcasts = n, sim_result = result\<rparr>, tokens),
      w_db = \<lparr>db_payments = [\<lparr>row_id = r_id rec, row_state = as_str (r_state rec), row_version = sint (r_version rec),
                row_created_at = 0, row_record = rec\<rparr>], db_reservations = [], db_recoveries = []\<rparr>,
      w_events = [], w_sent = history\<rparr>"

lemma price_facts:
  "funding_needed 100 5000 100 0 = 250" "buy_limit_price 1000000000 100 = 1010000000"
  "spendable 1000000000 100000000 100 = 899999900"
proof -
  have "add_bps_ceil 100 5000 = 150" "add_bps_ceil 1000000000 100 = 1010000000"
    by (simp_all add: add_bps_ceil_def BPS_def div_ceil_def u64_try_from_def)
  then show "funding_needed 100 5000 100 0 = 250" "buy_limit_price 1000000000 100 = 1010000000"
    by (simp_all add: funding_needed_def buy_limit_price_def saturating_sub_def saturating_add_def)
qed (simp add: spendable_def saturating_sub_def)

lemmas step_eval = tick_def pending_accounts_def List.map_filter_def step_def skip_record_def or_record_failure_def
  step_detected_def step_funded_def step_swept_def settle_def step_auto_buyback_def resolve_pending_def announce_if_final_def
  notify_def emit_def record_status_def transition_def resume_ok_def sqlite_list_def send_def send_journaled_def
  sim_prepare_def sim_broadcast_def sim_find_pending_def sim_summary_def journal_entry_def receipt_eval summary_has_def
  sweep_floor_def floor_of_def engine_spendable_def sweepable_def wallet_of_def strict_buyback_amount_def destroy_call_def
  validate_completed_buyback_def saturating_add_def step_failed_def get_or_not_found_def

lemmas job_eval = engine_record_def job_identity_of_def treasury_account_def engine_cfg_def config_new_def price_facts
  MIN_STAKE_RAO_def RAO_PER_TAO_def

lemma io_bind_weak_cong: "m = m' \<Longrightarrow> io_bind m f = io_bind m' f"
  by simp

lemma engine_ticks_complete:
  assumes "aead_correct cr" and "hex_correct cr" and "ss58_correct cr" and "length nonce = 24"
    and "wallet_from_secret_bytes cr (wl_secret wallet) = Inr wallet"
    and s: "wallet_seal_with cr wallet (keyring_of_master (replicate 32 42)) nonce
       (wallet_aad ''engine'' (ss58 cr (wallet_account_id cr wallet))) = Inr sealed"
  shows "passes (engine_ticks_complete cr (list_system now os) treasury wallet nonce) (sim_start [t1, t2, t3, t4, t5])"
proof -
  let ?kr = "keyring_of_master (replicate 32 42)" and ?who = "cr_account_id cr treasury"
  let ?en = "sim_engine cr (list_system now os) (Some ?who) treasury (engine_cfg ?who)"
  let ?rec = "engine_record cr treasury wallet sealed" and ?swept = "swept_record cr treasury wallet sealed now"
  let ?moved = "no_summary\<lparr>es_names := [(PALLET, ''StakeTransferred'')]\<rparr>"
  have u: "wallet_unseal_with cr ?kr sealed (wallet_aad ''engine'' (ss58 cr (wallet_account_id cr wallet))) = Inr wallet"
    by (rule wallet_seal_recovers [OF assms(1,2,4) s assms(5)]) simp
  have p: "parse_ss58 cr (ss58 cr a) = Inr a" for a
    using assms(3) by (simp add: ss58_correct_def ss58_def parse_ss58_def)
  have b: "budget_validate cr \<lparr>bb_amount_rao = 2000000, bb_currency = ''TAO'', bb_source = ''explicit-test-allocation'', bb_netuid = 100,
      bb_destroy = Burn, bb_hotkey = ss58 cr a\<rparr> = Inr ()" for a
    by (simp add: budget_validate_def p MIN_STAKE_RAO_def trim_def ws1_def ws2_def ws3_def byte_of_def)
  have "\<exists>h. ticks_until_settled 5 ?en ?rec (one_job 0 no_summary [t1, t2, t3, t4, t5] ?rec []) =
      (Inr ?swept, one_job 2 ?moved [t3, t4, t5] ?swept h)"
    using u by (simp add: ticks_numeral step_eval job_eval swept_record_def one_job_def p b engine_eval cong: io_bind_weak_cong)
  then obtain h where "ticks_until_settled 5 ?en ?rec (one_job 0 no_summary [t1, t2, t3, t4, t5] ?rec []) =
      (Inr ?swept, one_job 2 ?moved [t3, t4, t5] ?swept h)" by blast
  moreover have "r_state ?swept \<noteq> Settled" by (simp add: swept_record_def)
  ultimately have first: "ticks_until_settled 12 ?en ?rec (one_job 0 no_summary [t1, t2, t3, t4, t5] ?rec []) =
      ticks_until_settled 7 ?en ?swept (one_job 2 ?moved [t3, t4, t5] ?swept h)"
    using ticks_add [where m = 5 and n = 7] by simp
  have last: "is_ok (fst (io_bind (ticks_until_settled 7 ?en ?swept) (engine_settled (en_client ?en) sim_sent ?who)
      (one_job 2 ?moved [t3, t4, t5] ?swept h)))"
    using u by (simp add: ticks_numeral engine_settled_def step_eval job_eval swept_record_def one_job_def p b engine_eval
        cong: io_bind_weak_cong)
  have "st_insert (en_client ?en) ?rec (sim_start [t1, t2, t3, t4, t5]) = (Inr (), one_job 0 no_summary [t1, t2, t3, t4, t5] ?rec [])"
    by (simp add: one_job_def engine_record_def engine_eval)
  then show ?thesis
    using s first last by (simp add: passes_def engine_ticks_complete_def io_simps Let_def)
qed

end
